(* ===== verification/BIL_Prelude.thy ===== *)
theory BIL_Prelude
  imports Main "HOL-Library.Word"
begin

text \<open>
  Shared vocabulary of the development: the machine types of the C++ sources
  (\<open>uint8_t\<close>, \<open>size_t\<close>, \<open>idx_t\<close> on a 64-bit host), the three-way outcome of a
  C++ call (normal return, a thrown exception that leaves a state behind, undefined
  behaviour), rounding-up division on \<open>nat\<close> and its bridge to \<open>size_t\<close>
  arithmetic, and the two list operations every memory primitive is built from:
  \<open>subrange\<close> (read a range) and \<open>overwrite\<close> (write a range in place).
  The fact collections declared here carry the proofs of the component theories.
\<close>

section \<open>Fact collections\<close>

named_theorems bil_len \<open>lengths of the results of memory primitives\<close>
named_theorems bil_defs \<open>unfolding equations of the C++ memory primitives\<close>
named_theorems bil_range \<open>reads from and writes to byte ranges\<close>

section \<open>Machine types\<close>

type_synonym byte = "8 word"
type_synonym size_t = "64 word"
type_synonym idx_t = "64 word"

abbreviation size_limit :: nat where
  "size_limit \<equiv> 2 ^ 64"

section \<open>Outcomes of a call\<close>

text \<open>
  A call either returns a value and leaves a state, or throws and leaves the state
  it had reached when the exception left the function, or has no defined behaviour
  at all (an access outside a buffer, a division by zero, a null dereference, a failed
  \<open>assert\<close>, a \<open>delete[]\<close> of an address that is not live, a signed operation whose
  result does not fit its type).  \<open>FaissException\<close> carries the text of the failed
  condition of \<open>FAISS_THROW_IF_NOT\<close>; \<open>BadAlloc\<close> is what \<open>new[]\<close> throws for a size it
  cannot serve.
\<close>

datatype ub = OutOfBounds | DivByZero | NullDeref | AssertFailed | InvalidFree | SignedOverflow

datatype exn = FaissException string | BadAlloc

datatype ('a, 's) outcome = Returns 'a 's | Throws exn 's | Undefined ub

fun state_after :: "('a, 's) outcome \<Rightarrow> 's option" where
  "state_after (Returns _ s) = Some s"
| "state_after (Throws _ s) = Some s"
| "state_after (Undefined _) = None"

fun returned :: "('a, 's) outcome \<Rightarrow> 'a option" where
  "returned (Returns a _) = Some a"
| "returned (Throws _ _) = None"
| "returned (Undefined _) = None"

fun is_defined :: "('a, 's) outcome \<Rightarrow> bool" where
  "is_defined (Undefined _) = False"
| "is_defined _ = True"

text \<open>Sequencing: the second statement runs in the state the first returned; an
  exception or undefined behaviour of the first ends the sequence.\<close>

fun and_then :: "('a, 's) outcome \<Rightarrow> ('a \<Rightarrow> 's \<Rightarrow> ('b, 's) outcome) \<Rightarrow> ('b, 's) outcome" where
  "and_then (Returns a s) k = k a s"
| "and_then (Throws e s) k = Throws e s"
| "and_then (Undefined u) k = Undefined u"

lemma and_then_Returns_iff:
  "and_then m k = Returns b t \<longleftrightarrow> (\<exists>a s. m = Returns a s \<and> k a s = Returns b t)"
  by (cases m) auto

lemma state_after_Some_iff:
  "state_after r = Some s \<longleftrightarrow> (\<exists>a. r = Returns a s) \<or> (\<exists>e. r = Throws e s)"
  by (cases r) auto

lemma is_defined_iff: "is_defined r \<longleftrightarrow> state_after r \<noteq> None"
  by (cases r) auto

section \<open>Rounding-up division\<close>

definition ceil_div :: "nat \<Rightarrow> nat \<Rightarrow> nat" where
  "ceil_div n k = (n + k - 1) div k"

lemma ceil_div_0 [simp]: "ceil_div 0 k = 0"
  by (cases k) (simp_all add: ceil_div_def)

lemma ceil_div_split:
  assumes "0 < k"
  obtains r where "r < k" and "ceil_div n k * k + r = n + k - 1"
proof
  show "(n + k - 1) mod k < k" using assms by simp
  show "ceil_div n k * k + (n + k - 1) mod k = n + k - 1"
    by (simp add: ceil_div_def)
qed

lemma ceil_div_covers: "0 < k \<Longrightarrow> n \<le> ceil_div n k * k"
  by (rule ceil_div_split [of k n]) linarith+

lemma ceil_div_tight: "0 < k \<Longrightarrow> ceil_div n k * k < n + k"
  by (rule ceil_div_split [of k n]) linarith+

lemma ceil_div_mono: "m \<le> n \<Longrightarrow> ceil_div m k \<le> ceil_div n k"
  by (simp add: ceil_div_def div_le_mono)

lemma ceil_div_slot: "0 < k \<Longrightarrow> i < n \<Longrightarrow> i div k < ceil_div n k"
proof -
  assume k: "0 < k" and i: "i < n"
  have "i div k * k \<le> i" by simp
  also have "i < n" by fact
  also have "n \<le> ceil_div n k * k" using k by (rule ceil_div_covers)
  finally show ?thesis using k by simp
qed

lemma ceil_div_eq_iff:
  "0 < k \<Longrightarrow> ceil_div n k = q \<longleftrightarrow> n \<le> q * k \<and> q * k < n + k"
proof (intro iffI conjI)
  assume k: "0 < k" and "ceil_div n k = q"
  then show "n \<le> q * k" "q * k < n + k"
    using ceil_div_covers [of k n] ceil_div_tight [of k n] by auto
next
  assume k: "0 < k" and b: "n \<le> q * k \<and> q * k < n + k"
  have "q * k \<le> n + k - 1" using b k by linarith
  then have "q \<le> ceil_div n k"
    using k by (simp add: ceil_div_def less_eq_div_iff_mult_less_eq)
  moreover have "n + k - 1 < q * k + k" using b k by linarith
  then have "n + k - 1 < (q + 1) * k" by simp
  then have "ceil_div n k < q + 1"
    using k by (simp only: ceil_div_def div_less_iff_less_mult)
  ultimately show "ceil_div n k = q" by simp
qed

lemma ceil_div_mult [simp]: "0 < k \<Longrightarrow> ceil_div (m * k) k = m"
  by (simp add: ceil_div_eq_iff)

lemma mult_succ_le: "i < j \<Longrightarrow> i * b + b \<le> j * (b::nat)"
proof -
  assume "i < j"
  then have "(i + 1) * b \<le> j * b" by (intro mult_le_mono1) simp
  then show ?thesis by simp
qed

lemma ranges_disjoint:
  "i \<noteq> j \<Longrightarrow> i * b + b \<le> j * b \<or> j * b + b \<le> i * (b::nat)"
  using mult_succ_le [of i j b] mult_succ_le [of j i b] by (cases "i < j") auto

lemma ceil_div_slot_end:
  "0 < k \<Longrightarrow> i < n \<Longrightarrow> i div k * b + b \<le> ceil_div n k * b"
  by (rule mult_succ_le) (rule ceil_div_slot)

section \<open>\<open>size_t\<close> arithmetic that does not wrap\<close>

lemma unat_plus_no_wrap:
  fixes a b :: "'a::len word"
  shows "unat a + unat b < 2 ^ LENGTH('a) \<Longrightarrow> unat (a + b) = unat a + unat b"
  by (simp add: unat_add_lem)

lemma unat_times_no_wrap:
  fixes a b :: "'a::len word"
  shows "unat a * unat b < 2 ^ LENGTH('a) \<Longrightarrow> unat (a * b) = unat a * unat b"
  by (simp add: unat_mult_lem)

lemma unat_of_nat_len: "n < size_limit \<Longrightarrow> unat (of_nat n :: size_t) = n"
  by (simp add: unat_of_nat)

lemma unat_size_t_bound: "unat (w :: size_t) < size_limit"
  using unsigned_less [of w, where 'a = nat] by simp

lemma unat_size_max: "unat (- 1 :: size_t) = size_limit - 1"
  by (simp add: unsigned_minus_1_eq_mask mask_eq_exp_minus_1)

lemma unat_ceil_div:
  fixes sz k :: size_t
  assumes "k \<noteq> 0" "unat sz + unat k \<le> size_limit"
  shows "unat ((sz + k - 1) div k) = ceil_div (unat sz) (unat k)"
proof -
  have k: "0 < unat k" using assms(1) by (simp add: unat_gt_0)
  have 1: "unat (k - 1) = unat k - 1" using assms(1) by (simp add: unat_minus_one)
  have "unat (sz + (k - 1)) = unat sz + unat (k - 1)"
    using assms(2) k by (intro unat_plus_no_wrap) (simp add: 1)
  then have "unat (sz + k - 1) = unat sz + unat k - 1"
    using k by (simp add: 1 add_diff_eq)
  then show ?thesis by (simp add: unat_div ceil_div_def)
qed

section \<open>Reading and overwriting a range of a list\<close>

definition subrange :: "'a list \<Rightarrow> nat \<Rightarrow> nat \<Rightarrow> 'a list" where
  "subrange xs off n = take n (drop off xs)"

definition overwrite :: "'a list \<Rightarrow> nat \<Rightarrow> 'a list \<Rightarrow> 'a list" where
  "overwrite dst off src = take off dst @ src @ drop (off + length src) dst"

lemma length_subrange [bil_len]: "length (subrange xs off n) = min n (length xs - off)"
  by (simp add: subrange_def)

lemma length_subrange_in [simp]: "off + n \<le> length xs \<Longrightarrow> length (subrange xs off n) = n"
  by (simp add: subrange_def)

lemma length_overwrite [simp, bil_len]:
  "off + length src \<le> length dst \<Longrightarrow> length (overwrite dst off src) = length dst"
  by (simp add: overwrite_def)

lemma subrange_0_all [simp]: "subrange xs 0 (length xs) = xs"
  by (simp add: subrange_def)

lemma subrange_nil [simp]: "subrange xs off 0 = []"
  by (simp add: subrange_def)

lemma overwrite_nil [simp]: "overwrite dst off [] = dst"
  by (simp add: overwrite_def)

lemma nth_subrange: "i < n \<Longrightarrow> off + n \<le> length xs \<Longrightarrow> subrange xs off n ! i = xs ! (off + i)"
  by (simp add: subrange_def)

lemma nth_overwrite:
  "off + length src \<le> length dst \<Longrightarrow> i < length dst \<Longrightarrow>
   overwrite dst off src ! i =
     (if i < off then dst ! i
      else if i < off + length src then src ! (i - off)
      else dst ! i)"
  by (auto simp: overwrite_def nth_append min_def)

lemma subrange_overwrite_same [bil_range]:
  "off + length src \<le> length dst \<Longrightarrow> subrange (overwrite dst off src) off (length src) = src"
  by (simp add: subrange_def overwrite_def)

lemma subrange_overwrite_same_len:
  "length src = n \<Longrightarrow> off + n \<le> length dst \<Longrightarrow> subrange (overwrite dst off src) off n = src"
  using subrange_overwrite_same [of off src dst] by simp

lemma subrange_overwrite_before [bil_range]:
  "off' + n \<le> off \<Longrightarrow> off \<le> length dst \<Longrightarrow>
   subrange (overwrite dst off src) off' n = subrange dst off' n"
  by (simp add: subrange_def overwrite_def take_drop)

lemma subrange_overwrite_after [bil_range]:
  "off + length src \<le> off' \<Longrightarrow> off + length src \<le> length dst \<Longrightarrow>
   subrange (overwrite dst off src) off' n = subrange dst off' n"
  by (simp add: subrange_def overwrite_def)

lemma overwrite_subrange_id [simp]:
  "off + n \<le> length xs \<Longrightarrow> overwrite xs off (subrange xs off n) = xs"
proof -
  assume "off + n \<le> length xs"
  then have "take off xs @ take n (drop off xs) @ drop (off + n) xs = xs"
    by (metis add.commute append_take_drop_id drop_drop)
  with \<open>off + n \<le> length xs\<close> show ?thesis by (simp add: overwrite_def subrange_def)
qed

lemma take_overwrite [bil_range]:
  "n \<le> off \<Longrightarrow> off \<le> length dst \<Longrightarrow> take n (overwrite dst off src) = take n dst"
  by (simp add: overwrite_def)

lemma overwrite_whole [simp]: "length src = length dst \<Longrightarrow> overwrite dst 0 src = src"
  by (simp add: overwrite_def)

lemma subrange_append_left [bil_range]:
  "off + n \<le> length xs \<Longrightarrow> subrange (xs @ ys) off n = subrange xs off n"
  by (simp add: subrange_def)

lemma subrange_take [bil_range]:
  "off + n \<le> m \<Longrightarrow> subrange (take m xs) off n = subrange xs off n"
  by (simp add: subrange_def take_drop min_def)

end
