(* ===== verification/Cxx_Memory.thy ===== *)
theory Cxx_Memory
  imports BIL_Prelude
begin

text \<open>
  The C++ primitives that \<^verbatim>\<open>BlockInvertedLists.cpp\<close> calls on its buffers, as
  functions on lists: \<open>std::vector::resize\<close>, \<open>AlignedTable::resize\<close>,
  \<open>operator[]\<close>, \<open>memcpy\<close>, \<open>memset\<close>, the \<open>for\<close> loop over a
  \<open>size_t\<close> counter, and \<open>new[]\<close> / \<open>delete[]\<close> on a heap of byte arrays (\<open>new_array h a bytes\<close>
  is the heap with a new array at the address \<open>a\<close> the allocator chose, once the
  caller has filled it with \<open>bytes\<close>).
  An access outside a buffer is the value \<open>None\<close>, which the callers turn into
  \<open>Undefined OutOfBounds\<close>.  Bytes that an allocation leaves indeterminate are
  read from a parameter \<open>junk\<close>, so that every theorem holds for whatever the
  allocator left there.
\<close>

section \<open>Vectors and aligned tables\<close>

definition vector_resize :: "'a list \<Rightarrow> nat \<Rightarrow> 'a \<Rightarrow> 'a list" where
  "vector_resize v n z = take n v @ replicate (n - length v) z"

definition aligned_resize :: "(nat \<Rightarrow> byte) \<Rightarrow> byte list \<Rightarrow> nat \<Rightarrow> byte list" where
  "aligned_resize junk t n = take n t @ map junk [length t..<n]"

definition at :: "'a list \<Rightarrow> size_t \<Rightarrow> 'a option" where
  "at v i = (if unat i < length v then Some (v ! unat i) else None)"

definition memcpy :: "'a list \<Rightarrow> nat \<Rightarrow> 'a list \<Rightarrow> nat \<Rightarrow> 'a list option" where
  "memcpy dst off src n =
     (if off + n \<le> length dst \<and> n \<le> length src
      then Some (overwrite dst off (take n src)) else None)"

definition memset :: "'a list \<Rightarrow> nat \<Rightarrow> 'a \<Rightarrow> nat \<Rightarrow> 'a list option" where
  "memset dst off v n =
     (if off + n \<le> length dst then Some (overwrite dst off (replicate n v)) else None)"

lemmas cxx_mem_defs [bil_defs] =
  vector_resize_def aligned_resize_def at_def memcpy_def memset_def

lemma length_vector_resize [simp, bil_len]: "length (vector_resize v n z) = n"
  by (simp add: vector_resize_def)

lemma length_aligned_resize [simp, bil_len]: "length (aligned_resize junk t n) = n"
  by (simp add: aligned_resize_def)

lemma vector_resize_same [simp]: "vector_resize v (length v) z = v"
  by (simp add: vector_resize_def)

lemma aligned_resize_same [simp]: "aligned_resize junk t (length t) = t"
  by (simp add: aligned_resize_def)

lemma take_vector_resize [simp]:
  "m \<le> n \<Longrightarrow> m \<le> length v \<Longrightarrow> take m (vector_resize v n z) = take m v"
  by (simp add: vector_resize_def)

lemma take_aligned_resize [simp]:
  "m \<le> n \<Longrightarrow> m \<le> length t \<Longrightarrow> take m (aligned_resize junk t n) = take m t"
  by (simp add: aligned_resize_def)

lemma aligned_resize_shrink: "n \<le> length t \<Longrightarrow> aligned_resize junk t n = take n t"
  by (simp add: aligned_resize_def)

lemma vector_resize_shrink: "n \<le> length v \<Longrightarrow> vector_resize v n z = take n v"
  by (simp add: vector_resize_def)

lemma vector_resize_grow:
  "length v \<le> n \<Longrightarrow> vector_resize v n z = v @ replicate (n - length v) z"
  by (simp add: vector_resize_def)

lemma subrange_aligned_resize [bil_range]:
  "off + n \<le> m \<Longrightarrow> off + n \<le> length t \<Longrightarrow>
   subrange (aligned_resize junk t m) off n = subrange t off n"
  by (simp add: aligned_resize_def subrange_append_left subrange_take)

lemma memcpy_Some_iff:
  "memcpy dst off src n = Some r \<longleftrightarrow>
     off + n \<le> length dst \<and> n \<le> length src \<and> r = overwrite dst off (take n src)"
  by (auto simp: memcpy_def)

lemma memcpy_None_iff:
  "memcpy dst off src n = None \<longleftrightarrow> length dst < off + n \<or> length src < n"
  by (auto simp: memcpy_def)

lemma length_memcpy [bil_len]: "memcpy dst off src n = Some r \<Longrightarrow> length r = length dst"
  by (auto simp: memcpy_def split: if_splits)

lemma memcpy_whole:
  "length dst \<le> length src \<Longrightarrow> memcpy dst 0 src (length dst) = Some (take (length dst) src)"
  by (simp add: memcpy_def)

lemma memset_Some_iff:
  "memset dst off v n = Some r \<longleftrightarrow>
     off + n \<le> length dst \<and> r = overwrite dst off (replicate n v)"
  by (auto simp: memset_def)

lemma length_memset [bil_len]: "memset dst off v n = Some r \<Longrightarrow> length r = length dst"
  by (auto simp: memset_def split: if_splits)

text \<open>
  Zeroing the new tail of a grown table removes every trace of \<open>junk\<close>: this is the
  \<open>resize\<close> followed by \<open>memset\<close> of \<^verbatim>\<open>BlockInvertedLists::resize\<close>.
\<close>

lemma memset_aligned_resize_grow:
  "length t \<le> n \<Longrightarrow>
   memset (aligned_resize junk t n) (length t) 0 (n - length t) =
     Some (t @ replicate (n - length t) 0)"
  by (simp add: memset_def aligned_resize_def overwrite_def)

lemma at_Some_iff: "at v i = Some x \<longleftrightarrow> unat i < length v \<and> x = v ! unat i"
  by (auto simp: at_def)

lemma at_None_iff: "at v i = None \<longleftrightarrow> length v \<le> unat i"
  by (auto simp: at_def)

section \<open>The \<open>for\<close> loop over a \<open>size_t\<close> counter\<close>

text \<open>
  \<^verbatim>\<open>for (size_t i = i0; i < n; i++) body\<close>, with a body that may throw or be
  undefined.  The counter is a 64-bit word; the loop terminates because \<open>i < n\<close>
  keeps \<open>i + 1\<close> from wrapping.
\<close>

lemma unat_counter_Suc:
  fixes i n :: size_t
  assumes "i < n"
  shows "unat (i + 1) = Suc (unat i)" and "i + 1 \<le> n"
proof -
  from assms have "unat i < unat n" by (simp add: word_less_nat_alt)
  moreover have "unat n < size_limit" by (rule unat_size_t_bound)
  ultimately have "unat i + unat (1 :: size_t) < 2 ^ LENGTH(64)" by simp
  then show "unat (i + 1) = Suc (unat i)"
    using unat_plus_no_wrap [of i 1] by simp
  with \<open>unat i < unat n\<close> show "i + 1 \<le> n" by (simp add: word_le_nat_alt)
qed

lemma size_t_loop_measure:
  fixes i n :: size_t
  shows "i < n \<Longrightarrow> unat n - unat (i + 1) < unat n - unat i"
  by (simp add: unat_counter_Suc(1) word_less_nat_alt)

function for_loop ::
  "size_t \<Rightarrow> size_t \<Rightarrow> (size_t \<Rightarrow> 's \<Rightarrow> (unit, 's) outcome) \<Rightarrow> 's \<Rightarrow> (unit, 's) outcome"
where
  "for_loop i n body s =
     (if i < n then
        (case body i s of
           Returns _ s' \<Rightarrow> for_loop (i + 1) n body s'
         | Throws e s' \<Rightarrow> Throws e s'
         | Undefined u \<Rightarrow> Undefined u)
      else Returns () s)"
  by pat_completeness auto
termination
  by (relation "measure (\<lambda>(i, n, body, s). unat n - unat i)")
     (auto simp: size_t_loop_measure)

declare for_loop.simps [simp del]

text \<open>The reference definition: the body folded over the counter values in order.\<close>

fun fold_outcome ::
  "('i \<Rightarrow> 's \<Rightarrow> (unit, 's) outcome) \<Rightarrow> 'i list \<Rightarrow> 's \<Rightarrow> (unit, 's) outcome"
where
  "fold_outcome body [] s = Returns () s"
| "fold_outcome body (i # is) s =
     (case body i s of
        Returns _ s' \<Rightarrow> fold_outcome body is s'
      | Throws e s' \<Rightarrow> Throws e s'
      | Undefined u \<Rightarrow> Undefined u)"

definition counters :: "size_t \<Rightarrow> size_t \<Rightarrow> size_t list" where
  "counters i n = map of_nat [unat i..<unat n]"

lemma counters_Nil [simp]: "\<not> i < n \<Longrightarrow> counters i n = []"
  by (simp add: counters_def word_less_nat_alt)

lemma counters_Cons: "i < n \<Longrightarrow> counters i n = i # counters (i + 1) n"
  by (simp add: counters_def upt_conv_Cons unat_counter_Suc(1) word_less_nat_alt)

lemma length_counters [simp]: "length (counters i n) = unat n - unat i"
  by (simp add: counters_def)

lemma set_counters: "set (counters i n) = {j. i \<le> j \<and> j < n}"
proof (intro set_eqI iffI)
  fix j assume "j \<in> set (counters i n)"
  then obtain k where k: "unat i \<le> k" "k < unat n" and j: "j = of_nat k"
    by (auto simp: counters_def)
  from k(2) have "k < size_limit" using unat_size_t_bound [of n] by simp
  then have "unat j = k" unfolding j by (rule unat_of_nat_len)
  with k show "j \<in> {j. i \<le> j \<and> j < n}"
    by (simp add: word_le_nat_alt word_less_nat_alt)
next
  fix j assume "j \<in> {j. i \<le> j \<and> j < n}"
  then have "unat j \<in> set [unat i..<unat n]"
    by (simp add: word_le_nat_alt word_less_nat_alt)
  then have "of_nat (unat j) \<in> set (counters i n)"
    unfolding counters_def set_map by (rule imageI)
  then show "j \<in> set (counters i n)" by simp
qed

lemma distinct_counters: "distinct (counters i n)"
proof -
  have "inj_on (of_nat :: nat \<Rightarrow> size_t) (set [unat i..<unat n])"
  proof (rule inj_onI)
    fix a b assume ab: "a \<in> set [unat i..<unat n]" "b \<in> set [unat i..<unat n]"
      and eq: "(of_nat a :: size_t) = of_nat b"
    from ab have "a < size_limit" "b < size_limit"
      using unat_size_t_bound [of n] by simp_all
    then have "unat (of_nat a :: size_t) = a" "unat (of_nat b :: size_t) = b"
      by (simp_all add: unat_of_nat_len)
    with eq show "a = b" by metis
  qed
  then show ?thesis by (simp add: counters_def distinct_map)
qed

lemma for_loop_fold: "for_loop i n body s = fold_outcome body (counters i n) s"
proof (induction i n body s rule: for_loop.induct)
  case (1 i n body s)
  show ?case
  proof (cases "i < n")
    case True
    then show ?thesis
      using "1.IH" by (subst for_loop.simps) (simp add: counters_Cons split: outcome.split)
  next
    case False
    then show ?thesis by (subst for_loop.simps) simp
  qed
qed

lemma fold_outcome_append:
  "fold_outcome body (xs @ ys) s =
     (case fold_outcome body xs s of
        Returns _ s' \<Rightarrow> fold_outcome body ys s'
      | Throws e s' \<Rightarrow> Throws e s'
      | Undefined u \<Rightarrow> Undefined u)"
  by (induction xs arbitrary: s) (auto split: outcome.split)

text \<open>A property that every step of the body keeps holds in the state the loop leaves.\<close>

lemma fold_outcome_state_invariant:
  assumes "state_after (fold_outcome body xs s) = Some s'" and "P s"
    and "\<And>i t t'. i \<in> set xs \<Longrightarrow> P t \<Longrightarrow> state_after (body i t) = Some t' \<Longrightarrow> P t'"
  shows "P s'"
  using assms
proof (induction xs arbitrary: s)
  case Nil
  then show ?case by simp
next
  case (Cons x xs)
  show ?case
  proof (cases "body x s")
    case (Returns u t)
    with Cons.prems(2,3) have "P t" by (auto simp: state_after_Some_iff)
    moreover from Cons.prems(1) Returns have "state_after (fold_outcome body xs t) = Some s'"
      by simp
    ultimately show ?thesis using Cons.IH Cons.prems(3) by (meson list.set_intros(2))
  next
    case (Throws e t)
    with Cons.prems show ?thesis by (auto simp: state_after_Some_iff)
  next
    case (Undefined u)
    with Cons.prems(1) show ?thesis by simp
  qed
qed

lemma for_loop_state_invariant:
  assumes "state_after (for_loop i n body s) = Some s'" and "P s"
    and "\<And>j t t'. P t \<Longrightarrow> state_after (body j t) = Some t' \<Longrightarrow> P t'"
  shows "P s'"
  using assms(1,2) unfolding for_loop_fold
  by (rule fold_outcome_state_invariant) (rule assms(3))

lemma fold_outcome_no_throw:
  assumes "\<And>i t e t'. body i t \<noteq> Throws e t'"
  shows "fold_outcome body xs s \<noteq> Throws e s'"
  by (induction xs arbitrary: s) (auto simp: assms split: outcome.split)

lemma for_loop_no_throw:
  assumes "\<And>i t e t'. body i t \<noteq> Throws e t'"
  shows "for_loop i n body s \<noteq> Throws e s'"
  unfolding for_loop_fold using assms by (rule fold_outcome_no_throw)

lemma fold_outcome_defined:
  assumes "P s" and "\<And>i t. i \<in> set xs \<Longrightarrow> P t \<Longrightarrow> is_defined (body i t)"
    and "\<And>i t u t'. P t \<Longrightarrow> body i t = Returns u t' \<Longrightarrow> P t'"
  shows "is_defined (fold_outcome body xs s)"
  using assms(1,2)
proof (induction xs arbitrary: s)
  case Nil
  show ?case by simp
next
  case (Cons x xs)
  from Cons.prems(2) [OF _ Cons.prems(1), of x] assms(3) [OF Cons.prems(1), of x]
    Cons.IH Cons.prems(2)
  show ?case by (cases "body x s") auto
qed

lemma for_loop_defined:
  assumes "P s" and "\<And>j t. j < n \<Longrightarrow> P t \<Longrightarrow> is_defined (body j t)"
    and "\<And>j t u t'. P t \<Longrightarrow> body j t = Returns u t' \<Longrightarrow> P t'"
  shows "is_defined (for_loop i n body s)"
  unfolding for_loop_fold using assms
  by (intro fold_outcome_defined [where P = P]) (auto simp: set_counters)



lemma for_loop_first_undefined:
  "i < n \<Longrightarrow> body i s = Undefined u \<Longrightarrow> for_loop i n body s = Undefined u"
  by (subst for_loop.simps) simp

lemma for_loop_0_0 [simp]: "for_loop i i body s = Returns () s"
  by (subst for_loop.simps) simp

section \<open>A heap of byte arrays\<close>

type_synonym addr = nat
type_synonym heap = "addr \<Rightarrow> byte list option"

definition new_array :: "heap \<Rightarrow> addr \<Rightarrow> byte list \<Rightarrow> heap" where
  "new_array h a bytes = h(a \<mapsto> bytes)"

definition delete_array :: "heap \<Rightarrow> addr \<Rightarrow> heap option" where
  "delete_array h a = (if a \<in> dom h then Some (h(a := None)) else None)"

lemma dom_new_array [simp]: "dom (new_array h a bytes) = insert a (dom h)"
  by (simp add: new_array_def)

lemma delete_array_Some_iff:
  "delete_array h a = Some h' \<longleftrightarrow> a \<in> dom h \<and> h' = h(a := None)"
  by (auto simp: delete_array_def)

lemma dom_delete_array: "delete_array h a = Some h' \<Longrightarrow> dom h' = dom h - {a}"
  by (auto simp: delete_array_def split: if_splits)

end
