(* ===== verification/CodePacker.thy ===== *)
theory CodePacker
  imports Cxx_Memory
begin

text \<open>
  The code-packing contract the store depends on (\<open>faiss::CodePacker\<close>, declared
  outside the sources and described in sections 4.1 and 6 of the specification).
  A packer is a record of its three sizes and of the two block-level operations of the
  specification, \<open>pack_one\<close> and \<open>unpack_one\<close>.  The methods the store calls,
  \<open>pack_1\<close> and \<open>unpack_1\<close>, take the offset of a code in a whole list and the
  whole packed buffer: they locate the block \<open>offset / nvec\<close> and the slot
  \<open>offset % nvec\<close> and apply the block-level operation there.  \<open>packer_ok\<close> is
  the contract (round trip, no interference between slots, sizes); the lemmas lift it
  from one block to a buffer of blocks.  \<open>flat_packer\<close> is the row-major packer, an
  instance that shows the contract can be met.
\<close>

section \<open>The packer and its adapter\<close>

record CodePacker =
  code_size :: size_t
  nvec :: size_t
  block_size :: size_t
  pack_one :: "byte list \<Rightarrow> nat \<Rightarrow> byte list \<Rightarrow> byte list"
  unpack_one :: "byte list \<Rightarrow> nat \<Rightarrow> byte list"

definition block_of :: "CodePacker \<Rightarrow> size_t \<Rightarrow> nat" where
  "block_of p offset = unat (offset div nvec p)"

definition slot_of :: "CodePacker \<Rightarrow> size_t \<Rightarrow> nat" where
  "slot_of p offset = unat (offset mod nvec p)"

definition block_start :: "CodePacker \<Rightarrow> size_t \<Rightarrow> nat" where
  "block_start p offset = block_of p offset * unat (block_size p)"

definition holds_slot :: "CodePacker \<Rightarrow> byte list \<Rightarrow> size_t \<Rightarrow> bool" where
  "holds_slot p buf offset \<longleftrightarrow>
     nvec p \<noteq> 0 \<and> block_start p offset + unat (block_size p) \<le> length buf"

definition block_at :: "CodePacker \<Rightarrow> byte list \<Rightarrow> size_t \<Rightarrow> byte list" where
  "block_at p buf offset = subrange buf (block_start p offset) (unat (block_size p))"

definition pack_1 :: "CodePacker \<Rightarrow> byte list \<Rightarrow> size_t \<Rightarrow> byte list \<Rightarrow> byte list option" where
  "pack_1 p flat_code offset block =
     (if holds_slot p block offset \<and> length flat_code = unat (code_size p)
      then Some (overwrite block (block_start p offset)
                   (pack_one p flat_code (slot_of p offset) (block_at p block offset)))
      else None)"

definition unpack_1 :: "CodePacker \<Rightarrow> byte list \<Rightarrow> size_t \<Rightarrow> byte list option" where
  "unpack_1 p block offset =
     (if holds_slot p block offset
      then Some (unpack_one p (block_at p block offset) (slot_of p offset))
      else None)"

section \<open>The contract\<close>

definition packer_ok :: "CodePacker \<Rightarrow> bool" where
  "packer_ok p \<longleftrightarrow>
     nvec p \<noteq> 0 \<and>
     (\<forall>c j B. length c = unat (code_size p) \<longrightarrow> j < unat (nvec p) \<longrightarrow>
        length B = unat (block_size p) \<longrightarrow>
          length (pack_one p c j B) = unat (block_size p) \<and>
          unpack_one p (pack_one p c j B) j = c \<and>
          (\<forall>j'. j' < unat (nvec p) \<longrightarrow> j' \<noteq> j \<longrightarrow>
             unpack_one p (pack_one p c j B) j' = unpack_one p B j')) \<and>
     (\<forall>j B. j < unat (nvec p) \<longrightarrow> length B = unat (block_size p) \<longrightarrow>
        length (unpack_one p B j) = unat (code_size p))"

lemma packer_okI:
  assumes "nvec p \<noteq> 0"
    and "\<And>c j B. length c = unat (code_size p) \<Longrightarrow> j < unat (nvec p) \<Longrightarrow>
           length B = unat (block_size p) \<Longrightarrow> length (pack_one p c j B) = unat (block_size p)"
    and "\<And>c j B. length c = unat (code_size p) \<Longrightarrow> j < unat (nvec p) \<Longrightarrow>
           length B = unat (block_size p) \<Longrightarrow> unpack_one p (pack_one p c j B) j = c"
    and "\<And>c j j' B. length c = unat (code_size p) \<Longrightarrow> j < unat (nvec p) \<Longrightarrow>
           length B = unat (block_size p) \<Longrightarrow> j' < unat (nvec p) \<Longrightarrow> j' \<noteq> j \<Longrightarrow>
           unpack_one p (pack_one p c j B) j' = unpack_one p B j'"
    and "\<And>j B. j < unat (nvec p) \<Longrightarrow> length B = unat (block_size p) \<Longrightarrow>
           length (unpack_one p B j) = unat (code_size p)"
  shows "packer_ok p"
  unfolding packer_ok_def using assms by blast

lemma packer_ok_nvec: "packer_ok p \<Longrightarrow> nvec p \<noteq> 0"
  by (simp add: packer_ok_def)

lemma packer_ok_length_pack:
  "packer_ok p \<Longrightarrow> length c = unat (code_size p) \<Longrightarrow> j < unat (nvec p) \<Longrightarrow>
   length B = unat (block_size p) \<Longrightarrow> length (pack_one p c j B) = unat (block_size p)"
  by (simp add: packer_ok_def)

lemma packer_ok_roundtrip:
  "packer_ok p \<Longrightarrow> length c = unat (code_size p) \<Longrightarrow> j < unat (nvec p) \<Longrightarrow>
   length B = unat (block_size p) \<Longrightarrow> unpack_one p (pack_one p c j B) j = c"
  by (simp add: packer_ok_def)

lemma packer_ok_other:
  "packer_ok p \<Longrightarrow> length c = unat (code_size p) \<Longrightarrow> j < unat (nvec p) \<Longrightarrow>
   length B = unat (block_size p) \<Longrightarrow> j' < unat (nvec p) \<Longrightarrow> j' \<noteq> j \<Longrightarrow>
   unpack_one p (pack_one p c j B) j' = unpack_one p B j'"
  by (simp add: packer_ok_def)

lemma packer_ok_length_unpack:
  "packer_ok p \<Longrightarrow> j < unat (nvec p) \<Longrightarrow> length B = unat (block_size p) \<Longrightarrow>
   length (unpack_one p B j) = unat (code_size p)"
  by (simp add: packer_ok_def)

lemmas packer_ok_laws =
  packer_ok_length_pack packer_ok_roundtrip packer_ok_other packer_ok_length_unpack

section \<open>Blocks and slots of a buffer\<close>

lemma slot_of_less: "nvec p \<noteq> 0 \<Longrightarrow> slot_of p offset < unat (nvec p)"
  by (simp add: slot_of_def unat_mod unat_gt_0)

lemma offset_block_slot:
  "unat offset = block_of p offset * unat (nvec p) + slot_of p offset"
  by (simp add: block_of_def slot_of_def unat_div unat_mod)

lemma block_slot_inject:
  "block_of p a = block_of p b \<Longrightarrow> slot_of p a = slot_of p b \<Longrightarrow> a = b"
  using offset_block_slot [of a p] offset_block_slot [of b p]
  by (simp add: word_unat_eq_iff)

lemma block_of_nat: "block_of p offset = unat offset div unat (nvec p)"
  by (simp add: block_of_def unat_div)

lemma slot_of_nat: "slot_of p offset = unat offset mod unat (nvec p)"
  by (simp add: slot_of_def unat_mod)

lemma holds_slot_range:
  "holds_slot p buf offset \<Longrightarrow> block_start p offset + unat (block_size p) \<le> length buf"
  by (simp add: holds_slot_def)

lemma length_block_at [simp]:
  "holds_slot p buf offset \<Longrightarrow> length (block_at p buf offset) = unat (block_size p)"
  by (simp add: block_at_def holds_slot_range)

lemma holds_slot_cong_length:
  "length buf' = length buf \<Longrightarrow> holds_slot p buf' offset = holds_slot p buf offset"
  by (simp add: holds_slot_def)

lemma holds_slot_mono:
  "holds_slot p buf offset \<Longrightarrow> length buf \<le> length buf' \<Longrightarrow> holds_slot p buf' offset"
  by (auto simp: holds_slot_def)

lemma block_start_mono:
  "unat offset' \<le> unat offset \<Longrightarrow> block_start p offset' \<le> block_start p offset"
  by (simp add: block_start_def block_of_nat div_le_mono mult_le_mono1)

lemma holds_slot_lower:
  "holds_slot p buf offset \<Longrightarrow> unat offset' \<le> unat offset \<Longrightarrow> holds_slot p buf offset'"
  using block_start_mono [of offset' offset p] by (auto simp: holds_slot_def)

text \<open>
  A buffer of \<open>ceil_div n nvec\<close> blocks holds every slot below \<open>n\<close>: the size
  the store keeps is the size the packer needs.
\<close>

lemma holds_slot_ceil_div:
  assumes "nvec p \<noteq> 0" and "unat offset < n"
    and "ceil_div n (unat (nvec p)) * unat (block_size p) \<le> length buf"
  shows "holds_slot p buf offset"
proof -
  have "0 < unat (nvec p)" using assms(1) by (simp add: unat_gt_0)
  then have "unat offset div unat (nvec p) * unat (block_size p) + unat (block_size p)
      \<le> ceil_div n (unat (nvec p)) * unat (block_size p)"
    using assms(2) by (rule ceil_div_slot_end)
  with assms(1,3) show ?thesis by (simp add: holds_slot_def block_start_def block_of_nat)
qed

lemma block_at_take [bil_range]:
  "holds_slot p (take m buf) offset \<Longrightarrow> block_at p (take m buf) offset = block_at p buf offset"
  using holds_slot_range [of p "take m buf" offset]
  by (simp add: block_at_def subrange_take)

lemma block_at_append [bil_range]:
  "holds_slot p buf offset \<Longrightarrow> block_at p (buf @ ys) offset = block_at p buf offset"
  using holds_slot_range [of p buf offset]
  by (simp add: block_at_def subrange_append_left)

text \<open>Writing one block of a buffer: that block reads back, every other block is kept.\<close>

lemma block_at_overwrite_same:
  assumes "holds_slot p buf offset" "length B = unat (block_size p)"
  shows "block_at p (overwrite buf (block_start p offset) B) offset = B"
  unfolding block_at_def
  using assms(2) holds_slot_range [OF assms(1)] by (rule subrange_overwrite_same_len)

lemma block_starts_disjoint:
  assumes "block_of p offset' \<noteq> block_of p offset"
  shows "block_start p offset' + unat (block_size p) \<le> block_start p offset
       \<or> block_start p offset + unat (block_size p) \<le> block_start p offset'"
  unfolding block_start_def using assms by (rule ranges_disjoint)

lemma block_at_overwrite_other:
  assumes "holds_slot p buf offset" "length B = unat (block_size p)"
    and "block_of p offset' \<noteq> block_of p offset"
  shows "block_at p (overwrite buf (block_start p offset) B) offset' = block_at p buf offset'"
proof -
  let ?bs = "unat (block_size p)"
  have range: "block_start p offset + ?bs \<le> length buf"
    by (rule holds_slot_range [OF assms(1)])
  from block_starts_disjoint [OF assms(3)] show ?thesis
  proof
    assume "block_start p offset' + ?bs \<le> block_start p offset"
    then show ?thesis
      unfolding block_at_def using range by (intro subrange_overwrite_before) simp_all
  next
    assume "block_start p offset + ?bs \<le> block_start p offset'"
    then show ?thesis
      unfolding block_at_def using range assms(2)
      by (intro subrange_overwrite_after) simp_all
  qed
qed

section \<open>The contract, lifted to a buffer of blocks\<close>

lemma pack_1_Some_iff:
  "pack_1 p c offset buf = Some buf' \<longleftrightarrow>
     holds_slot p buf offset \<and> length c = unat (code_size p) \<and>
     buf' = overwrite buf (block_start p offset)
              (pack_one p c (slot_of p offset) (block_at p buf offset))"
  by (auto simp: pack_1_def)

lemma pack_1_None_iff:
  "pack_1 p c offset buf = None \<longleftrightarrow>
     \<not> holds_slot p buf offset \<or> length c \<noteq> unat (code_size p)"
  by (auto simp: pack_1_def)

lemma unpack_1_Some_iff:
  "unpack_1 p buf offset = Some c \<longleftrightarrow>
     holds_slot p buf offset \<and> c = unpack_one p (block_at p buf offset) (slot_of p offset)"
  by (auto simp: unpack_1_def)

lemma unpack_1_None_iff: "unpack_1 p buf offset = None \<longleftrightarrow> \<not> holds_slot p buf offset"
  by (auto simp: unpack_1_def)

lemma length_packed_block:
  assumes "packer_ok p" "holds_slot p buf offset" "length c = unat (code_size p)"
  shows "length (pack_one p c (slot_of p offset) (block_at p buf offset)) = unat (block_size p)"
  using assms by (simp add: packer_ok_length_pack slot_of_less packer_ok_nvec)

lemma length_pack_1 [bil_len]:
  assumes "packer_ok p" "pack_1 p c offset buf = Some buf'"
  shows "length buf' = length buf"
proof -
  from assms(2) have h: "holds_slot p buf offset" and c: "length c = unat (code_size p)"
    and buf': "buf' = overwrite buf (block_start p offset)
                 (pack_one p c (slot_of p offset) (block_at p buf offset))"
    by (simp_all add: pack_1_Some_iff)
  show ?thesis
    unfolding buf' using holds_slot_range [OF h] length_packed_block [OF assms(1) h c]
    by (intro length_overwrite) simp
qed

lemma length_unpack_1 [bil_len]:
  assumes "packer_ok p" "unpack_1 p buf offset = Some c"
  shows "length c = unat (code_size p)"
  using assms
  by (auto simp: unpack_1_Some_iff packer_ok_length_unpack slot_of_less packer_ok_nvec)

text \<open>Unpacking the slot that was just packed gives the code back.\<close>

lemma unpack_1_pack_1_same:
  assumes "packer_ok p" "pack_1 p c offset buf = Some buf'"
  shows "unpack_1 p buf' offset = Some c"
proof -
  from assms(2) have h: "holds_slot p buf offset" and c: "length c = unat (code_size p)"
    and buf': "buf' = overwrite buf (block_start p offset)
                 (pack_one p c (slot_of p offset) (block_at p buf offset))"
    by (simp_all add: pack_1_Some_iff)
  let ?B = "block_at p buf offset" and ?j = "slot_of p offset"
  have j: "?j < unat (nvec p)" using assms(1) by (simp add: slot_of_less packer_ok_nvec)
  have h': "holds_slot p buf' offset"
    using length_pack_1 [OF assms] by (intro holds_slot_mono [OF h]) simp
  have "block_at p buf' offset = pack_one p c ?j ?B"
    unfolding buf' using h length_packed_block [OF assms(1) h c]
    by (rule block_at_overwrite_same)
  moreover have "unpack_one p (pack_one p c ?j ?B) ?j = c"
    using assms(1) c j h by (intro packer_ok_roundtrip) simp_all
  ultimately show ?thesis using h' by (simp add: unpack_1_def)
qed

text \<open>Packing one slot leaves every other slot of the buffer as it was.\<close>

lemma unpack_1_pack_1_other:
  assumes "packer_ok p" "pack_1 p c offset buf = Some buf'" "offset' \<noteq> offset"
  shows "unpack_1 p buf' offset' = unpack_1 p buf offset'"
proof -
  from assms(2) have h: "holds_slot p buf offset" and c: "length c = unat (code_size p)"
    and buf': "buf' = overwrite buf (block_start p offset)
                 (pack_one p c (slot_of p offset) (block_at p buf offset))"
    by (simp_all add: pack_1_Some_iff)
  let ?B = "block_at p buf offset" and ?j = "slot_of p offset" and ?j' = "slot_of p offset'"
  have nv: "nvec p \<noteq> 0" using assms(1) by (rule packer_ok_nvec)
  have len: "length (pack_one p c ?j ?B) = unat (block_size p)"
    by (rule length_packed_block [OF assms(1) h c])
  have hs: "holds_slot p buf' offset' = holds_slot p buf offset'"
    using length_pack_1 [OF assms(1,2)] by (rule holds_slot_cong_length)
  have "unpack_one p (block_at p buf' offset') ?j' = unpack_one p (block_at p buf offset') ?j'"
  proof (cases "block_of p offset' = block_of p offset")
    case True
    then have start: "block_start p offset' = block_start p offset"
      by (simp add: block_start_def)
    have "?j' \<noteq> ?j" using True assms(3) block_slot_inject by blast
    moreover have "block_at p buf' offset = pack_one p c ?j ?B"
      unfolding buf' using h len by (rule block_at_overwrite_same)
    then have "block_at p buf' offset' = pack_one p c ?j ?B"
      by (simp add: block_at_def start)
    moreover have "block_at p buf offset' = ?B"
      by (simp add: block_at_def start)
    moreover have "unpack_one p (pack_one p c ?j ?B) ?j' = unpack_one p ?B ?j'"
      using assms(1) c h nv \<open>?j' \<noteq> ?j\<close>
      by (intro packer_ok_other) (simp_all add: slot_of_less)
    ultimately show ?thesis by simp
  next
    case False
    have "block_at p buf' offset' = block_at p buf offset'"
      unfolding buf' using h len False by (rule block_at_overwrite_other)
    then show ?thesis by simp
  qed
  with hs show ?thesis by (simp add: unpack_1_def)
qed

lemma unpack_1_take:
  "holds_slot p (take m buf) offset \<Longrightarrow> unpack_1 p (take m buf) offset = unpack_1 p buf offset"
  using holds_slot_mono [of p "take m buf" offset buf]
  by (simp add: unpack_1_def block_at_take)

lemma unpack_1_append:
  "holds_slot p buf offset \<Longrightarrow> unpack_1 p (buf @ ys) offset = unpack_1 p buf offset"
  using holds_slot_mono [of p buf offset "buf @ ys"]
  by (simp add: unpack_1_def block_at_append)

section \<open>The row-major packer\<close>

definition flat_packer :: "size_t \<Rightarrow> size_t \<Rightarrow> CodePacker" where
  "flat_packer cs nv =
     \<lparr>code_size = cs, nvec = nv, block_size = nv * cs,
      pack_one = (\<lambda>c j B. overwrite B (j * unat cs) c),
      unpack_one = (\<lambda>B j. subrange B (j * unat cs) (unat cs))\<rparr>"

lemma flat_packer_sel [simp]:
  "code_size (flat_packer cs nv) = cs"
  "nvec (flat_packer cs nv) = nv"
  "block_size (flat_packer cs nv) = nv * cs"
  "pack_one (flat_packer cs nv) c j B = overwrite B (j * unat cs) c"
  "unpack_one (flat_packer cs nv) B j = subrange B (j * unat cs) (unat cs)"
  by (simp_all add: flat_packer_def)

lemma flat_packer_ok:
  assumes "nv \<noteq> 0" and "unat nv * unat cs < size_limit"
  shows "packer_ok (flat_packer cs nv)"
proof (rule packer_okI)
  have bs: "unat (nv * cs) = unat nv * unat cs"
    using assms(2) by (intro unat_times_no_wrap) simp
  show "nvec (flat_packer cs nv) \<noteq> 0" using assms(1) by simp
  fix c :: "byte list" and j and B :: "byte list"
  assume j: "j < unat (nvec (flat_packer cs nv))"
    and B: "length B = unat (block_size (flat_packer cs nv))"
  from j have range: "j * unat cs + unat cs \<le> unat nv * unat cs"
    by (simp add: mult_succ_le)
  from B have B': "length B = unat nv * unat cs" by (simp add: bs)
  show "length (unpack_one (flat_packer cs nv) B j) = unat (code_size (flat_packer cs nv))"
    using range B by (simp add: bs)
  assume c: "length c = unat (code_size (flat_packer cs nv))"
  show "length (pack_one (flat_packer cs nv) c j B) = unat (block_size (flat_packer cs nv))"
    using range B c by (simp add: bs)
  have "subrange (overwrite B (j * unat cs) c) (j * unat cs) (length c) = c"
    using range B c by (intro subrange_overwrite_same) (simp add: bs)
  then show "unpack_one (flat_packer cs nv) (pack_one (flat_packer cs nv) c j B) j = c"
    using c by simp
  fix j'
  assume "j' < unat (nvec (flat_packer cs nv))" and "j' \<noteq> j"
  then consider "j' * unat cs + unat cs \<le> j * unat cs" | "j * unat cs + length c \<le> j' * unat cs"
    using ranges_disjoint [of j' j "unat cs"] c by auto
  then show "unpack_one (flat_packer cs nv) (pack_one (flat_packer cs nv) c j B) j'
      = unpack_one (flat_packer cs nv) B j'"
  proof cases
    case 1
    moreover have "j * unat cs \<le> length B" using range B' by linarith
    ultimately have "subrange (overwrite B (j * unat cs) c) (j' * unat cs) (unat cs)
        = subrange B (j' * unat cs) (unat cs)"
      by (rule subrange_overwrite_before)
    then show ?thesis by simp
  next
    case 2
    moreover have "j * unat cs + length c \<le> length B" using range B' c by simp
    ultimately have "subrange (overwrite B (j * unat cs) c) (j' * unat cs) (unat cs)
        = subrange B (j' * unat cs) (unat cs)"
      by (rule subrange_overwrite_after)
    then show ?thesis by simp
  qed
qed

text \<open>The definitions that evaluate the adapter on a concrete buffer.\<close>

lemmas packer_eval =
  pack_1_def unpack_1_def holds_slot_def block_start_def block_of_def slot_of_def
  block_at_def subrange_def overwrite_def flat_packer_def

end
