(* ===== verification/Block_Inverted_Lists.thy ===== *)
theory Block_Inverted_Lists
  imports CodePacker
begin

text \<open>
  The store of \<^verbatim>\<open>src/faiss/invlists/BlockInvertedLists.cpp\<close>: the record
  \<open>BlockInvertedLists\<close> with the fields of the C++ object, its three constructors,
  and one definition per method, each a function from the state before the call to the
  outcome of the call.  \<open>FAISS_THROW_IF_NOT\<close> is \<open>Throws\<close> with the state reached so
  far; \<open>assert\<close>, \<open>operator[]\<close> outside a vector, \<open>memcpy\<close> outside a
  buffer, \<open>/\<close> and \<open>%\<close> by zero and a call through a null \<open>packer\<close> are
  \<open>Undefined\<close>.  All counters are \<open>size_t\<close> words and wrap as in the source.

  The lemmas of this theory are the equations of each method on each of its branches
  (\<open>_Returns\<close>, \<open>_Throws\<close>, \<open>_Undefined\<close>), the frame of each method (what
  it leaves unchanged) and the preservation of the size invariant \<open>sizes_ok\<close>.
\<close>

section \<open>State\<close>

definition INVALID_CODE_SIZE :: size_t where
  "INVALID_CODE_SIZE = - 1"

record BlockInvertedLists =
  nlist :: size_t
  code_size :: size_t
  n_per_block :: size_t
  block_size :: size_t
  packer :: "CodePacker option"
  ids :: "idx_t list list"
  codes :: "byte list list"
  allocated_codes :: "addr set"

type_synonym world = "BlockInvertedLists \<times> heap"

section \<open>Constructors\<close>

definition BlockInvertedLists_sized :: "size_t \<Rightarrow> size_t \<Rightarrow> size_t \<Rightarrow> BlockInvertedLists" where
  "BlockInvertedLists_sized nl npb bs =
     \<lparr>nlist = nl, code_size = INVALID_CODE_SIZE, n_per_block = npb, block_size = bs,
      packer = None,
      ids = vector_resize [] (unat nl) [],
      codes = vector_resize [] (unat nl) [],
      allocated_codes = {}\<rparr>"

definition BlockInvertedLists_packer ::
  "size_t \<Rightarrow> CodePacker option \<Rightarrow> (unit, BlockInvertedLists) outcome" where
  "BlockInvertedLists_packer nl pk =
     (case pk of
        None \<Rightarrow> Undefined NullDeref
      | Some p \<Rightarrow>
          Returns ()
            \<lparr>nlist = nl, code_size = INVALID_CODE_SIZE,
             n_per_block = nvec p, block_size = CodePacker.block_size p,
             packer = Some p,
             ids = vector_resize [] (unat nl) [],
             codes = vector_resize [] (unat nl) [],
             allocated_codes = {}\<rparr>)"

definition BlockInvertedLists_default :: BlockInvertedLists where
  "BlockInvertedLists_default =
     \<lparr>nlist = 0, code_size = INVALID_CODE_SIZE, n_per_block = 0, block_size = 0,
      packer = None, ids = [], codes = [], allocated_codes = {}\<rparr>"

section \<open>Appending entries\<close>

definition n_block_for :: "size_t \<Rightarrow> size_t \<Rightarrow> size_t" where
  "n_block_for sz npb = (sz + npb - 1) div npb"

definition add_entries_body ::
  "CodePacker \<Rightarrow> byte list \<Rightarrow> size_t \<Rightarrow> size_t \<Rightarrow> byte list \<Rightarrow> (unit, byte list) outcome" where
  "add_entries_body p code o' i cdv =
     (case unpack_1 p code i of
        None \<Rightarrow> Undefined OutOfBounds
      | Some buffer \<Rightarrow>
          (case pack_1 p buffer (i + o') cdv of
             None \<Rightarrow> Undefined OutOfBounds
           | Some cdv' \<Rightarrow> Returns () cdv'))"

definition set_list ::
  "BlockInvertedLists \<Rightarrow> size_t \<Rightarrow> idx_t list \<Rightarrow> byte list \<Rightarrow> BlockInvertedLists" where
  "set_list s list_no idv cdv =
     s\<lparr>ids := (ids s)[unat list_no := idv], codes := (codes s)[unat list_no := cdv]\<rparr>"

definition add_entries ::
  "(nat \<Rightarrow> byte) \<Rightarrow> BlockInvertedLists \<Rightarrow> size_t \<Rightarrow> size_t \<Rightarrow> idx_t list \<Rightarrow> byte list
     \<Rightarrow> (size_t, BlockInvertedLists) outcome" where
  "add_entries junk s list_no n_entry ids_in code =
     (if n_entry = 0 then Returns 0 s
      else if \<not> list_no < nlist s then Throws (FaissException ''list_no < nlist'') s
      else
        (case (at (ids s) list_no, at (codes s) list_no) of
           (Some idv, Some cdv) \<Rightarrow>
             (let o' = of_nat (length idv);
                  idv1 = vector_resize idv (unat (o' + n_entry)) 0
              in case memcpy idv1 (unat o') ids_in (unat (8 * n_entry) div 8) of
                   None \<Rightarrow> Undefined OutOfBounds
                 | Some idv2 \<Rightarrow>
                     if n_per_block s = 0 then Undefined DivByZero
                     else
                       (let n_block = n_block_for (o' + n_entry) (n_per_block s);
                            cdv1 = aligned_resize junk cdv (unat (n_block * block_size s))
                        in if block_size s = 0 then Undefined DivByZero
                           else if o' mod block_size s = 0 then
                             (case memcpy cdv1 (unat (o' * code_size s)) code
                                     (unat (n_block * block_size s)) of
                                None \<Rightarrow> Undefined OutOfBounds
                              | Some cdv2 \<Rightarrow> Returns o' (set_list s list_no idv2 cdv2))
                           else
                             (case packer s of
                                None \<Rightarrow>
                                  Throws (FaissException ''missing code packer'')
                                    (set_list s list_no idv2 cdv1)
                              | Some p \<Rightarrow>
                                  (case for_loop 0 n_entry (add_entries_body p code o') cdv1 of
                                     Returns _ cdv2 \<Rightarrow> Returns o' (set_list s list_no idv2 cdv2)
                                   | Throws e _ \<Rightarrow> Throws e (set_list s list_no idv2 cdv1)
                                   | Undefined u \<Rightarrow> Undefined u))))
         | _ \<Rightarrow> Undefined OutOfBounds))"

section \<open>Accessors\<close>

definition get_alloc_codes :: "BlockInvertedLists \<Rightarrow> addr set" where
  "get_alloc_codes s = allocated_codes s"

definition list_size :: "BlockInvertedLists \<Rightarrow> size_t \<Rightarrow> (size_t, BlockInvertedLists) outcome" where
  "list_size s list_no =
     (if \<not> list_no < nlist s then Undefined AssertFailed
      else case at (ids s) list_no of
             None \<Rightarrow> Undefined OutOfBounds
           | Some idv \<Rightarrow> Returns (of_nat (length idv)) s)"

definition get_codes :: "BlockInvertedLists \<Rightarrow> size_t \<Rightarrow> (byte list, BlockInvertedLists) outcome" where
  "get_codes s list_no =
     (if \<not> list_no < nlist s then Undefined AssertFailed
      else case at (codes s) list_no of
             None \<Rightarrow> Undefined OutOfBounds
           | Some cdv \<Rightarrow> Returns cdv s)"

definition get_ids :: "BlockInvertedLists \<Rightarrow> size_t \<Rightarrow> (idx_t list, BlockInvertedLists) outcome" where
  "get_ids s list_no =
     (if \<not> list_no < nlist s then Undefined AssertFailed
      else case at (ids s) list_no of
             None \<Rightarrow> Undefined OutOfBounds
           | Some idv \<Rightarrow> Returns idv s)"

section \<open>Resizing a list\<close>

definition resize ::
  "(nat \<Rightarrow> byte) \<Rightarrow> BlockInvertedLists \<Rightarrow> size_t \<Rightarrow> size_t \<Rightarrow> (unit, BlockInvertedLists) outcome" where
  "resize junk s list_no new_size =
     (case (at (ids s) list_no, at (codes s) list_no) of
        (Some idv, Some cdv) \<Rightarrow>
          (let idv1 = vector_resize idv (unat new_size) 0;
               prev_nbytes = of_nat (length cdv)
           in if n_per_block s = 0 then Undefined DivByZero
              else
                (let n_block = n_block_for new_size (n_per_block s);
                     new_nbytes = n_block * block_size s;
                     cdv1 = aligned_resize junk cdv (unat new_nbytes)
                 in if prev_nbytes < new_nbytes then
                      (case memset cdv1 (unat prev_nbytes) 0 (unat (new_nbytes - prev_nbytes)) of
                         None \<Rightarrow> Undefined OutOfBounds
                       | Some cdv2 \<Rightarrow> Returns () (set_list s list_no idv1 cdv2))
                    else Returns () (set_list s list_no idv1 cdv1)))
      | _ \<Rightarrow> Undefined OutOfBounds)"

section \<open>Overwriting entries\<close>

definition update_entries_body ::
  "size_t \<Rightarrow> size_t \<Rightarrow> idx_t list \<Rightarrow> byte list \<Rightarrow> size_t \<Rightarrow> BlockInvertedLists
     \<Rightarrow> (unit, BlockInvertedLists) outcome" where
  "update_entries_body list_no offset ids_in code i s =
     (case (at (ids s) list_no, at ids_in i) of
        (Some idv, Some v) \<Rightarrow>
          if \<not> unat (offset + i) < length idv then Undefined OutOfBounds
          else
            (case packer s of
               None \<Rightarrow> Undefined NullDeref
             | Some p \<Rightarrow>
                 (let cs = unat (CodePacker.code_size p);
                      start = unat (i * CodePacker.code_size p)
                  in if \<not> start + cs \<le> length code then Undefined OutOfBounds
                     else
                       (case at (codes s) list_no of
                          None \<Rightarrow> Undefined OutOfBounds
                        | Some cdv \<Rightarrow>
                            (case pack_1 p (subrange code start cs) (offset + i) cdv of
                               None \<Rightarrow> Undefined OutOfBounds
                             | Some cdv' \<Rightarrow>
                                 Returns ()
                                   (set_list s list_no (idv[unat (offset + i) := v]) cdv')))))
      | _ \<Rightarrow> Undefined OutOfBounds)"

definition update_entries ::
  "BlockInvertedLists \<Rightarrow> size_t \<Rightarrow> size_t \<Rightarrow> size_t \<Rightarrow> idx_t list \<Rightarrow> byte list
     \<Rightarrow> (unit, BlockInvertedLists) outcome" where
  "update_entries s list_no offset n_entry ids_in code =
     (if \<not> list_no < nlist s then Throws (FaissException ''list_no < nlist'') s
      else
        (case at (ids s) list_no of
           None \<Rightarrow> Undefined OutOfBounds
         | Some idv \<Rightarrow>
             if \<not> offset + n_entry \<le> of_nat (length idv)
             then Throws (FaissException ''(offset + n_entry) <= ids[list_no].size()'') s
             else for_loop 0 n_entry (update_entries_body list_no offset ids_in code) s))"

section \<open>Extracting and releasing one code\<close>

definition get_single_code ::
  "addr \<Rightarrow> world \<Rightarrow> size_t \<Rightarrow> size_t \<Rightarrow> (addr, world) outcome" where
  "get_single_code a w list_no offset =
     (case w of (s, h) \<Rightarrow>
        if \<not> list_no < nlist s then Throws (FaissException ''list_no < nlist'') w
        else
          (case at (ids s) list_no of
             None \<Rightarrow> Undefined OutOfBounds
           | Some idv \<Rightarrow>
               if \<not> offset < of_nat (length idv)
               then Throws (FaissException ''offset < ids[list_no].size()'') w
               else
                 (case packer s of
                    None \<Rightarrow> Undefined NullDeref
                  | Some p \<Rightarrow>
                      (case at (codes s) list_no of
                         None \<Rightarrow> Undefined OutOfBounds
                       | Some cdv \<Rightarrow>
                           (case unpack_1 p cdv offset of
                              None \<Rightarrow> Undefined OutOfBounds
                            | Some c \<Rightarrow>
                                Returns a
                                  (s\<lparr>allocated_codes := insert a (allocated_codes s)\<rparr>,
                                   new_array h a c))))))"

definition release_codes :: "world \<Rightarrow> size_t \<Rightarrow> addr \<Rightarrow> (unit, world) outcome" where
  "release_codes w list_no ptr =
     (case w of (s, h) \<Rightarrow>
        if \<not> list_no < nlist s then Throws (FaissException ''list_no < nlist'') w
        else if ptr \<in> get_alloc_codes s then
          (case delete_array h ptr of
             None \<Rightarrow> Undefined InvalidFree
           | Some h' \<Rightarrow> Returns () (s\<lparr>allocated_codes := allocated_codes s - {ptr}\<rparr>, h'))
        else Returns () w)"

definition destroy :: "world \<Rightarrow> heap" where
  "destroy w = snd w"

section \<open>Fields of a constructed store\<close>

lemma sized_sel [simp]:
  "nlist (BlockInvertedLists_sized nl npb bs) = nl"
  "code_size (BlockInvertedLists_sized nl npb bs) = INVALID_CODE_SIZE"
  "n_per_block (BlockInvertedLists_sized nl npb bs) = npb"
  "block_size (BlockInvertedLists_sized nl npb bs) = bs"
  "packer (BlockInvertedLists_sized nl npb bs) = None"
  "allocated_codes (BlockInvertedLists_sized nl npb bs) = {}"
  "ids (BlockInvertedLists_sized nl npb bs) = replicate (unat nl) []"
  "codes (BlockInvertedLists_sized nl npb bs) = replicate (unat nl) []"
  by (simp_all add: BlockInvertedLists_sized_def vector_resize_def)

lemma packer_ctor_Returns_iff:
  "BlockInvertedLists_packer nl pk = Returns u s \<longleftrightarrow>
     (\<exists>p. pk = Some p \<and>
        s = (BlockInvertedLists_sized nl (nvec p) (CodePacker.block_size p))\<lparr>packer := Some p\<rparr>)"
  by (auto simp: BlockInvertedLists_packer_def BlockInvertedLists_sized_def split: option.splits)

section \<open>What \<open>set_list\<close> changes\<close>

lemma set_list_frame [simp]:
  "nlist (set_list s l idv cdv) = nlist s"
  "code_size (set_list s l idv cdv) = code_size s"
  "n_per_block (set_list s l idv cdv) = n_per_block s"
  "block_size (set_list s l idv cdv) = block_size s"
  "packer (set_list s l idv cdv) = packer s"
  "allocated_codes (set_list s l idv cdv) = allocated_codes s"
  "length (ids (set_list s l idv cdv)) = length (ids s)"
  "length (codes (set_list s l idv cdv)) = length (codes s)"
  by (simp_all add: set_list_def)

lemma at_set_list_same:
  "at (ids s) l = Some x \<Longrightarrow> at (ids (set_list s l idv cdv)) l = Some idv"
  "at (codes s) l = Some y \<Longrightarrow> at (codes (set_list s l idv cdv)) l = Some cdv"
  by (simp_all add: set_list_def at_def split: if_splits)

lemma at_set_list_other:
  "l' \<noteq> l \<Longrightarrow> at (ids (set_list s l idv cdv)) l' = at (ids s) l'"
  "l' \<noteq> l \<Longrightarrow> at (codes (set_list s l idv cdv)) l' = at (codes s) l'"
  by (simp_all add: set_list_def at_def word_unat_eq_iff)

lemma set_list_set_list [simp]:
  "set_list (set_list s l idv cdv) l idv' cdv' = set_list s l idv' cdv'"
  by (simp add: set_list_def)

lemma set_list_same:
  "at (ids s) l = Some idv \<Longrightarrow> at (codes s) l = Some cdv \<Longrightarrow> set_list s l idv cdv = s"
  by (auto simp: set_list_def at_def split: if_splits)

section \<open>The size invariant\<close>

text \<open>
  Each list holds fewer than \<open>2^64\<close> ids, and its packed buffer has the length the
  source computes for that many ids: the number of blocks, rounded up, times the block
  size, in \<open>size_t\<close> arithmetic.  \<open>sizes_ok_nat\<close> reads it in \<open>nat\<close> where
  nothing wraps.
\<close>

definition list_sizes_ok :: "size_t \<Rightarrow> size_t \<Rightarrow> idx_t list \<Rightarrow> byte list \<Rightarrow> bool" where
  "list_sizes_ok npb bs idv cdv \<longleftrightarrow>
     length idv < size_limit \<and>
     length cdv = unat (n_block_for (of_nat (length idv)) npb * bs)"

definition sizes_ok :: "BlockInvertedLists \<Rightarrow> bool" where
  "sizes_ok s \<longleftrightarrow>
     length (ids s) = unat (nlist s) \<and> length (codes s) = unat (nlist s) \<and>
     list_all2 (list_sizes_ok (n_per_block s) (block_size s)) (ids s) (codes s)"

definition packer_wf :: "BlockInvertedLists \<Rightarrow> bool" where
  "packer_wf s \<longleftrightarrow> (case packer s of None \<Rightarrow> True | Some p \<Rightarrow> packer_ok p)"

lemma packer_wf_Some: "packer_wf s \<Longrightarrow> packer s = Some p \<Longrightarrow> packer_ok p"
  by (simp add: packer_wf_def)

lemma packer_wf_set_list [simp]: "packer_wf (set_list s l idv cdv) = packer_wf s"
  by (simp add: packer_wf_def)

text \<open>The invariant of the store: the sizes, a packer that keeps its contract, and
  a registry \<open>A\<close> that the operations on the lists do not touch.\<close>

definition store_inv :: "addr set \<Rightarrow> BlockInvertedLists \<Rightarrow> bool" where
  "store_inv A s \<longleftrightarrow> sizes_ok s \<and> packer_wf s \<and> allocated_codes s = A"

lemma store_invD:
  "store_inv A s \<Longrightarrow> sizes_ok s" "store_inv A s \<Longrightarrow> packer_wf s"
  "store_inv A s \<Longrightarrow> allocated_codes s = A"
  by (simp_all add: store_inv_def)

lemma n_block_for_0 [simp]: "n_block_for 0 npb = 0"
proof (cases "npb = 0")
  case True
  then show ?thesis by (simp add: n_block_for_def)
next
  case False
  then have "unat (npb - 1) < unat npb" by (simp add: unat_minus_one unat_gt_0)
  then have "unat ((npb - 1) div npb) = 0" by (simp add: unat_div)
  then show ?thesis by (simp add: n_block_for_def unat_eq_0)
qed

lemma list_sizes_okI:
  "length idv = unat n \<Longrightarrow> length cdv = unat (n_block_for n npb * bs) \<Longrightarrow>
   list_sizes_ok npb bs idv cdv"
  using unat_size_t_bound [of n] by (simp add: list_sizes_ok_def)

lemma list_sizes_ok_cong_length:
  "list_sizes_ok npb bs idv cdv \<Longrightarrow> length idv' = length idv \<Longrightarrow>
   length cdv' = length cdv \<Longrightarrow> list_sizes_ok npb bs idv' cdv'"
  by (simp add: list_sizes_ok_def)

lemma list_sizes_ok_empty [simp]: "list_sizes_ok npb bs [] []"
  by (simp add: list_sizes_ok_def)

lemma sizes_ok_set_list:
  "sizes_ok s \<Longrightarrow> list_sizes_ok (n_per_block s) (block_size s) idv cdv \<Longrightarrow>
   sizes_ok (set_list s l idv cdv)"
  by (simp add: sizes_ok_def set_list_def list_all2_update_cong)

lemma sizes_ok_at:
  assumes "sizes_ok s" "list_no < nlist s"
  obtains idv cdv where "at (ids s) list_no = Some idv" "at (codes s) list_no = Some cdv"
    "list_sizes_ok (n_per_block s) (block_size s) idv cdv"
proof
  from assms have l: "unat list_no < length (ids s)" "unat list_no < length (codes s)"
    by (simp_all add: sizes_ok_def word_less_nat_alt)
  then show "at (ids s) list_no = Some (ids s ! unat list_no)"
    "at (codes s) list_no = Some (codes s ! unat list_no)"
    by (simp_all add: at_def)
  from assms(1) l show "list_sizes_ok (n_per_block s) (block_size s)
      (ids s ! unat list_no) (codes s ! unat list_no)"
    by (simp add: sizes_ok_def list_all2_nthD)
qed

lemma sizes_ok_packer_update [simp]: "sizes_ok (s\<lparr>packer := x\<rparr>) = sizes_ok s"
  by (simp add: sizes_ok_def)

lemma sizes_ok_sized [simp]: "sizes_ok (BlockInvertedLists_sized nl npb bs)"
  by (simp add: sizes_ok_def list_all2_conv_all_nth)

lemma sizes_ok_default [simp]: "sizes_ok BlockInvertedLists_default"
  by (simp add: sizes_ok_def BlockInvertedLists_default_def)

lemma sizes_ok_packer:
  "BlockInvertedLists_packer nl pk = Returns u s \<Longrightarrow> sizes_ok s"
  by (auto simp: sizes_ok_def BlockInvertedLists_packer_def vector_resize_def
      list_all2_conv_all_nth split: option.splits)

lemma sized_example_ok:
  "sizes_ok (set_list (BlockInvertedLists_sized 2 4 32) 0 [10, 11, 12] (replicate 32 7))"
  by (intro sizes_ok_set_list sizes_ok_sized)
     (simp add: list_sizes_ok_def n_block_for_def)

text \<open>The invariant read in \<open>nat\<close>: the buffer is a whole number of blocks that
  covers the ids, where the \<open>size_t\<close> computation does not wrap.\<close>

lemma list_sizes_ok_nat:
  assumes "list_sizes_ok npb bs idv cdv" and "npb \<noteq> 0"
    and "length idv + unat npb \<le> size_limit"
    and "ceil_div (length idv) (unat npb) * unat bs < size_limit"
  shows "length cdv = ceil_div (length idv) (unat npb) * unat bs"
proof -
  from assms(1) have len: "length idv < size_limit"
    and cdv: "length cdv = unat (n_block_for (of_nat (length idv)) npb * bs)"
    by (simp_all add: list_sizes_ok_def)
  have n: "unat (of_nat (length idv) :: size_t) = length idv"
    using len by (rule unat_of_nat_len)
  have "unat (n_block_for (of_nat (length idv)) npb) = ceil_div (length idv) (unat npb)"
    unfolding n_block_for_def using assms(2,3) by (subst unat_ceil_div) (simp_all add: n)
  moreover from this assms(4)
  have "unat (n_block_for (of_nat (length idv)) npb * bs)
      = unat (n_block_for (of_nat (length idv)) npb) * unat bs"
    by (intro unat_times_no_wrap) simp
  ultimately show ?thesis by (simp add: cdv)
qed

text \<open>
  \<open>list_fits npb bs n\<close>: the buffer size of a list of \<open>n\<close> entries is computed
  without wrapping.  Under it the \<open>size_t\<close> expressions of the source read as the
  arithmetic they are meant to be.
\<close>

definition list_fits :: "size_t \<Rightarrow> size_t \<Rightarrow> nat \<Rightarrow> bool" where
  "list_fits npb bs n \<longleftrightarrow>
     npb \<noteq> 0 \<and> n + unat npb \<le> size_limit \<and> ceil_div n (unat npb) * unat bs < size_limit"

lemma list_fits_mono:
  assumes "list_fits npb bs n" "m \<le> n"
  shows "list_fits npb bs m"
proof -
  have "ceil_div m (unat npb) * unat bs \<le> ceil_div n (unat npb) * unat bs"
    using assms(2) by (intro mult_le_mono1 ceil_div_mono)
  with assms show ?thesis unfolding list_fits_def by linarith
qed

lemma list_fits_less: "list_fits npb bs n \<Longrightarrow> n < size_limit"
  unfolding list_fits_def using unat_gt_0 [of npb] by linarith

lemma buffer_size_nat:
  assumes "list_fits npb bs (unat sz)"
  shows "unat (n_block_for sz npb * bs) = ceil_div (unat sz) (unat npb) * unat bs"
proof -
  from assms have "unat (n_block_for sz npb) = ceil_div (unat sz) (unat npb)"
    unfolding n_block_for_def list_fits_def by (intro unat_ceil_div) simp_all
  moreover from this assms
  have "unat (n_block_for sz npb * bs) = unat (n_block_for sz npb) * unat bs"
    by (intro unat_times_no_wrap) (simp add: list_fits_def)
  ultimately show ?thesis by simp
qed

lemma list_sizes_ok_fits:
  assumes "list_sizes_ok npb bs idv cdv" and "list_fits npb bs (length idv)"
  shows "length cdv = ceil_div (length idv) (unat npb) * unat bs"
  using assms by (intro list_sizes_ok_nat) (simp_all add: list_fits_def)

lemma sizes_ok_at_Some:
  assumes "sizes_ok s" "at (ids s) list_no = Some idv" "at (codes s) list_no = Some cdv"
  shows "list_sizes_ok (n_per_block s) (block_size s) idv cdv"
  using assms by (auto simp: sizes_ok_def at_Some_iff list_all2_nthD)

lemma sizes_ok_lengths:
  assumes "sizes_ok s"
  shows "\<forall>idv \<in> set (ids s). length idv < size_limit"
    and "\<forall>cdv \<in> set (codes s). length cdv < size_limit"
proof -
  from assms have all: "list_all2 (list_sizes_ok (n_per_block s) (block_size s)) (ids s) (codes s)"
    by (simp add: sizes_ok_def)
  show "\<forall>idv \<in> set (ids s). length idv < size_limit"
    using all by (auto simp: list_all2_conv_all_nth in_set_conv_nth list_sizes_ok_def)
  show "\<forall>cdv \<in> set (codes s). length cdv < size_limit"
    using all unat_size_t_bound
    by (auto simp: list_all2_conv_all_nth in_set_conv_nth list_sizes_ok_def)
qed

lemma sizes_ok_nth:
  assumes "sizes_ok s" "list_no < nlist s"
  shows "at (ids s) list_no = Some (ids s ! unat list_no)"
    and "at (codes s) list_no = Some (codes s ! unat list_no)"
  using assms by (simp_all add: sizes_ok_def at_def word_less_nat_alt)

section \<open>The packing loop of \<open>add_entries\<close>\<close>

lemma add_entries_body_Returns_iff:
  "add_entries_body p code o' i cdv = Returns u cdv' \<longleftrightarrow>
     (\<exists>buffer. unpack_1 p code i = Some buffer \<and> pack_1 p buffer (i + o') cdv = Some cdv')"
  by (auto simp: add_entries_body_def split: option.splits)

lemma add_entries_body_no_throw [simp]: "add_entries_body p code o' i cdv \<noteq> Throws e t"
  by (simp add: add_entries_body_def split: option.splits)

lemma add_entries_body_length:
  "packer_ok p \<Longrightarrow> state_after (add_entries_body p code o' i cdv) = Some cdv' \<Longrightarrow>
   length cdv' = length cdv"
  by (auto simp: state_after_Some_iff add_entries_body_Returns_iff dest: length_pack_1)

lemma add_loop_length:
  assumes "packer_ok p"
    and "for_loop i n (add_entries_body p code o') cdv = Returns u cdv'"
  shows "length cdv' = length cdv"
proof (rule for_loop_state_invariant [where P = "\<lambda>c. length c = length cdv"])
  show "state_after (for_loop i n (add_entries_body p code o') cdv) = Some cdv'"
    using assms(2) by simp
  show "length cdv = length cdv" ..
  show "length t' = length cdv"
    if "length t = length cdv" "state_after (add_entries_body p code o' j t) = Some t'" for j t t'
    using add_entries_body_length [OF assms(1) that(2)] that(1) by simp
qed

lemma add_loop_no_throw [simp]: "for_loop i n (add_entries_body p code o') cdv \<noteq> Throws e t"
  by (rule for_loop_no_throw) simp

section \<open>\<open>add_entries\<close>: the states it can leave\<close>

lemma add_entries_zero [simp]: "add_entries junk s list_no 0 ids_in code = Returns 0 s"
  by (simp add: add_entries_def)

lemma add_entries_bad_list:
  "n_entry \<noteq> 0 \<Longrightarrow> \<not> list_no < nlist s \<Longrightarrow>
   add_entries junk s list_no n_entry ids_in code = Throws (FaissException ''list_no < nlist'') s"
  by (simp add: add_entries_def)

lemma add_entries_state_after:
  assumes "state_after (add_entries junk s list_no n_entry ids_in code) = Some s'"
    and "packer_wf s"
  obtains (unchanged) "s' = s"
  | (grown) idv cdv idv2 cdv2 where
      "at (ids s) list_no = Some idv" "at (codes s) list_no = Some cdv"
      "length idv2 = unat (of_nat (length idv) + n_entry)"
      "length cdv2 =
         unat (n_block_for (of_nat (length idv) + n_entry) (n_per_block s) * block_size s)"
      "s' = set_list s list_no idv2 cdv2"
proof (cases "n_entry = 0 \<or> \<not> list_no < nlist s")
  case True
  with assms(1) have "s' = s"
    by (cases "n_entry = 0") (auto simp: add_entries_bad_list)
  then show ?thesis by (rule unchanged)
next
  case False
  with assms(1) obtain idv cdv idv2 where
    idv: "at (ids s) list_no = Some idv" and cdv: "at (codes s) list_no = Some cdv"
    and idv2: "memcpy (vector_resize idv (unat (of_nat (length idv) + n_entry)) 0)
                 (unat (of_nat (length idv) :: size_t)) ids_in (unat (8 * n_entry) div 8)
               = Some idv2"
    by (auto simp: add_entries_def Let_def split: option.splits)
  let ?o = "of_nat (length idv) :: size_t"
  let ?n = "unat (n_block_for (?o + n_entry) (n_per_block s) * block_size s)"
  let ?cdv1 = "aligned_resize junk cdv ?n"
  have len2: "length idv2 = unat (?o + n_entry)"
    using length_memcpy [OF idv2] by simp
  from assms(1) False idv cdv idv2 consider
      (aligned) cdv2 where "memcpy ?cdv1 (unat (?o * code_size s)) code ?n = Some cdv2"
        "s' = set_list s list_no idv2 cdv2"
    | (missing) "s' = set_list s list_no idv2 ?cdv1"
    | (packed) p u cdv2 where "packer s = Some p"
        "for_loop 0 n_entry (add_entries_body p code ?o) ?cdv1 = Returns u cdv2"
        "s' = set_list s list_no idv2 cdv2"
    by (auto simp: add_entries_def Let_def split: option.splits if_splits outcome.splits)
  then show ?thesis
  proof cases
    case aligned
    from length_memcpy [OF aligned(1)] have "length cdv2 = ?n" by simp
    then show ?thesis by (rule grown [OF idv cdv len2 _ aligned(2)])
  next
    case missing
    have "length ?cdv1 = ?n" by simp
    then show ?thesis by (rule grown [OF idv cdv len2 _ missing])
  next
    case packed
    from assms(2) packed(1) have "packer_ok p" by (rule packer_wf_Some)
    from add_loop_length [OF this packed(2)] have "length cdv2 = ?n" by simp
    then show ?thesis by (rule grown [OF idv cdv len2 _ packed(3)])
  qed
qed

section \<open>\<open>add_entries\<close> keeps the size invariant\<close>

lemma store_inv_set_list:
  "store_inv A s \<Longrightarrow> list_sizes_ok (n_per_block s) (block_size s) idv cdv \<Longrightarrow>
   store_inv A (set_list s l idv cdv)"
  by (simp add: store_inv_def sizes_ok_set_list)

lemma add_entries_store_inv:
  assumes "store_inv A s"
    and "state_after (add_entries junk s list_no n_entry ids_in code) = Some s'"
  shows "store_inv A s'"
  using assms(2) store_invD(2) [OF assms(1)]
proof (cases rule: add_entries_state_after)
  case unchanged
  with assms(1) show ?thesis by simp
next
  case (grown idv cdv idv2 cdv2)
  from grown(3,4) have "list_sizes_ok (n_per_block s) (block_size s) idv2 cdv2"
    by (rule list_sizes_okI)
  with assms(1) show ?thesis unfolding grown(5) by (rule store_inv_set_list)
qed

text \<open>
  C1.  Whatever state a call of \<open>add_entries\<close> leaves, by returning or by throwing,
  satisfies the size invariant again: the ids and the packed buffer of every list have
  the lengths the block arithmetic of the source gives, for every input and for every
  content of the freshly allocated bytes.
\<close>

theorem add_entries_sizes_ok:
  assumes "sizes_ok s" and "packer_wf s"
    and "state_after (add_entries junk s list_no n_entry ids_in code) = Some s'"
  shows "sizes_ok s'"
  using assms(3,2)
proof (cases rule: add_entries_state_after)
  case unchanged
  with assms(1) show ?thesis by simp
next
  case (grown idv cdv idv2 cdv2)
  from grown(3,4) have "list_sizes_ok (n_per_block s) (block_size s) idv2 cdv2"
    by (rule list_sizes_okI)
  with assms(1) show ?thesis unfolding grown(5) by (rule sizes_ok_set_list)
qed

lemma add_entries_first_example:
  "add_entries junk (BlockInvertedLists_sized 2 4 32) 0 3 [10, 11, 12] (replicate 32 7)
     = Returns 0
         (set_list (BlockInvertedLists_sized 2 4 32) 0 [10, 11, 12] (replicate 32 7))"
  by (simp add: add_entries_def BlockInvertedLists_sized_def INVALID_CODE_SIZE_def
      n_block_for_def bil_defs overwrite_def set_list_def)

theorem add_entries_sizes_ok_witness:
  "sizes_ok (set_list (BlockInvertedLists_sized 2 4 32) 0 [10, 11, 12] (replicate 32 7))"
proof -
  have "packer_wf (BlockInvertedLists_sized 2 4 32)"
    by (simp add: packer_wf_def)
  then show ?thesis
    using add_entries_sizes_ok [of "BlockInvertedLists_sized 2 4 32" "\<lambda>_. 0" 0 3
        "[10, 11, 12]" "replicate 32 7"]
    by (simp add: add_entries_first_example)
qed

end
