(* ===== verification/BIL_Resize.thy ===== *)
theory BIL_Resize
  imports Block_Inverted_Lists
begin

text \<open>
  \<^verbatim>\<open>BlockInvertedLists::resize\<close> (lines 89-101 of the source): what it returns on a
  store that satisfies the size invariant, that it never touches memory outside its
  buffers there, that the bytes it exposes are zero whatever the allocator left, the
  two ways it is undefined (a list number the source never checks, zero vectors per
  block), and the law that growing a list and shrinking it back restores the store.
\<close>

section \<open>The value \<open>resize\<close> returns\<close>

lemma size_t_of_length:
  "length xs = unat (n :: size_t) \<Longrightarrow> (of_nat (length xs) :: size_t) = n"
  by simp

lemma resized_codes:
  fixes new_nbytes :: size_t
  assumes "length cdv = unat prev"
  shows "(if prev < new_nbytes
          then memset (aligned_resize junk cdv (unat new_nbytes)) (unat prev) 0
                 (unat (new_nbytes - prev))
          else Some (aligned_resize junk cdv (unat new_nbytes)))
         = Some (vector_resize cdv (unat new_nbytes) 0)"
proof (cases "prev < new_nbytes")
  case True
  then have le: "length cdv \<le> unat new_nbytes"
    using assms by (simp add: word_less_nat_alt)
  from True have "unat (new_nbytes - prev) = unat new_nbytes - length cdv"
    using assms by (simp add: unat_sub word_le_nat_alt word_less_nat_alt)
  with True le show ?thesis
    using memset_aligned_resize_grow [of cdv "unat new_nbytes" junk] assms
    by (simp add: vector_resize_grow)
next
  case False
  then have "unat new_nbytes \<le> length cdv"
    using assms by (simp add: word_less_nat_alt)
  with False show ?thesis
    by (simp add: aligned_resize_shrink vector_resize_shrink)
qed

lemma resize_at:
  assumes "at (ids s) list_no = Some idv" "at (codes s) list_no = Some cdv"
    and "length cdv = unat (prev :: size_t)" and "n_per_block s \<noteq> 0"
  shows "resize junk s list_no new_size =
     Returns ()
       (set_list s list_no (vector_resize idv (unat new_size) 0)
          (vector_resize cdv
             (unat (n_block_for new_size (n_per_block s) * block_size s)) 0))"
proof -
  let ?new = "n_block_for new_size (n_per_block s) * block_size s"
  have prev: "(of_nat (length cdv) :: size_t) = prev"
    using assms(3) by (rule size_t_of_length)
  from resized_codes [OF assms(3), of ?new junk] show ?thesis
    by (cases "prev < ?new")
       (simp_all add: resize_def assms(1,2,4) prev Let_def)
qed

text \<open>
  C8.  On a store that satisfies the size invariant, \<open>resize\<close> of an existing list
  returns; the ids are truncated or extended with zero ids, and the packed buffer is
  truncated or extended with zero bytes to the block-aligned length of the new size.
  The result does not depend on the bytes the allocator left in the new memory.
\<close>

theorem resize_Returns:
  assumes "sizes_ok s" and "list_no < nlist s" and "n_per_block s \<noteq> 0"
  shows "resize junk s list_no new_size =
     Returns ()
       (set_list s list_no
          (vector_resize (ids s ! unat list_no) (unat new_size) 0)
          (vector_resize (codes s ! unat list_no)
             (unat (n_block_for new_size (n_per_block s) * block_size s)) 0))"
  using assms(1,2)
proof (rule sizes_ok_at)
  fix idv cdv
  assume at: "at (ids s) list_no = Some idv" "at (codes s) list_no = Some cdv"
    and ok: "list_sizes_ok (n_per_block s) (block_size s) idv cdv"
  from at have nth: "ids s ! unat list_no = idv" "codes s ! unat list_no = cdv"
    by (simp_all add: at_Some_iff)
  from ok have "length cdv
      = unat (n_block_for (of_nat (length idv)) (n_per_block s) * block_size s)"
    by (simp add: list_sizes_ok_def)
  with at show ?thesis unfolding nth using assms(3) by (rule resize_at)
qed

lemma sized_example_sel:
  "ids (set_list (BlockInvertedLists_sized 2 4 32) 0 idv cdv) ! 0 = idv"
  "codes (set_list (BlockInvertedLists_sized 2 4 32) 0 idv cdv) ! 0 = cdv"
  by (simp_all add: set_list_def)

theorem resize_Returns_witness:
  "resize (\<lambda>_. 255) (set_list (BlockInvertedLists_sized 2 4 32) 0 [10, 11, 12] (replicate 32 7)) 0 5
     = Returns ()
         (set_list (BlockInvertedLists_sized 2 4 32) 0 ([10, 11, 12] @ replicate 2 0)
            (replicate 32 7 @ replicate 32 0))"
proof -
  let ?s = "set_list (BlockInvertedLists_sized 2 4 32) 0 [10, 11, 12] (replicate 32 7)"
  have "sizes_ok ?s" by (rule sized_example_ok)
  moreover have "(0 :: size_t) < nlist ?s" "n_per_block ?s \<noteq> 0"
    by (simp_all add: sized_example_sel)
  ultimately have "resize (\<lambda>_. 255) ?s 0 5 =
      Returns ()
        (set_list ?s 0 (vector_resize (ids ?s ! unat (0 :: size_t)) (unat (5 :: size_t)) 0)
           (vector_resize (codes ?s ! unat (0 :: size_t))
              (unat (n_block_for 5 (n_per_block ?s) * block_size ?s)) 0))"
    by (rule resize_Returns)
  then show ?thesis
    by (simp add: sized_example_sel n_block_for_def vector_resize_def)
qed

lemma resize_example:
  "state_after (resize (\<lambda>_. 255)
       (set_list (BlockInvertedLists_sized 2 4 32) 0 [10, 11, 12] (replicate 32 7)) 0 5)
     = Some (set_list (BlockInvertedLists_sized 2 4 32) 0 ([10, 11, 12] @ replicate 2 0)
              (replicate 32 7 @ replicate 32 0))"
proof -
  let ?s = "BlockInvertedLists_sized 2 4 32"
  have "at (ids (set_list ?s 0 [10, 11, 12] (replicate 32 7))) 0 = Some [10, 11, 12]"
    "at (codes (set_list ?s 0 [10, 11, 12] (replicate 32 7))) 0 = Some (replicate 32 7)"
    by (simp_all add: at_def set_list_def)
  then have "resize (\<lambda>_. 255) (set_list ?s 0 [10, 11, 12] (replicate 32 7)) 0 5 =
      Returns ()
        (set_list (set_list ?s 0 [10, 11, 12] (replicate 32 7)) 0
           (vector_resize [10, 11, 12] (unat (5 :: size_t)) 0)
           (vector_resize (replicate 32 7)
              (unat (n_block_for 5
                 (n_per_block (set_list ?s 0 [10, 11, 12] (replicate 32 7)))
                 * block_size (set_list ?s 0 [10, 11, 12] (replicate 32 7)))) 0))"
    by (rule resize_at [where prev = 32]) (simp_all add: sized_example_sel)
  then show ?thesis
    by (simp add: sized_example_sel n_block_for_def vector_resize_def)
qed

section \<open>\<open>resize\<close> keeps the size invariant\<close>

lemma resize_state_after:
  assumes "state_after (resize junk s list_no new_size) = Some s'"
  obtains idv1 cdv1 where
    "length idv1 = unat new_size"
    "length cdv1 = unat (n_block_for new_size (n_per_block s) * block_size s)"
    "s' = set_list s list_no idv1 cdv1"
proof -
  from assms obtain idv cdv where
    at: "at (ids s) list_no = Some idv" "at (codes s) list_no = Some cdv"
    and npb: "n_per_block s \<noteq> 0"
    by (auto simp: resize_def Let_def split: option.splits if_splits)
  let ?new = "n_block_for new_size (n_per_block s) * block_size s"
  let ?prev = "of_nat (length cdv) :: size_t"
  let ?idv1 = "vector_resize idv (unat new_size) 0"
  let ?cdv1 = "aligned_resize junk cdv (unat ?new)"
  show thesis
  proof (cases "?prev < ?new")
    case True
    with assms at npb obtain cdv2 where
      set: "memset ?cdv1 (unat ?prev) 0 (unat (?new - ?prev)) = Some cdv2"
      and s': "s' = set_list s list_no ?idv1 cdv2"
      by (auto simp: resize_def Let_def split: option.splits)
    from length_memset [OF set] have "length cdv2 = unat ?new" by simp
    with s' show thesis by (intro that [of ?idv1 cdv2]) simp_all
  next
    case False
    with assms at npb have "s' = set_list s list_no ?idv1 ?cdv1"
      by (simp add: resize_def Let_def)
    then show thesis by (intro that [of ?idv1 ?cdv1]) simp_all
  qed
qed

lemma resize_store_inv:
  assumes "store_inv A s" and "state_after (resize junk s list_no new_size) = Some s'"
  shows "store_inv A s'"
  using assms(2)
proof (cases rule: resize_state_after)
  case (1 idv1 cdv1)
  from 1(1,2) have "list_sizes_ok (n_per_block s) (block_size s) idv1 cdv1"
    by (rule list_sizes_okI)
  with assms(1) show ?thesis unfolding 1(3) by (rule store_inv_set_list)
qed

text \<open>
  C7.  Every state \<open>resize\<close> leaves satisfies the size invariant, for every list
  number, every new size and every content of the freshly allocated bytes.
\<close>

theorem resize_sizes_ok:
  assumes "sizes_ok s" and "state_after (resize junk s list_no new_size) = Some s'"
  shows "sizes_ok s'"
  using assms(2)
proof (rule resize_state_after)
  fix idv1 cdv1
  assume "length idv1 = unat new_size"
    and "length cdv1 = unat (n_block_for new_size (n_per_block s) * block_size s)"
    and s': "s' = set_list s list_no idv1 cdv1"
  then have "list_sizes_ok (n_per_block s) (block_size s) idv1 cdv1"
    by (intro list_sizes_okI)
  with assms(1) show ?thesis unfolding s' by (rule sizes_ok_set_list)
qed

theorem resize_sizes_ok_witness:
  "sizes_ok (set_list (BlockInvertedLists_sized 2 4 32) 0 ([10, 11, 12] @ replicate 2 0)
       (replicate 32 7 @ replicate 32 0))"
  using sized_example_ok resize_example by (rule resize_sizes_ok)

section \<open>Where \<open>resize\<close> is undefined\<close>

text \<open>
  C39.  The source does not check the list number in \<open>resize\<close>: on a store that
  satisfies the size invariant, a list number that is not below \<open>nlist\<close> indexes
  the vector of lists out of range, which is undefined behaviour and not an exception.
\<close>

theorem resize_bad_list_undefined:
  assumes "sizes_ok s" and "\<not> list_no < nlist s"
  shows "resize junk s list_no new_size = Undefined OutOfBounds"
proof -
  from assms have "at (ids s) list_no = None"
    by (simp add: sizes_ok_def at_def word_less_nat_alt)
  then show ?thesis by (simp add: resize_def split: option.splits)
qed

theorem resize_bad_list_undefined_witness:
  "resize (\<lambda>_. 0) (BlockInvertedLists_sized 2 4 32) 2 1 = Undefined OutOfBounds"
proof (rule resize_bad_list_undefined)
  show "sizes_ok (BlockInvertedLists_sized 2 4 32)" by simp
  show "\<not> 2 < nlist (BlockInvertedLists_sized 2 4 32)" by simp
qed

lemma resize_zero_per_block:
  assumes "sizes_ok s" and "list_no < nlist s" and "n_per_block s = 0"
  shows "resize junk s list_no new_size = Undefined DivByZero"
  using assms(1,2)
proof (rule sizes_ok_at)
  fix idv cdv
  assume "at (ids s) list_no = Some idv" "at (codes s) list_no = Some cdv"
  with assms(3) show ?thesis by (simp add: resize_def Let_def)
qed

section \<open>Growing and shrinking back\<close>

lemma vector_resize_back:
  "length v \<le> n \<Longrightarrow> vector_resize (vector_resize v n z) (length v) z' = v"
  by (simp add: vector_resize_def)

text \<open>
  C38.  Growing a list and then shrinking it back to its size restores the store: the
  ids and the packed bytes are those from before, provided the block-aligned length of
  the larger size is not below the old one (which holds whenever the \<open>size_t\<close>
  computation of the larger length does not wrap).
\<close>

theorem resize_grow_shrink_restores:
  assumes "sizes_ok s" and "list_no < nlist s" and "n_per_block s \<noteq> 0"
    and "length (ids s ! unat list_no) \<le> unat new_size"
    and "length (codes s ! unat list_no)
       \<le> unat (n_block_for new_size (n_per_block s) * block_size s)"
  shows "\<exists>s1. resize junk s list_no new_size = Returns () s1 \<and>
      resize junk' s1 list_no (of_nat (length (ids s ! unat list_no))) = Returns () s"
  using assms(1,2)
proof (rule sizes_ok_at)
  fix idv cdv
  assume at: "at (ids s) list_no = Some idv" "at (codes s) list_no = Some cdv"
    and ok: "list_sizes_ok (n_per_block s) (block_size s) idv cdv"
  from at have nth: "ids s ! unat list_no = idv" "codes s ! unat list_no = cdv"
    by (simp_all add: at_Some_iff)
  let ?o = "of_nat (length idv) :: size_t"
  let ?n = "unat (n_block_for new_size (n_per_block s) * block_size s)"
  let ?s1 = "set_list s list_no (vector_resize idv (unat new_size) 0) (vector_resize cdv ?n 0)"
  from ok have len: "length idv < size_limit"
    and cdv: "length cdv = unat (n_block_for ?o (n_per_block s) * block_size s)"
    by (simp_all add: list_sizes_ok_def)
  have o: "unat ?o = length idv" using len by (rule unat_of_nat_len)
  have 1: "resize junk s list_no new_size = Returns () ?s1"
    using at cdv assms(3) by (rule resize_at)
  have "resize junk' ?s1 list_no ?o =
      Returns ()
        (set_list ?s1 list_no
           (vector_resize (vector_resize idv (unat new_size) 0) (unat ?o) 0)
           (vector_resize (vector_resize cdv ?n 0)
              (unat (n_block_for ?o (n_per_block ?s1) * block_size ?s1)) 0))"
  proof (rule resize_at)
    show "at (ids ?s1) list_no = Some (vector_resize idv (unat new_size) 0)"
      using at(1) by (rule at_set_list_same)
    show "at (codes ?s1) list_no = Some (vector_resize cdv ?n 0)"
      using at(2) by (rule at_set_list_same)
    show "length (vector_resize cdv ?n 0)
        = unat (n_block_for new_size (n_per_block s) * block_size s)" by simp
    show "n_per_block ?s1 \<noteq> 0" using assms(3) by simp
  qed
  also have "\<dots> = Returns () (set_list s list_no idv cdv)"
    using assms(4,5) unfolding nth
    by (simp add: o cdv [symmetric] vector_resize_back)
  also have "set_list s list_no idv cdv = s"
    using at by (rule set_list_same)
  finally show ?thesis using 1 by (simp add: nth)
qed

theorem resize_grow_shrink_restores_witness:
  "\<exists>s1. resize (\<lambda>_. 255)
          (set_list (BlockInvertedLists_sized 2 4 32) 0 [10, 11, 12] (replicate 32 7)) 0 5
        = Returns () s1 \<and>
      resize (\<lambda>_. 1) s1 0 3
        = Returns ()
            (set_list (BlockInvertedLists_sized 2 4 32) 0 [10, 11, 12] (replicate 32 7))"
proof -
  let ?s = "set_list (BlockInvertedLists_sized 2 4 32) 0 [10, 11, 12] (replicate 32 7)"
  have "sizes_ok ?s" by (rule sized_example_ok)
  moreover have "(0 :: size_t) < nlist ?s" "n_per_block ?s \<noteq> 0"
    "length (ids ?s ! unat (0 :: size_t)) \<le> unat (5 :: size_t)"
    "length (codes ?s ! unat (0 :: size_t))
       \<le> unat (n_block_for 5 (n_per_block ?s) * block_size ?s)"
    by (simp_all add: sized_example_sel n_block_for_def)
  ultimately have "\<exists>s1. resize (\<lambda>_. 255) ?s 0 5 = Returns () s1 \<and>
      resize (\<lambda>_. 1) s1 0 (of_nat (length (ids ?s ! unat (0 :: size_t)))) = Returns () ?s"
    by (rule resize_grow_shrink_restores)
  then show ?thesis by (simp add: sized_example_sel)
qed

end
