(* ===== verification/BIL_Append.thy ===== *)
theory BIL_Append
  imports Block_Inverted_Lists
begin

text \<open>
  \<^verbatim>\<open>BlockInvertedLists::add_entries\<close> (lines 42-68 of the source), branch by
  branch: the first append to an empty list, which copies the caller's packed blocks;
  the copy at an offset other than zero, which leaves the buffer; the throw for a
  missing packer, which comes after the list has been changed; and the packing loop,
  which moves each entry of the caller's blocks into its slot and leaves every other
  slot as it was.
\<close>

section \<open>The packing loop, slot by slot\<close>

lemma add_entries_body_step:
  assumes "packer_ok p" "holds_slot p code i" "holds_slot p cdv (i + o')"
  obtains cdv1 where "add_entries_body p code o' i cdv = Returns () cdv1"
    "length cdv1 = length cdv"
    "unpack_1 p cdv1 (i + o') = unpack_1 p code i"
    "\<And>j. j \<noteq> i + o' \<Longrightarrow> unpack_1 p cdv1 j = unpack_1 p cdv j"
proof -
  from assms(2) obtain buffer where buffer: "unpack_1 p code i = Some buffer"
    by (auto simp: unpack_1_def)
  from length_unpack_1 [OF assms(1) buffer] assms(3)
  obtain cdv1 where cdv1: "pack_1 p buffer (i + o') cdv = Some cdv1"
    by (auto simp: pack_1_def)
  show thesis
  proof
    show "add_entries_body p code o' i cdv = Returns () cdv1"
      by (simp add: add_entries_body_def buffer cdv1)
    show "length cdv1 = length cdv" using assms(1) cdv1 by (rule length_pack_1)
    show "unpack_1 p cdv1 (i + o') = unpack_1 p code i"
      using unpack_1_pack_1_same [OF assms(1) cdv1] buffer by simp
    show "unpack_1 p cdv1 j = unpack_1 p cdv j" if "j \<noteq> i + o'" for j
      using assms(1) cdv1 that by (rule unpack_1_pack_1_other)
  qed
qed

lemma add_fold_slots:
  assumes "packer_ok p" and "distinct xs"
    and "\<forall>i \<in> set xs. holds_slot p code i \<and> holds_slot p cdv (i + o')"
  shows "\<exists>cdv'. fold_outcome (add_entries_body p code o') xs cdv = Returns () cdv' \<and>
      length cdv' = length cdv \<and>
      (\<forall>i \<in> set xs. unpack_1 p cdv' (i + o') = unpack_1 p code i) \<and>
      (\<forall>j. j \<notin> (\<lambda>i. i + o') ` set xs \<longrightarrow> unpack_1 p cdv' j = unpack_1 p cdv j)"
  using assms(2,3)
proof (induction xs arbitrary: cdv)
  case Nil
  then show ?case by simp
next
  case (Cons x xs)
  from Cons.prems have x: "holds_slot p code x" "holds_slot p cdv (x + o')" by simp_all
  obtain cdv1 where
    step: "add_entries_body p code o' x cdv = Returns () cdv1"
    and len1: "length cdv1 = length cdv"
    and same: "unpack_1 p cdv1 (x + o') = unpack_1 p code x"
    and other: "\<And>j. j \<noteq> x + o' \<Longrightarrow> unpack_1 p cdv1 j = unpack_1 p cdv j"
    using add_entries_body_step [OF assms(1) x] by blast
  have "\<forall>i \<in> set xs. holds_slot p code i \<and> holds_slot p cdv1 (i + o')"
    using Cons.prems(2) len1 by (simp add: holds_slot_def)
  with Cons.prems(1) obtain cdv' where
    run: "fold_outcome (add_entries_body p code o') xs cdv1 = Returns () cdv'"
    and len: "length cdv' = length cdv1"
    and set: "\<forall>i \<in> set xs. unpack_1 p cdv' (i + o') = unpack_1 p code i"
    and frame: "\<forall>j. j \<notin> (\<lambda>i. i + o') ` set xs \<longrightarrow> unpack_1 p cdv' j = unpack_1 p cdv1 j"
    using Cons.IH [of cdv1] by auto
  from Cons.prems(1) have "x + o' \<notin> (\<lambda>i. i + o') ` set xs" by auto
  with frame same have "unpack_1 p cdv' (x + o') = unpack_1 p code x" by simp
  moreover have "unpack_1 p cdv' j = unpack_1 p cdv j"
    if "j \<notin> (\<lambda>i. i + o') ` set (x # xs)" for j
    using that frame other [of j] by simp
  ultimately show ?case using step run len len1 set by auto
qed

lemma add_loop_slots:
  assumes "packer_ok p"
    and "\<forall>i. i < n \<longrightarrow> holds_slot p code i \<and> holds_slot p cdv (i + o')"
  shows "\<exists>cdv'. for_loop 0 n (add_entries_body p code o') cdv = Returns () cdv' \<and>
      length cdv' = length cdv \<and>
      (\<forall>i. i < n \<longrightarrow> unpack_1 p cdv' (i + o') = unpack_1 p code i) \<and>
      (\<forall>j. (\<forall>i. i < n \<longrightarrow> j \<noteq> i + o') \<longrightarrow> unpack_1 p cdv' j = unpack_1 p cdv j)"
proof -
  have "\<forall>i \<in> set (counters 0 n). holds_slot p code i \<and> holds_slot p cdv (i + o')"
    using assms(2) by (simp add: set_counters)
  from add_fold_slots [OF assms(1) distinct_counters this]
  show ?thesis unfolding for_loop_fold by (auto simp: set_counters image_iff)
qed

section \<open>An append of nothing\<close>


section \<open>The ids of an append\<close>

lemma unat_offset:
  "length idv + m < size_limit \<Longrightarrow> unat (of_nat (length idv) :: size_t) = length idv"
  by (intro unat_of_nat_len) simp

lemma unat_offset_plus:
  fixes n :: size_t
  assumes "length idv + unat n < size_limit"
  shows "unat (of_nat (length idv) + n) = length idv + unat n"
  using assms unat_offset [OF assms] by (subst unat_plus_no_wrap) simp_all

lemma append_ids:
  fixes n :: size_t
  assumes "length idv + unat n < size_limit" "unat n < 2 ^ 61" "unat n \<le> length ids_in"
  shows "memcpy (vector_resize idv (unat (of_nat (length idv) + n)) 0)
           (unat (of_nat (length idv) :: size_t)) ids_in (unat (8 * n) div 8)
         = Some (idv @ take (unat n) ids_in)"
proof -
  have "unat (8 * n) = unat (8 :: size_t) * unat n"
    using assms(2) by (intro unat_times_no_wrap) simp
  then have n8: "unat (8 * n) div 8 = unat n" by simp
  show ?thesis unfolding unat_offset [OF assms(1)] unat_offset_plus [OF assms(1)] n8
    using assms(3) by (simp add: memcpy_def vector_resize_def overwrite_def)
qed

section \<open>The block copy\<close>

lemma add_entries_aligned_offset:
  assumes "n_entry \<noteq> 0" "list_no < nlist s"
    and "at (ids s) list_no = Some idv" "at (codes s) list_no = Some cdv"
    and "n_per_block s \<noteq> 0" "block_size s \<noteq> 0"
    and "of_nat (length idv) mod block_size s = 0"
    and "of_nat (length idv) * code_size s \<noteq> 0"
  shows "add_entries junk s list_no n_entry ids_in code = Undefined OutOfBounds"
proof -
  let ?N = "unat (n_block_for (of_nat (length idv) + n_entry) (n_per_block s) * block_size s)"
  have "memcpy (aligned_resize junk cdv ?N) (unat (of_nat (length idv) * code_size s)) code ?N
      = None"
    using assms(8) by (simp add: memcpy_None_iff unat_gt_0)
  with assms show ?thesis by (simp add: add_entries_def Let_def split: option.splits)
qed

lemma invalid_code_size_offset: "o' * INVALID_CODE_SIZE = 0 \<longleftrightarrow> o' = 0"
  by (simp add: INVALID_CODE_SIZE_def)

lemma list_size_Returns_iff:
  "list_size s list_no = Returns sz s' \<longleftrightarrow>
     list_no < nlist s \<and> s' = s \<and> (\<exists>idv. at (ids s) list_no = Some idv \<and> sz = of_nat (length idv))"
  by (auto simp: list_size_def split: option.splits)

text \<open>
  C6.  On a store whose \<open>code_size\<close> is the value the constructors give it, an append
  to a list whose size is a non-zero multiple of \<open>block_size\<close> takes the block copy,
  and the copy leaves the buffer: it writes the size of the whole resized buffer at
  the byte offset \<open>o * code_size\<close>, which is not zero.  The call is undefined for
  every input.
\<close>

theorem add_entries_aligned_out_of_bounds:
  assumes "sizes_ok s" and "code_size s = INVALID_CODE_SIZE"
    and "n_per_block s \<noteq> 0" "block_size s \<noteq> 0" "n_entry \<noteq> 0"
    and "list_size s list_no = Returns sz s" "sz \<noteq> 0" "sz mod block_size s = 0"
  shows "add_entries junk s list_no n_entry ids_in code = Undefined OutOfBounds"
proof -
  from assms(6) obtain idv where l: "list_no < nlist s"
    and idv: "at (ids s) list_no = Some idv" and sz: "sz = of_nat (length idv)"
    by (auto simp: list_size_Returns_iff)
  from assms(1) l obtain cdv where cdv: "at (codes s) list_no = Some cdv"
    by (auto elim: sizes_ok_at)
  from assms(2,7) have "of_nat (length idv) * code_size s \<noteq> 0"
    by (simp add: invalid_code_size_offset sz)
  with assms(5) l idv cdv assms(3,4) assms(8) [unfolded sz]
  show ?thesis by (rule add_entries_aligned_offset)
qed

lemma aligned_example:
  "list_size (set_list (BlockInvertedLists_sized 1 2 2) 0 [5, 6] [1, 2]) 0
     = Returns 2 (set_list (BlockInvertedLists_sized 1 2 2) 0 [5, 6] [1, 2])"
  by (simp add: list_size_def set_list_def at_def)

lemma aligned_example_ok: "sizes_ok (set_list (BlockInvertedLists_sized 1 2 2) 0 [5, 6] [1, 2])"
  by (intro sizes_ok_set_list sizes_ok_sized) (simp add: list_sizes_ok_def n_block_for_def)

theorem add_entries_aligned_out_of_bounds_witness:
  "add_entries (\<lambda>_. 0) (set_list (BlockInvertedLists_sized 1 2 2) 0 [5, 6] [1, 2]) 0 1 [7] [3, 4]
     = Undefined OutOfBounds"
  using aligned_example_ok _ _ _ _ aligned_example
  by (rule add_entries_aligned_out_of_bounds) simp_all

section \<open>The first append to a list\<close>

text \<open>
  C11.  The first append to an empty list returns offset 0 and stores the caller's ids
  and the caller's packed blocks as they are: \<open>n_block * block_size\<close> bytes of
  \<open>code\<close>, where \<open>n_block\<close> is the number of blocks that \<open>n_entry\<close> entries
  take.  No packer is needed on this path.
\<close>

theorem add_entries_first:
  assumes "sizes_ok s" "list_no < nlist s" "n_entry \<noteq> 0"
    and "n_per_block s \<noteq> 0" "block_size s \<noteq> 0"
    and "list_size s list_no = Returns 0 s"
    and "unat n_entry < 2 ^ 61" "unat n_entry \<le> length ids_in"
    and "unat (n_block_for n_entry (n_per_block s) * block_size s) \<le> length code"
  shows "add_entries junk s list_no n_entry ids_in code =
     Returns 0 (set_list s list_no (take (unat n_entry) ids_in)
       (take (unat (n_block_for n_entry (n_per_block s) * block_size s)) code))"
proof -
  let ?N = "unat (n_block_for n_entry (n_per_block s) * block_size s)"
  from assms(1,2) obtain idv cdv where idv: "at (ids s) list_no = Some idv"
    and cdv: "at (codes s) list_no = Some cdv"
    and ok: "list_sizes_ok (n_per_block s) (block_size s) idv cdv"
    by (rule sizes_ok_at)
  from assms(6) idv have "(0 :: size_t) = of_nat (length idv)"
    by (simp add: list_size_Returns_iff)
  moreover from ok have "length idv < size_limit" by (simp add: list_sizes_ok_def)
  ultimately have "length idv = 0"
    using unat_of_nat_len [of "length idv"] by (metis unat_0)
  with idv cdv ok have ids: "at (ids s) list_no = Some []"
    and codes: "at (codes s) list_no = Some []"
    by (simp_all add: list_sizes_ok_def)
  have copy: "memcpy (vector_resize [] (unat n_entry) 0) 0 ids_in (unat (8 * n_entry) div 8)
      = Some (take (unat n_entry) ids_in)"
    using append_ids [of "[]" n_entry ids_in] assms(7,8) unat_size_t_bound [of n_entry]
    by simp
  have "memcpy (aligned_resize junk [] ?N) 0 code ?N = Some (take ?N code)"
    using assms(9) memcpy_whole [of "aligned_resize junk [] ?N" code] by simp
  with assms(2-5) ids codes copy show ?thesis
    by (simp add: add_entries_def Let_def)
qed

theorem add_entries_first_witness:
  "add_entries (\<lambda>_. 0) (BlockInvertedLists_sized 2 4 32) 1 5 [1, 2, 3, 4, 5, 6]
      (replicate 70 9)
     = Returns 0 (set_list (BlockInvertedLists_sized 2 4 32) 1 [1, 2, 3, 4, 5]
         (replicate 64 9))"
  using add_entries_first [of "BlockInvertedLists_sized 2 4 32" 1 5 "[1, 2, 3, 4, 5, 6]"
      "replicate 70 9" "\<lambda>_. 0"]
  by (simp add: list_size_def at_def n_block_for_def)

section \<open>An append without a packer\<close>

text \<open>
  C12.  An append that does not take the block copy, on a store without a packer,
  throws \<open>missing code packer\<close> after the list has been changed: the state the
  exception leaves has the new ids appended and the buffer resized, its new bytes as
  the allocator left them.  The list then reports the new size although no code was
  stored.
\<close>

theorem add_entries_missing_packer:
  assumes "list_no < nlist s" "n_entry \<noteq> 0" "n_per_block s \<noteq> 0" "block_size s \<noteq> 0"
    and "packer s = None"
    and "at (ids s) list_no = Some idv" "at (codes s) list_no = Some cdv"
    and "of_nat (length idv) mod block_size s \<noteq> 0"
    and "length idv + unat n_entry < size_limit"
    and "unat n_entry < 2 ^ 61" "unat n_entry \<le> length ids_in"
  shows "add_entries junk s list_no n_entry ids_in code =
     Throws (FaissException ''missing code packer'')
       (set_list s list_no (idv @ take (unat n_entry) ids_in)
          (aligned_resize junk cdv
            (unat (n_block_for (of_nat (length idv) + n_entry) (n_per_block s)
                   * block_size s))))"
  using assms append_ids [OF assms(9-11)] by (simp add: add_entries_def Let_def)

lemma unaligned_example_sel:
  "at (ids (set_list (BlockInvertedLists_sized 1 2 2) 0 [5] [1, 2])) 0 = Some [5]"
  "at (codes (set_list (BlockInvertedLists_sized 1 2 2) 0 [5] [1, 2])) 0 = Some [1, 2]"
  by (simp_all add: set_list_def at_def)

theorem add_entries_missing_packer_witness:
  "add_entries (\<lambda>_. 0) (set_list (BlockInvertedLists_sized 1 2 2) 0 [5] [1, 2]) 0 2 [6, 7] []
     = Throws (FaissException ''missing code packer'')
         (set_list (BlockInvertedLists_sized 1 2 2) 0 [5, 6, 7] [1, 2, 0, 0])"
  using add_entries_missing_packer [OF _ _ _ _ _ unaligned_example_sel,
      of 2 "[6, 7]" "\<lambda>_. 0" "[]"]
  by (simp add: n_block_for_def aligned_resize_def upt_rec)

section \<open>An append through the packer\<close>

definition packer_matches :: "BlockInvertedLists \<Rightarrow> CodePacker \<Rightarrow> bool" where
  "packer_matches s p \<longleftrightarrow>
     packer s = Some p \<and> packer_ok p \<and> n_per_block s = nvec p \<and>
     block_size s = CodePacker.block_size p"

lemma packer_matches_ctor:
  "BlockInvertedLists_packer nl (Some p) = Returns u s \<Longrightarrow> packer_ok p \<Longrightarrow>
   packer_matches s p"
  by (auto simp: packer_matches_def BlockInvertedLists_packer_def)

lemma packer_matches_set_list [simp]:
  "packer_matches (set_list s l idv cdv) p = packer_matches s p"
  by (simp add: packer_matches_def)

lemma fits_holds_slot:
  assumes "list_fits (nvec p) (CodePacker.block_size p) n" and "unat j < n"
    and "length buf = ceil_div n (unat (nvec p)) * unat (CodePacker.block_size p)"
  shows "holds_slot p buf j"
  using assms by (intro holds_slot_ceil_div [of p j n]) (simp_all add: list_fits_def)

text \<open>On a store whose sizes fit, the buffer of a list holds every slot of the
  list.\<close>

lemma store_holds_slot:
  assumes "sizes_ok s" "packer_matches s p"
    and "at (ids s) list_no = Some idv" "at (codes s) list_no = Some cdv"
    and "list_fits (n_per_block s) (block_size s) (length idv)" "unat j < length idv"
  shows "holds_slot p cdv j"
proof -
  from assms(2) have geom: "n_per_block s = nvec p" "block_size s = CodePacker.block_size p"
    by (simp_all add: packer_matches_def)
  have "length cdv = ceil_div (length idv) (unat (nvec p)) * unat (CodePacker.block_size p)"
    using sizes_ok_at_Some [OF assms(1,3,4)] assms(5) unfolding geom
    by (rule list_sizes_ok_fits)
  with assms(5,6) show ?thesis unfolding geom by (auto intro: fits_holds_slot)
qed

lemma aligned_resize_grow:
  "length t \<le> n \<Longrightarrow> aligned_resize junk t n = t @ map junk [length t..<n]"
  by (simp add: aligned_resize_def)

lemma unat_slot_offset:
  fixes i n :: size_t
  assumes "length idv + unat n < size_limit" "i < n"
  shows "unat (i + of_nat (length idv)) = unat i + length idv"
proof -
  from assms have "unat i + length idv < size_limit" by (simp add: word_less_nat_alt)
  then show ?thesis
    using unat_offset [OF assms(1)] by (subst unat_plus_no_wrap) simp_all
qed

text \<open>The buffer after the resize of an append: it holds every slot of the grown
  list, and the slots of the old list still unpack to what they did.\<close>

lemma append_buffer:
  fixes n_entry :: size_t and junk :: "nat \<Rightarrow> byte"
  assumes ok: "list_sizes_ok (nvec p) (CodePacker.block_size p) idv cdv"
    and fits: "list_fits (nvec p) (CodePacker.block_size p) (length idv + unat n_entry)"
  defines "cdv1 \<equiv> aligned_resize junk cdv
      (unat (n_block_for (of_nat (length idv) + n_entry) (nvec p) * CodePacker.block_size p))"
  shows "\<forall>i. i < n_entry \<longrightarrow> holds_slot p cdv1 (i + of_nat (length idv))"
    and "\<forall>j. j < of_nat (length idv) \<longrightarrow>
           holds_slot p cdv j \<and> unpack_1 p cdv1 j = unpack_1 p cdv j"
proof -
  let ?o = "of_nat (length idv) :: size_t"
  let ?k = "unat (nvec p)" and ?bs = "unat (CodePacker.block_size p)"
  have lt: "length idv + unat n_entry < size_limit" using fits by (rule list_fits_less)
  note o = unat_offset [OF lt] and on = unat_offset_plus [OF lt]
  have old: "list_fits (nvec p) (CodePacker.block_size p) (length idv)"
    using fits by (rule list_fits_mono) simp
  have len: "length cdv = ceil_div (length idv) ?k * ?bs"
    using ok old by (rule list_sizes_ok_fits)
  have len1: "length cdv1 = ceil_div (length idv + unat n_entry) ?k * ?bs"
    using buffer_size_nat [of "nvec p" _ "?o + n_entry"] fits by (simp add: cdv1_def on)
  have grow: "length cdv \<le> length cdv1"
    unfolding len len1 by (intro mult_le_mono1 ceil_div_mono) simp
  show "\<forall>i. i < n_entry \<longrightarrow> holds_slot p cdv1 (i + ?o)"
  proof (intro allI impI)
    fix i assume i: "i < n_entry"
    then have "unat (i + ?o) < length idv + unat n_entry"
      by (simp add: unat_slot_offset [OF lt i] word_less_nat_alt)
    with fits show "holds_slot p cdv1 (i + ?o)" using len1 by (rule fits_holds_slot)
  qed
  show "\<forall>j. j < ?o \<longrightarrow> holds_slot p cdv j \<and> unpack_1 p cdv1 j = unpack_1 p cdv j"
  proof (intro allI impI)
    fix j assume "j < ?o"
    then have "unat j < length idv" by (simp add: o word_less_nat_alt)
    with old have h: "holds_slot p cdv j" using len by (rule fits_holds_slot)
    have "cdv1 = cdv @ map junk [length cdv..<length cdv1]"
      using grow unfolding cdv1_def by (simp add: aligned_resize_grow)
    with h show "holds_slot p cdv j \<and> unpack_1 p cdv1 j = unpack_1 p cdv j"
      by (metis unpack_1_append)
  qed
qed

lemma add_entries_packed:
  assumes "sizes_ok s" "packer_matches s p" "list_no < nlist s" "n_entry \<noteq> 0"
    and "block_size s \<noteq> 0"
    and "at (ids s) list_no = Some idv" "at (codes s) list_no = Some cdv"
    and "of_nat (length idv) mod block_size s \<noteq> 0"
    and "list_fits (n_per_block s) (block_size s) (length idv + unat n_entry)"
    and "unat n_entry < 2 ^ 61" "unat n_entry \<le> length ids_in"
    and "\<forall>i. i < n_entry \<longrightarrow> holds_slot p code i"
  obtains cdv2 where
    "add_entries junk s list_no n_entry ids_in code =
       Returns (of_nat (length idv))
         (set_list s list_no (idv @ take (unat n_entry) ids_in) cdv2)"
    "\<And>i. i < n_entry \<Longrightarrow>
       unpack_1 p cdv2 (i + of_nat (length idv)) = unpack_1 p code i"
    "\<And>j. j < of_nat (length idv) \<Longrightarrow> unpack_1 p cdv2 j = unpack_1 p cdv j"
proof -
  let ?o = "of_nat (length idv) :: size_t"
  let ?cdv1 = "aligned_resize junk cdv
      (unat (n_block_for (?o + n_entry) (nvec p) * CodePacker.block_size p))"
  from assms(2) have p: "packer s = Some p" "packer_ok p"
    and geom: "n_per_block s = nvec p" "block_size s = CodePacker.block_size p"
    by (simp_all add: packer_matches_def)
  have lt: "length idv + unat n_entry < size_limit" using assms(9) by (rule list_fits_less)
  have ok: "list_sizes_ok (nvec p) (CodePacker.block_size p) idv cdv"
    using sizes_ok_at_Some [OF assms(1,6,7)] by (simp add: geom)
  note buf = append_buffer [OF ok assms(9) [unfolded geom], of junk]
  from buf(1) assms(12) obtain cdv2 where
    run: "for_loop 0 n_entry (add_entries_body p code ?o) ?cdv1 = Returns () cdv2"
    and set: "\<forall>i. i < n_entry \<longrightarrow> unpack_1 p cdv2 (i + ?o) = unpack_1 p code i"
    and frame: "\<forall>j. (\<forall>i. i < n_entry \<longrightarrow> j \<noteq> i + ?o) \<longrightarrow>
                   unpack_1 p cdv2 j = unpack_1 p ?cdv1 j"
    using add_loop_slots [OF p(2), of n_entry code ?cdv1 ?o] by auto
  have "unpack_1 p cdv2 j = unpack_1 p cdv j" if j: "j < ?o" for j
  proof -
    have "j \<noteq> i + ?o" if "i < n_entry" for i
      using unat_slot_offset [OF lt that] j unat_offset [OF lt]
      by (auto simp: word_less_nat_alt)
    with frame buf(2) j show ?thesis by simp
  qed
  moreover have "add_entries junk s list_no n_entry ids_in code =
      Returns ?o (set_list s list_no (idv @ take (unat n_entry) ids_in) cdv2)"
    using assms(3-8) append_ids [OF lt assms(10,11)] p(1) geom packer_ok_nvec [OF p(2)] run
    by (simp add: add_entries_def Let_def)
  ultimately show thesis using set by (intro that [of cdv2]) blast+
qed


text \<open>
  C3.  An append that does not start on a block boundary, on a store with a packer
  that keeps the contract, returns the old size \<open>o\<close>, appends the ids, and moves
  entry \<open>i\<close> of the caller's packed blocks into slot \<open>o + i\<close> of the list, for
  every \<open>i < n_entry\<close>; every slot below \<open>o\<close> unpacks to what it did before.
\<close>

theorem add_entries_packs_slots:
  assumes "sizes_ok s" "packer_matches s p" "list_no < nlist s" "n_entry \<noteq> 0"
    and "block_size s \<noteq> 0"
    and "at (ids s) list_no = Some idv" "at (codes s) list_no = Some cdv"
    and "of_nat (length idv) mod block_size s \<noteq> 0"
    and "list_fits (n_per_block s) (block_size s) (length idv + unat n_entry)"
    and "unat n_entry < 2 ^ 61" "unat n_entry \<le> length ids_in"
    and "\<forall>i. i < n_entry \<longrightarrow> holds_slot p code i"
  shows "\<exists>cdv2.
     add_entries junk s list_no n_entry ids_in code =
       Returns (of_nat (length idv))
         (set_list s list_no (idv @ take (unat n_entry) ids_in) cdv2) \<and>
     (\<forall>i. i < n_entry \<longrightarrow>
        unpack_1 p cdv2 (i + of_nat (length idv)) = unpack_1 p code i) \<and>
     (\<forall>j. j < of_nat (length idv) \<longrightarrow> unpack_1 p cdv2 j = unpack_1 p cdv j)"
  using add_entries_packed [OF assms, of junk] by metis

abbreviation flat_example_packer :: CodePacker where
  "flat_example_packer \<equiv> flat_packer 1 2"

abbreviation flat_example_store :: BlockInvertedLists where
  "flat_example_store \<equiv>
     set_list ((BlockInvertedLists_sized 1 2 2)\<lparr>packer := Some flat_example_packer\<rparr>)
       0 [5] [1, 0]"

lemma flat_example_ok: "sizes_ok flat_example_store"
  by (intro sizes_ok_set_list) (simp_all add: list_sizes_ok_def n_block_for_def)

lemma flat_example_matches: "packer_matches flat_example_store flat_example_packer"
  by (simp add: packer_matches_def flat_packer_ok)

lemma flat_example_slots: "\<forall>i. i < 2 \<longrightarrow> holds_slot flat_example_packer [3, 4] i"
  by (auto intro!: holds_slot_ceil_div [where n = 2] simp: word_less_nat_alt ceil_div_def)

lemma flat_example_fits: "list_fits 2 2 (Suc (Suc (Suc 0)))"
  by (simp add: list_fits_def ceil_div_def)

theorem add_entries_packs_slots_witness:
  "\<exists>cdv2.
     add_entries (\<lambda>_. 0) flat_example_store 0 2 [6, 7] [3, 4] =
       Returns 1 (set_list flat_example_store 0 [5, 6, 7] cdv2) \<and>
     (\<forall>i. i < 2 \<longrightarrow> unpack_1 flat_example_packer cdv2 (i + 1)
                       = unpack_1 flat_example_packer [3, 4] i) \<and>
     (\<forall>j. j < 1 \<longrightarrow> unpack_1 flat_example_packer cdv2 j
                       = unpack_1 flat_example_packer [1, 0] j)"
  using add_entries_packs_slots [OF flat_example_ok flat_example_matches,
      of 0 2 "[5]" "[1, 0]" "[6, 7]" "[3, 4]" "\<lambda>_. 0"]
    flat_example_slots flat_example_fits
  by (simp add: set_list_def at_def)

section \<open>The size after an append\<close>

lemma add_entries_Returns_state:
  assumes "add_entries junk s list_no n_entry ids_in code = Returns r s'" "n_entry \<noteq> 0"
  obtains idv idv2 cdv2 where "list_no < nlist s" "at (ids s) list_no = Some idv"
    "r = of_nat (length idv)" "length idv2 = unat (r + n_entry)"
    "s' = set_list s list_no idv2 cdv2"
proof -
  from assms obtain idv idv2 where l: "list_no < nlist s"
    and idv: "at (ids s) list_no = Some idv" and r: "r = of_nat (length idv)"
    and copy: "memcpy (vector_resize idv (unat (of_nat (length idv) + n_entry)) 0)
        (unat (of_nat (length idv) :: size_t)) ids_in (unat (8 * n_entry) div 8) = Some idv2"
    and s': "\<exists>cdv2. s' = set_list s list_no idv2 cdv2"
    by (auto simp: add_entries_def Let_def
        split: option.splits if_splits outcome.splits)
  from length_memcpy [OF copy] have "length idv2 = unat (r + n_entry)" by (simp add: r)
  with l idv r s' show thesis by (auto intro: that)
qed

text \<open>
  C10.  Whenever an append of at least one entry returns, it returns the size the
  list had, and the list then has that size plus \<open>n_entry\<close>, in \<open>size_t\<close>
  arithmetic, on every path of the code.
\<close>

theorem add_entries_list_size:
  assumes "n_entry \<noteq> 0"
    and "add_entries junk s list_no n_entry ids_in code = Returns r s'"
  shows "list_size s list_no = Returns r s \<and> list_size s' list_no = Returns (r + n_entry) s'"
  using assms(2,1)
proof (rule add_entries_Returns_state)
  fix idv idv2 cdv2
  assume "list_no < nlist s" "at (ids s) list_no = Some idv" "r = of_nat (length idv)"
    "length idv2 = unat (r + n_entry)" "s' = set_list s list_no idv2 cdv2"
  then show ?thesis by (simp add: list_size_def at_set_list_same)
qed

theorem add_entries_list_size_witness:
  "list_size flat_example_store 0 = Returns 1 flat_example_store \<and>
   (\<exists>s'. add_entries (\<lambda>_. 0) flat_example_store 0 2 [6, 7] [3, 4] = Returns 1 s' \<and>
      list_size s' 0 = Returns (1 + 2) s')"
proof -
  have "add_entries (\<lambda>_. 0) flat_example_store 0 2 [6, 7] [3, 4]
      = Returns 1 (set_list flat_example_store 0 [5, 6, 7] [1, 3, 4, 0])"
    by (simp add: add_entries_def BlockInvertedLists_sized_def INVALID_CODE_SIZE_def
        n_block_for_def bil_defs set_list_def for_loop_fold counters_def
        add_entries_body_def packer_eval upt_rec)
  from add_entries_list_size [OF _ this] this show ?thesis
    by (simp add: list_size_def at_def set_list_def)
qed

end
