(* ===== verification/BIL_Update.thy ===== *)
theory BIL_Update
  imports BIL_Append
begin

text \<open>
  \<^verbatim>\<open>BlockInvertedLists::update_entries\<close> (lines 103-116 of the source): one step of
  its loop, the loop as a whole, and the call: the ids it overwrites, the slots it
  repacks from the caller's flat codes, the slots it leaves alone, the states it can
  leave, and the two ways the call is undefined that its guards do not exclude (no
  packer attached; an \<open>offset + n_entry\<close> that wraps).
\<close>

section \<open>One step of the loop\<close>

lemma update_entries_body_step:
  assumes "packer s = Some p" "packer_ok p"
    and "at (ids s) list_no = Some idv" "at (codes s) list_no = Some cdv"
    and "at ids_in i = Some v" "unat (offset + i) < length idv"
    and "holds_slot p cdv (offset + i)"
    and "unat (i * CodePacker.code_size p) + unat (CodePacker.code_size p) \<le> length code"
  obtains cdv1 where
    "update_entries_body list_no offset ids_in code i s =
       Returns () (set_list s list_no (idv[unat (offset + i) := v]) cdv1)"
    "length cdv1 = length cdv"
    "unpack_1 p cdv1 (offset + i) =
       Some (subrange code (unat (i * CodePacker.code_size p)) (unat (CodePacker.code_size p)))"
    "\<And>j. j \<noteq> offset + i \<Longrightarrow> unpack_1 p cdv1 j = unpack_1 p cdv j"
proof -
  let ?c = "subrange code (unat (i * CodePacker.code_size p)) (unat (CodePacker.code_size p))"
  from assms(8) have "length ?c = unat (CodePacker.code_size p)" by simp
  with assms(7) obtain cdv1 where cdv1: "pack_1 p ?c (offset + i) cdv = Some cdv1"
    by (auto simp: pack_1_def)
  show thesis
  proof
    show "update_entries_body list_no offset ids_in code i s =
        Returns () (set_list s list_no (idv[unat (offset + i) := v]) cdv1)"
      using assms(1,3-6,8) cdv1 by (simp add: update_entries_body_def Let_def)
    show "length cdv1 = length cdv" using assms(2) cdv1 by (rule length_pack_1)
    show "unpack_1 p cdv1 (offset + i) = Some ?c"
      using assms(2) cdv1 by (rule unpack_1_pack_1_same)
    show "unpack_1 p cdv1 j = unpack_1 p cdv j" if "j \<noteq> offset + i" for j
      using assms(2) cdv1 that by (rule unpack_1_pack_1_other)
  qed
qed

lemma update_entries_body_no_throw [simp]:
  "update_entries_body list_no offset ids_in code i s \<noteq> Throws e t"
  by (simp add: update_entries_body_def Let_def split: option.splits)

lemma update_entries_body_state:
  assumes "state_after (update_entries_body list_no offset ids_in code i s) = Some s'"
    and "packer_wf s"
  obtains idv cdv idv' cdv' where
    "at (ids s) list_no = Some idv" "at (codes s) list_no = Some cdv"
    "length idv' = length idv" "length cdv' = length cdv" "s' = set_list s list_no idv' cdv'"
proof -
  from assms(1) obtain idv cdv v p cdv' where
    "at (ids s) list_no = Some idv" "at (codes s) list_no = Some cdv" "packer s = Some p"
    "pack_1 p (subrange code (unat (i * CodePacker.code_size p))
        (unat (CodePacker.code_size p))) (offset + i) cdv = Some cdv'"
    "s' = set_list s list_no (idv[unat (offset + i) := v]) cdv'"
    by (auto simp: update_entries_body_def Let_def split: option.splits if_splits)
  moreover from this assms(2) have "length cdv' = length cdv"
    by (intro length_pack_1 [of p]) (auto dest: packer_wf_Some)
  ultimately show thesis by (intro that [of idv cdv "idv[unat (offset + i) := v]" cdv']) simp_all
qed

section \<open>The loop\<close>

text \<open>
  \<open>update_ready\<close>: iteration \<open>i\<close> finds its id, its flat code and its slot.
  \<open>update_post\<close>: what the loop over a set \<open>X\<close> of counters has done to a list: the
  ids and the slots it names are set from the caller's arrays, everything else in the
  list is as before.
\<close>

definition update_ready ::
  "CodePacker \<Rightarrow> size_t \<Rightarrow> idx_t list \<Rightarrow> byte list \<Rightarrow> idx_t list \<Rightarrow> byte list \<Rightarrow> size_t \<Rightarrow> bool" where
  "update_ready p offset ids_in code idv cdv i \<longleftrightarrow>
     unat (offset + i) < length idv \<and> holds_slot p cdv (offset + i) \<and>
     unat i < length ids_in \<and>
     unat (i * CodePacker.code_size p) + unat (CodePacker.code_size p) \<le> length code"

definition update_post ::
  "CodePacker \<Rightarrow> size_t \<Rightarrow> idx_t list \<Rightarrow> byte list \<Rightarrow> size_t set \<Rightarrow>
   idx_t list \<Rightarrow> byte list \<Rightarrow> idx_t list \<Rightarrow> byte list \<Rightarrow> bool" where
  "update_post p offset ids_in code X idv cdv idv' cdv' \<longleftrightarrow>
     length idv' = length idv \<and> length cdv' = length cdv \<and>
     (\<forall>i \<in> X. idv' ! unat (offset + i) = ids_in ! unat i \<and>
        unpack_1 p cdv' (offset + i) =
          Some (subrange code (unat (i * CodePacker.code_size p))
                 (unat (CodePacker.code_size p)))) \<and>
     (\<forall>k. k \<notin> (\<lambda>i. unat (offset + i)) ` X \<longrightarrow> idv' ! k = idv ! k) \<and>
     (\<forall>j. j \<notin> (\<lambda>i. offset + i) ` X \<longrightarrow> unpack_1 p cdv' j = unpack_1 p cdv j)"

lemma update_post_empty [simp]: "update_post p offset ids_in code {} idv cdv idv cdv"
  by (simp add: update_post_def)

lemma update_post_insert:
  assumes "x \<notin> X" "unat (offset + x) < length idv" "length cdv1 = length cdv"
    and same: "unpack_1 p cdv1 (offset + x) =
        Some (subrange code (unat (x * CodePacker.code_size p)) (unat (CodePacker.code_size p)))"
    and other: "\<And>j. j \<noteq> offset + x \<Longrightarrow> unpack_1 p cdv1 j = unpack_1 p cdv j"
    and post: "update_post p offset ids_in code X
        (idv[unat (offset + x) := ids_in ! unat x]) cdv1 idv' cdv'"
  shows "update_post p offset ids_in code (insert x X) idv cdv idv' cdv'"
proof -
  from assms(1) have new: "offset + x \<notin> (\<lambda>i. offset + i) ` X"
    "unat (offset + x) \<notin> (\<lambda>i. unat (offset + i)) ` X"
    by (auto simp: word_unat_eq_iff [symmetric])
  with post same assms(2)
  have "idv' ! unat (offset + x) = ids_in ! unat x \<and> unpack_1 p cdv' (offset + x) =
      Some (subrange code (unat (x * CodePacker.code_size p)) (unat (CodePacker.code_size p)))"
    by (simp add: update_post_def)
  moreover have "idv' ! k = idv ! k" if "k \<notin> (\<lambda>i. unat (offset + i)) ` insert x X" for k
    using that post by (simp add: update_post_def)
  moreover have "unpack_1 p cdv' j = unpack_1 p cdv j"
    if "j \<notin> (\<lambda>i. offset + i) ` insert x X" for j
    using that post other [of j] by (simp add: update_post_def)
  ultimately show ?thesis using post assms(3) by (simp add: update_post_def)
qed

lemma update_fold:
  assumes p: "packer s = Some p" "packer_ok p" and "distinct xs"
    and "at (ids s) list_no = Some idv" "at (codes s) list_no = Some cdv"
    and "\<forall>i \<in> set xs. update_ready p offset ids_in code idv cdv i"
  shows "\<exists>idv' cdv'.
      fold_outcome (update_entries_body list_no offset ids_in code) xs s =
        Returns () (set_list s list_no idv' cdv') \<and>
      update_post p offset ids_in code (set xs) idv cdv idv' cdv'"
  using assms(1,3-)
proof (induction xs arbitrary: s idv cdv)
  case Nil
  then show ?case by (auto simp: set_list_same intro!: exI [of _ idv] exI [of _ cdv])
next
  case (Cons x xs)
  let ?idv1 = "idv[unat (offset + x) := ids_in ! unat x]"
  from Cons.prems(5) have x: "unat (offset + x) < length idv" "holds_slot p cdv (offset + x)"
    "at ids_in x = Some (ids_in ! unat x)"
    "unat (x * CodePacker.code_size p) + unat (CodePacker.code_size p) \<le> length code"
    by (simp_all add: at_def update_ready_def)
  from update_entries_body_step [OF Cons.prems(1) p(2) Cons.prems(3,4) x(3,1,2,4)]
  obtain cdv1 where
    step: "update_entries_body list_no offset ids_in code x s =
        Returns () (set_list s list_no ?idv1 cdv1)"
    and len1: "length cdv1 = length cdv"
    and slot: "unpack_1 p cdv1 (offset + x) =
        Some (subrange code (unat (x * CodePacker.code_size p)) (unat (CodePacker.code_size p)))"
      "\<And>j. j \<noteq> offset + x \<Longrightarrow> unpack_1 p cdv1 j = unpack_1 p cdv j"
    by blast
  from Cons.prems(5) len1
  have "\<forall>i \<in> set xs. update_ready p offset ids_in code ?idv1 cdv1 i"
    by (simp add: update_ready_def holds_slot_def)
  with Cons.prems(1-4) obtain idv' cdv' where
    run: "fold_outcome (update_entries_body list_no offset ids_in code) xs
        (set_list s list_no ?idv1 cdv1) = Returns () (set_list s list_no idv' cdv')"
    and post: "update_post p offset ids_in code (set xs) ?idv1 cdv1 idv' cdv'"
    using Cons.IH [of "set_list s list_no ?idv1 cdv1" ?idv1 cdv1]
    by (auto simp: at_set_list_same)
  from Cons.prems(2) x(1) len1 slot post
  have "update_post p offset ids_in code (insert x (set xs)) idv cdv idv' cdv'"
    by (intro update_post_insert) simp_all
  with step run show ?case by auto
qed

section \<open>Offsets and flat codes without wrap-around\<close>

lemma update_range:
  fixes offset n i :: size_t
  assumes "unat offset + unat n \<le> len" "len < size_limit" "i < n"
  shows "unat (offset + i) = unat offset + unat i" and "unat (offset + i) < len"
proof -
  from assms have "unat offset + unat i < len" by (simp add: word_less_nat_alt)
  with assms(2) show "unat (offset + i) = unat offset + unat i"
    by (intro unat_plus_no_wrap) simp
  with \<open>unat offset + unat i < len\<close> show "unat (offset + i) < len" by simp
qed

lemma update_range_end:
  fixes offset n :: size_t
  assumes "unat offset + unat n \<le> len" "len < size_limit"
  shows "unat (offset + n) = unat offset + unat n"
  using assms by (intro unat_plus_no_wrap) simp

lemma flat_code_range:
  fixes cs n i :: size_t
  assumes "unat n * unat cs \<le> len" "len < size_limit" "i < n"
  shows "unat (i * cs) = unat i * unat cs" and "unat (i * cs) + unat cs \<le> len"
proof -
  from assms(3) have "Suc (unat i) \<le> unat n" by (simp add: word_less_nat_alt)
  then have "Suc (unat i) * unat cs \<le> unat n * unat cs" by (rule mult_le_mono1)
  with assms(1) have le: "unat i * unat cs + unat cs \<le> len" by simp
  with assms(2) show "unat (i * cs) = unat i * unat cs"
    by (intro unat_times_no_wrap) simp
  with le show "unat (i * cs) + unat cs \<le> len" by simp
qed

lemma ids_overwritten:
  assumes "length idv' = length idv" "off + n \<le> length idv" "n \<le> length ids_in"
    and "\<forall>m < n. idv' ! (off + m) = ids_in ! m"
    and "\<forall>k. k < off \<or> off + n \<le> k \<longrightarrow> idv' ! k = idv ! k"
  shows "idv' = overwrite idv off (take n ids_in)"
proof (rule nth_equalityI)
  show "length idv' = length (overwrite idv off (take n ids_in))"
    using assms(1-3) by simp
  fix k assume "k < length idv'"
  with assms(1-3) have "overwrite idv off (take n ids_in) ! k =
      (if k < off then idv ! k else if k < off + n then ids_in ! (k - off) else idv ! k)"
    by (simp add: nth_overwrite)
  moreover have "idv' ! k = ids_in ! (k - off)" if "off \<le> k" "k < off + n"
    using that assms(4) [rule_format, of "k - off"] by simp
  ultimately show "idv' ! k = overwrite idv off (take n ids_in) ! k"
    using assms(5) by auto
qed

section \<open>The loop of a call\<close>

lemma outside_update_range:
  fixes offset n i :: size_t
  assumes "unat offset + unat n \<le> len" "len < size_limit" "i < n"
  shows "k < unat offset \<or> unat offset + unat n \<le> k \<Longrightarrow> k \<noteq> unat (offset + i)"
    and "\<not> (offset \<le> j \<and> j < offset + n) \<Longrightarrow> j \<noteq> offset + i"
  using update_range(1) [OF assms] update_range_end [OF assms(1,2)] assms(3)
  by (auto simp: word_less_nat_alt word_le_nat_alt)

lemma update_loop:
  fixes offset n :: size_t
  assumes p: "packer s = Some p" "packer_ok p"
    and lists: "at (ids s) list_no = Some idv" "at (codes s) list_no = Some cdv"
    and range: "unat offset + unat n \<le> length idv" "length idv < size_limit"
    and slots: "\<forall>j. unat j < length idv \<longrightarrow> holds_slot p cdv j"
    and ids_in: "unat n \<le> length ids_in"
    and code: "unat n * unat (CodePacker.code_size p) \<le> length code"
      "length code < size_limit"
  shows "\<exists>cdv'.
      for_loop 0 n (update_entries_body list_no offset ids_in code) s =
        Returns () (set_list s list_no
          (overwrite idv (unat offset) (take (unat n) ids_in)) cdv') \<and>
      length cdv' = length cdv \<and>
      (\<forall>i. i < n \<longrightarrow> unpack_1 p cdv' (offset + i) =
         Some (subrange code (unat i * unat (CodePacker.code_size p))
                (unat (CodePacker.code_size p)))) \<and>
      (\<forall>j. \<not> (offset \<le> j \<and> j < offset + n) \<longrightarrow> unpack_1 p cdv' j = unpack_1 p cdv j)"
proof -
  note r = update_range [OF range] and c = flat_code_range [OF code]
    and out = outside_update_range [OF range]
  have "\<forall>i \<in> set (counters 0 n). update_ready p offset ids_in code idv cdv i"
    using r(2) c(2) slots ids_in
    by (auto simp: set_counters word_less_nat_alt update_ready_def)
  from update_fold [OF p distinct_counters lists this] obtain idv' cdv' where
    run: "for_loop 0 n (update_entries_body list_no offset ids_in code) s =
        Returns () (set_list s list_no idv' cdv')"
    and post: "update_post p offset ids_in code {i. i < n} idv cdv idv' cdv'"
    unfolding for_loop_fold by (auto simp: set_counters)
  from post have len: "length idv' = length idv" "length cdv' = length cdv"
    and set: "\<And>i. i < n \<Longrightarrow> idv' ! unat (offset + i) = ids_in ! unat i"
      "\<And>i. i < n \<Longrightarrow> unpack_1 p cdv' (offset + i) =
         Some (subrange code (unat (i * CodePacker.code_size p)) (unat (CodePacker.code_size p)))"
    and ids_frame: "\<And>k. k \<notin> (\<lambda>i. unat (offset + i)) ` {i. i < n} \<Longrightarrow> idv' ! k = idv ! k"
    and frame: "\<And>j. j \<notin> (\<lambda>i. offset + i) ` {i. i < n} \<Longrightarrow>
         unpack_1 p cdv' j = unpack_1 p cdv j"
    by (simp_all add: update_post_def)
  have "idv' ! (unat offset + m) = ids_in ! m" if "m < unat n" for m
  proof -
    from that have m: "unat (of_nat m :: size_t) = m"
      using unat_size_t_bound [of n] by (intro unat_of_nat_len) simp
    with that have "(of_nat m :: size_t) < n" by (simp add: word_less_nat_alt)
    from set(1) [OF this] r(1) [OF this] m show ?thesis by simp
  qed
  moreover have "idv' ! k = idv ! k" if "k < unat offset \<or> unat offset + unat n \<le> k" for k
    using out(1) [OF _ that] by (intro ids_frame) auto
  ultimately have "idv' = overwrite idv (unat offset) (take (unat n) ids_in)"
    using len(1) range(1) ids_in by (intro ids_overwritten) simp_all
  moreover have "unpack_1 p cdv' j = unpack_1 p cdv j"
    if "\<not> (offset \<le> j \<and> j < offset + n)" for j
    using out(2) [OF _ that] by (intro frame) auto
  ultimately show ?thesis using run len(2) set(2) c(1) by auto
qed

section \<open>The call\<close>

lemma update_entries_guards:
  fixes offset n_entry :: size_t
  assumes "list_no < nlist s" "at (ids s) list_no = Some idv"
    and "unat offset + unat n_entry \<le> length idv" "length idv < size_limit"
  shows "update_entries s list_no offset n_entry ids_in code =
     for_loop 0 n_entry (update_entries_body list_no offset ids_in code) s"
  using assms update_range_end [OF assms(3,4)]
  by (simp add: update_entries_def word_le_nat_alt unat_of_nat_len)

text \<open>
  C4.  On a store with a packer that keeps the contract, \<open>update_entries\<close> of
  \<open>n_entry\<close> entries inside the list returns; the ids at \<open>offset .. offset + n_entry\<close>
  are the caller's, slot \<open>offset + i\<close> unpacks to the caller's flat code \<open>i\<close>, every
  other slot unpacks to what it did, and the buffer keeps its length.
\<close>

theorem update_entries_overwrites:
  fixes offset n_entry :: size_t
  assumes "sizes_ok s" "packer_matches s p" "list_no < nlist s"
    and "at (ids s) list_no = Some idv" "at (codes s) list_no = Some cdv"
    and "unat offset + unat n_entry \<le> length idv"
    and "list_fits (n_per_block s) (block_size s) (length idv)"
    and "unat n_entry \<le> length ids_in"
    and "unat n_entry * unat (CodePacker.code_size p) \<le> length code"
      "length code < size_limit"
  shows "\<exists>cdv'.
      update_entries s list_no offset n_entry ids_in code =
        Returns () (set_list s list_no
          (overwrite idv (unat offset) (take (unat n_entry) ids_in)) cdv') \<and>
      length cdv' = length cdv \<and>
      (\<forall>i. i < n_entry \<longrightarrow> unpack_1 p cdv' (offset + i) =
         Some (subrange code (unat i * unat (CodePacker.code_size p))
                (unat (CodePacker.code_size p)))) \<and>
      (\<forall>j. \<not> (offset \<le> j \<and> j < offset + n_entry) \<longrightarrow>
         unpack_1 p cdv' j = unpack_1 p cdv j)"
proof -
  from assms(2) have p: "packer s = Some p" "packer_ok p" by (simp_all add: packer_matches_def)
  have lt: "length idv < size_limit" using assms(7) by (rule list_fits_less)
  have "\<forall>j. unat j < length idv \<longrightarrow> holds_slot p cdv j"
    using assms(1,2,4,5,7) by (auto intro: store_holds_slot)
  from update_loop [OF p assms(4,5,6) lt this assms(8-10)]
  show ?thesis unfolding update_entries_guards [OF assms(3,4,6) lt] .
qed

abbreviation scenario_packer :: CodePacker where
  "scenario_packer \<equiv> flat_packer 8 4"

abbreviation scenario_store :: BlockInvertedLists where
  "scenario_store \<equiv>
     set_list ((BlockInvertedLists_sized 2 4 32)\<lparr>packer := Some scenario_packer\<rparr>)
       0 [10, 11, 12] (replicate 32 7)"

lemma scenario_ok: "sizes_ok scenario_store"
  by (intro sizes_ok_set_list) (simp_all add: list_sizes_ok_def n_block_for_def)

lemma scenario_matches: "packer_matches scenario_store scenario_packer"
  by (simp add: packer_matches_def flat_packer_ok)

lemma scenario_sel:
  "at (ids scenario_store) 0 = Some [10, 11, 12]"
  "at (codes scenario_store) 0 = Some (replicate 32 7)"
  by (simp_all add: set_list_def at_def)

lemma scenario_fits:
  "list_fits (n_per_block scenario_store) (block_size scenario_store)
     (length [10 :: idx_t, 11, 12])"
  by (simp add: list_fits_def ceil_div_def)

theorem update_entries_overwrites_witness:
  "\<exists>cdv'.
      update_entries scenario_store 0 1 1 [99] (replicate 8 1) =
        Returns () (set_list scenario_store 0 [10, 99, 12] cdv') \<and>
      length cdv' = 32 \<and>
      (\<forall>i. i < 1 \<longrightarrow> unpack_1 scenario_packer cdv' (1 + i) = Some (replicate 8 1)) \<and>
      (\<forall>j. \<not> (1 \<le> j \<and> j < 2) \<longrightarrow>
         unpack_1 scenario_packer cdv' j = unpack_1 scenario_packer (replicate 32 7) j)"
  using update_entries_overwrites [OF scenario_ok scenario_matches _ scenario_sel _
      scenario_fits, of 1 1 "[99]" "replicate 8 1"]
  by (simp add: overwrite_def subrange_def)

section \<open>The states an update can leave\<close>

lemma update_entries_body_store_inv:
  assumes "store_inv A t"
    and "state_after (update_entries_body list_no offset ids_in code i t) = Some t'"
  shows "store_inv A t'"
proof -
  from assms(2) store_invD(2) [OF assms(1)] obtain idv cdv idv' cdv' where
    at: "at (ids t) list_no = Some idv" "at (codes t) list_no = Some cdv"
    and len: "length idv' = length idv" "length cdv' = length cdv"
    and t': "t' = set_list t list_no idv' cdv'"
    by (auto elim: update_entries_body_state)
  from store_invD(1) [OF assms(1)] at
  have "list_sizes_ok (n_per_block t) (block_size t) idv cdv" by (rule sizes_ok_at_Some)
  then have "list_sizes_ok (n_per_block t) (block_size t) idv' cdv'"
    using len by (rule list_sizes_ok_cong_length)
  with assms(1) show ?thesis unfolding t' by (rule store_inv_set_list)
qed

lemma update_entries_cases:
  obtains (bad_list) "\<not> list_no < nlist s"
      "update_entries s list_no offset n_entry ids_in code =
         Throws (FaissException ''list_no < nlist'') s"
  | (no_list) "update_entries s list_no offset n_entry ids_in code = Undefined OutOfBounds"
  | (bad_range) idv where "at (ids s) list_no = Some idv"
      "\<not> offset + n_entry \<le> of_nat (length idv)"
      "update_entries s list_no offset n_entry ids_in code =
         Throws (FaissException ''(offset + n_entry) <= ids[list_no].size()'') s"
  | (loop) idv where "list_no < nlist s" "at (ids s) list_no = Some idv"
      "offset + n_entry \<le> of_nat (length idv)"
      "update_entries s list_no offset n_entry ids_in code =
         for_loop 0 n_entry (update_entries_body list_no offset ids_in code) s"
proof (cases "list_no < nlist s")
  case False
  then show thesis by (intro bad_list) (simp_all add: update_entries_def)
next
  case True
  show thesis
  proof (cases "at (ids s) list_no")
    case None
    with True show thesis by (intro no_list) (simp add: update_entries_def)
  next
    case (Some idv)
    with True show thesis
      by (cases "offset + n_entry \<le> of_nat (length idv)")
         (simp_all add: bad_range loop update_entries_def)
  qed
qed

text \<open>
  C15.  Every state \<open>update_entries\<close> leaves satisfies the size invariant, for every
  input: an update changes no length.
\<close>

theorem update_entries_sizes_ok:
  assumes "sizes_ok s" "packer_wf s"
    and "state_after (update_entries s list_no offset n_entry ids_in code) = Some s'"
  shows "sizes_ok s'"
proof (cases rule: update_entries_cases [of list_no s offset n_entry ids_in code])
  case (loop idv)
  with assms(3) have "state_after
      (for_loop 0 n_entry (update_entries_body list_no offset ids_in code) s) = Some s'"
    by simp
  from this _ update_entries_body_store_inv have "store_inv (allocated_codes s) s'"
    by (rule for_loop_state_invariant) (simp add: assms store_inv_def)
  then show ?thesis by (rule store_invD)
qed (use assms in auto)

lemma update_entries_store_inv:
  assumes "store_inv A s"
    and "state_after (update_entries s list_no offset n_entry ids_in code) = Some s'"
  shows "store_inv A s'"
proof (cases rule: update_entries_cases [of list_no s offset n_entry ids_in code])
  case (loop idv)
  with assms(2) have "state_after
      (for_loop 0 n_entry (update_entries_body list_no offset ids_in code) s) = Some s'"
    by simp
  from this assms(1) update_entries_body_store_inv show ?thesis
    by (rule for_loop_state_invariant)
qed (use assms in auto)

lemma update_example:
  "update_entries flat_example_store 0 0 1 [9] [4]
     = Returns () (set_list flat_example_store 0 [9] [4, 0])"
  by (simp add: update_entries_def for_loop_fold counters_def update_entries_body_def
      packer_eval set_list_def at_def)

theorem update_entries_sizes_ok_witness:
  "sizes_ok (set_list flat_example_store 0 [9] [4, 0])"
  using update_entries_sizes_ok [OF flat_example_ok, of 0 0 1 "[9]" "[4]"]
  by (simp add: update_example packer_wf_def flat_packer_ok)

text \<open>
  C16.  An update that throws leaves the store as it was: the loop never throws, so
  the only exceptions are the two guards, and they come before any write.
\<close>

theorem update_entries_throws_unchanged:
  assumes "update_entries s list_no offset n_entry ids_in code = Throws e s'"
  shows "s' = s \<and>
    (\<not> list_no < nlist s \<or>
     (\<exists>idv. at (ids s) list_no = Some idv \<and> \<not> offset + n_entry \<le> of_nat (length idv)))"
proof (cases rule: update_entries_cases [of list_no s offset n_entry ids_in code])
  case (loop idv)
  with assms show ?thesis by (simp add: for_loop_no_throw)
qed (use assms in auto)

theorem update_entries_throws_unchanged_witness:
  "update_entries scenario_store 0 3 1 [99] (replicate 8 1) =
     Throws (FaissException ''(offset + n_entry) <= ids[list_no].size()'') scenario_store"
  using update_entries_throws_unchanged [of scenario_store 0 3 1 "[99]" "replicate 8 1"
      "FaissException ''(offset + n_entry) <= ids[list_no].size()''" scenario_store]
  by (simp add: update_entries_def scenario_sel)

section \<open>What the guards do not exclude\<close>

text \<open>
  C13.  \<open>update_entries\<close> uses the packer without testing it: on a store without a
  packer, an update of at least one entry inside the list passes both guards and
  dereferences the null packer in its first iteration.  It is undefined behaviour, not
  an exception.
\<close>

theorem update_entries_null_packer:
  assumes "list_no < nlist s" "at (ids s) list_no = Some idv" "packer s = None"
    and "n_entry \<noteq> 0" "ids_in \<noteq> []"
    and "unat offset < length idv" "offset + n_entry \<le> of_nat (length idv)"
  shows "update_entries s list_no offset n_entry ids_in code = Undefined NullDeref"
proof -
  from assms(5) have "at ids_in 0 = Some (ids_in ! 0)" by (simp add: at_def)
  with assms(2,3,6)
  have "update_entries_body list_no offset ids_in code 0 s = Undefined NullDeref"
    by (simp add: update_entries_body_def)
  moreover from assms(4) have "0 < n_entry" by (simp add: word_greater_zero_iff)
  ultimately have "for_loop 0 n_entry (update_entries_body list_no offset ids_in code) s
      = Undefined NullDeref"
    by (intro for_loop_first_undefined)
  with assms(1,2,7) show ?thesis by (simp add: update_entries_def)
qed

theorem update_entries_null_packer_witness:
  "update_entries (set_list (BlockInvertedLists_sized 2 4 32) 0 [10, 11, 12] (replicate 32 7))
     0 1 1 [99] (replicate 8 1) = Undefined NullDeref"
  using update_entries_null_packer [of 0
      "set_list (BlockInvertedLists_sized 2 4 32) 0 [10, 11, 12] (replicate 32 7)"
      "[10, 11, 12]" 1 "[99]" 1 "replicate 8 1"]
  by (simp add: set_list_def at_def)

text \<open>
  C14.  The range guard of \<open>update_entries\<close> adds \<open>offset\<close> and \<open>n_entry\<close> in
  \<open>size_t\<close>: an offset beyond the list passes it when the sum wraps, and the
  first iteration then writes outside the ids.
\<close>

theorem update_entries_wrapped_guard:
  assumes "list_no < nlist s" "at (ids s) list_no = Some idv"
    and "n_entry \<noteq> 0" "ids_in \<noteq> []"
    and "length idv \<le> unat offset" "offset + n_entry \<le> of_nat (length idv)"
  shows "update_entries s list_no offset n_entry ids_in code = Undefined OutOfBounds"
proof -
  from assms(4) have "at ids_in 0 = Some (ids_in ! 0)" by (simp add: at_def)
  with assms(2,5)
  have "update_entries_body list_no offset ids_in code 0 s = Undefined OutOfBounds"
    by (simp add: update_entries_body_def)
  moreover from assms(3) have "0 < n_entry" by (simp add: word_greater_zero_iff)
  ultimately have "for_loop 0 n_entry (update_entries_body list_no offset ids_in code) s
      = Undefined OutOfBounds"
    by (intro for_loop_first_undefined)
  with assms(1,2,6) show ?thesis by (simp add: update_entries_def)
qed

theorem update_entries_wrapped_guard_witness:
  "update_entries scenario_store 0 (- 1) 1 [99] (replicate 8 1) = Undefined OutOfBounds"
  using update_entries_wrapped_guard [of 0 scenario_store "[10, 11, 12]" 1 "[99]" "- 1"
      "replicate 8 1"]
  by (simp add: scenario_sel unat_size_max)

end
