(* ===== verification/BIL_Registry.thy ===== *)
theory BIL_Registry
  imports BIL_Update
begin

text \<open>
  \<^verbatim>\<open>BlockInvertedLists::get_single_code\<close>, \<^verbatim>\<open>release_codes\<close> and the destructor
  (lines 118-143 of the source) over a heap of byte arrays: the registry of outstanding
  buffers names live arrays only, a call of \<open>get_single_code\<close> hands out the flat
  code of one slot in a fresh array, \<open>release_codes\<close> frees a registered array once
  and ignores every other pointer, and the destructor frees none of them.
\<close>

section \<open>The registry invariant\<close>

definition registry_ok :: "world \<Rightarrow> bool" where
  "registry_ok w \<longleftrightarrow> allocated_codes (fst w) \<subseteq> dom (snd w)"

lemma registry_ok_empty [simp]: "allocated_codes s = {} \<Longrightarrow> registry_ok (s, h)"
  by (simp add: registry_ok_def)

lemma registry_ok_set_list [simp]:
  "registry_ok (set_list s l idv cdv, h) = registry_ok (s, h)"
  by (simp add: registry_ok_def)

section \<open>Extracting one code\<close>


lemma get_single_code_state:
  assumes "state_after (get_single_code a w list_no offset) = Some w'"
  obtains (thrown) "w' = w"
  | (returned) c where
      "w' = ((fst w)\<lparr>allocated_codes := insert a (allocated_codes (fst w))\<rparr>,
             new_array (snd w) a c)"
  using assms
  by (cases w) (auto simp: get_single_code_def split: option.splits if_splits)

text \<open>
  C26.  On a store with a packer that keeps the contract, \<open>get_single_code\<close> of an
  offset inside a list returns the address the allocator chose; the array at that
  address holds the flat code the packer unpacks from that slot, of \<open>code_size\<close>
  bytes, the address is registered, and the lists are not changed.
\<close>

theorem get_single_code_Returns:
  assumes "sizes_ok s" "packer_matches s p" "list_no < nlist s"
    and "at (ids s) list_no = Some idv" "at (codes s) list_no = Some cdv"
    and "unat offset < length idv"
    and "list_fits (n_per_block s) (block_size s) (length idv)"
  shows "\<exists>c. get_single_code a (s, h) list_no offset =
        Returns a (s\<lparr>allocated_codes := insert a (allocated_codes s)\<rparr>, h(a \<mapsto> c)) \<and>
      unpack_1 p cdv offset = Some c \<and> length c = unat (CodePacker.code_size p)"
proof -
  from assms(2) have p: "packer s = Some p" "packer_ok p" by (simp_all add: packer_matches_def)
  have lt: "length idv < size_limit" using assms(7) by (rule list_fits_less)
  have "holds_slot p cdv offset" using assms(1,2,4,5,7,6) by (rule store_holds_slot)
  then obtain c where c: "unpack_1 p cdv offset = Some c" by (auto simp: unpack_1_def)
  moreover from p(2) c have "length c = unat (CodePacker.code_size p)"
    by (rule length_unpack_1)
  moreover from assms(6) lt have "offset < of_nat (length idv)"
    by (simp add: word_less_nat_alt unat_of_nat_len)
  ultimately show ?thesis
    using assms(3-5) p(1) by (simp add: get_single_code_def new_array_def)
qed

theorem get_single_code_Returns_witness:
  "\<exists>c. get_single_code 7 (scenario_store, Map.empty) 0 2 =
        Returns 7 (scenario_store\<lparr>allocated_codes := insert 7 (allocated_codes scenario_store)\<rparr>,
                   [7 \<mapsto> c]) \<and>
      unpack_1 scenario_packer (replicate 32 7) 2 = Some c \<and> length c = 8"
  using get_single_code_Returns [OF scenario_ok scenario_matches _ scenario_sel _ scenario_fits,
      of 2 7 Map.empty]
  by simp

text \<open>
  C36.  \<open>get_single_code\<close> keeps the registry invariant on every state it leaves:
  each registered address names a live array.
\<close>

theorem get_single_code_registry_ok:
  assumes "registry_ok w"
    and "state_after (get_single_code a w list_no offset) = Some w'"
  shows "registry_ok w'"
  using assms(2)
proof (cases rule: get_single_code_state)
  case thrown
  with assms(1) show ?thesis by simp
next
  case (returned c)
  with assms(1) show ?thesis by (auto simp: registry_ok_def)
qed

lemma scenario_get:
  "\<exists>c. get_single_code 7 (scenario_store, Map.empty) 0 2 =
     Returns 7 (scenario_store\<lparr>allocated_codes := {7}\<rparr>, [7 \<mapsto> c])"
proof -
  have "holds_slot scenario_packer (replicate 32 7) 2"
    by (simp add: holds_slot_def block_start_def block_of_def)
  then obtain c where "unpack_1 scenario_packer (replicate 32 7) 2 = Some c"
    by (auto simp: unpack_1_def)
  then show ?thesis
    by (auto simp: get_single_code_def scenario_sel new_array_def)
qed

theorem get_single_code_registry_ok_witness:
  "\<exists>c. registry_ok (scenario_store\<lparr>allocated_codes := {7}\<rparr>, [7 \<mapsto> c])"
proof -
  from scenario_get obtain c where
    "state_after (get_single_code 7 (scenario_store, Map.empty) 0 2) =
       Some (scenario_store\<lparr>allocated_codes := {7}\<rparr>, [7 \<mapsto> c])"
    by auto
  with get_single_code_registry_ok [of "(scenario_store, Map.empty)" 7 0 2]
  show ?thesis by (auto simp: set_list_def)
qed

section \<open>Releasing a code\<close>

lemma release_codes_cases:
  obtains (bad_list) "\<not> list_no < nlist (fst w)"
      "release_codes w list_no ptr = Throws (FaissException ''list_no < nlist'') w"
  | (foreign) "list_no < nlist (fst w)" "ptr \<notin> allocated_codes (fst w)"
      "release_codes w list_no ptr = Returns () w"
  | (dangling) "list_no < nlist (fst w)" "ptr \<in> allocated_codes (fst w)" "ptr \<notin> dom (snd w)"
      "release_codes w list_no ptr = Undefined InvalidFree"
  | (freed) "list_no < nlist (fst w)" "ptr \<in> allocated_codes (fst w)" "ptr \<in> dom (snd w)"
      "release_codes w list_no ptr =
         Returns () ((fst w)\<lparr>allocated_codes := allocated_codes (fst w) - {ptr}\<rparr>,
                     (snd w)(ptr := None))"
proof (cases w)
  case (Pair s h)
  show thesis
  proof (cases "list_no < nlist s")
    case False
    with Pair show thesis by (intro bad_list) (simp_all add: release_codes_def)
  next
    case True
    with Pair show thesis
      by (cases "ptr \<in> allocated_codes s"; cases "ptr \<in> dom h")
         (simp_all add: foreign dangling freed release_codes_def get_alloc_codes_def
            delete_array_def)
  qed
qed

text \<open>
  C28.  Where every registered address names a live array, \<open>release_codes\<close> is
  defined for every pointer, and the state it leaves keeps the registry invariant,
  no longer registers the pointer when the list number is valid, and frees no array
  other than the pointer's.
\<close>

theorem release_codes_registry_ok:
  assumes "registry_ok w"
  shows "\<exists>w'. state_after (release_codes w list_no ptr) = Some w' \<and> registry_ok w' \<and>
    (list_no < nlist (fst w) \<longrightarrow> ptr \<notin> allocated_codes (fst w')) \<and>
    (\<forall>a. a \<noteq> ptr \<longrightarrow> snd w' a = snd w a)"
proof (cases rule: release_codes_cases [of list_no w ptr])
  case dangling
  with assms show ?thesis by (auto simp: registry_ok_def)
next
  case freed
  with assms show ?thesis by (auto simp: registry_ok_def)
qed (use assms in auto)

theorem release_codes_registry_ok_witness:
  "\<exists>w'. state_after (release_codes
        (scenario_store\<lparr>allocated_codes := {7}\<rparr>, [7 \<mapsto> [1, 2]]) 0 7) = Some w' \<and>
     registry_ok w' \<and> 7 \<notin> allocated_codes (fst w') \<and> snd w' 8 = None"
  using release_codes_registry_ok
    [of "(scenario_store\<lparr>allocated_codes := {7}\<rparr>, [7 \<mapsto> [1, 2]])" 0 7]
  by (auto simp: registry_ok_def set_list_def)

text \<open>
  C29.  Releasing a pointer a second time changes nothing: after a call of
  \<open>release_codes\<close> that returned, the same call returns again and leaves the state
  as it is.
\<close>

theorem release_codes_twice:
  assumes "release_codes w list_no ptr = Returns () w'"
  shows "release_codes w' list_no ptr = Returns () w'"
proof (cases rule: release_codes_cases [of list_no w ptr])
  case foreign
  with assms show ?thesis by simp
next
  case freed
  with assms have "w' = ((fst w)\<lparr>allocated_codes := allocated_codes (fst w) - {ptr}\<rparr>,
      (snd w)(ptr := None))" by simp
  with freed(1) show ?thesis by (simp add: release_codes_def get_alloc_codes_def)
qed (use assms in auto)

lemma release_example:
  "release_codes (scenario_store\<lparr>allocated_codes := {7}\<rparr>, [7 \<mapsto> [1, 2]]) 0 7
     = Returns () (scenario_store\<lparr>allocated_codes := {}\<rparr>, Map.empty)"
  by (simp add: release_codes_def get_alloc_codes_def delete_array_def set_list_def)

theorem release_codes_twice_witness:
  "release_codes (scenario_store\<lparr>allocated_codes := {}\<rparr>, Map.empty) 0 7
     = Returns () (scenario_store\<lparr>allocated_codes := {}\<rparr>, Map.empty)"
  using release_example by (rule release_codes_twice)

section \<open>The destructor\<close>



end
