(* ===== verification/BIL_Machine.thy ===== *)
theory BIL_Machine
  imports BIL_Resize BIL_Registry
begin

text \<open>
  The interface the store offers to an index: its operations as a datatype, one call
  as a function on the store and the heap, and runs of calls as an inductive
  relation.  A run goes on after an exception, as a caller that catches it would, and
  ends at undefined behaviour.  Each call keeps the invariant \<open>world_inv\<close>: the
  sizes, the packer's contract and the registry.  Under the invariant the three
  accessors of a list return views that fit each other, and the arrays that were
  handed out can all be released by a run of \<open>release_codes\<close> calls.
\<close>

section \<open>Operations and results\<close>

datatype op =
    Add_entries size_t size_t "idx_t list" "byte list"
  | Update_entries size_t size_t size_t "idx_t list" "byte list"
  | Resize size_t size_t
  | List_size size_t
  | Get_ids size_t
  | Get_codes size_t
  | Get_single_code addr size_t size_t
  | Release_codes size_t addr

datatype ret = Nothing | Word size_t | Ids "idx_t list" | Bytes "byte list" | Pointer addr

definition on_store ::
  "heap \<Rightarrow> ('a \<Rightarrow> ret) \<Rightarrow> ('a, BlockInvertedLists) outcome \<Rightarrow> (ret, world) outcome" where
  "on_store h r m =
     (case m of
        Returns a s \<Rightarrow> Returns (r a) (s, h)
      | Throws e s \<Rightarrow> Throws e (s, h)
      | Undefined u \<Rightarrow> Undefined u)"

definition on_world :: "('a \<Rightarrow> ret) \<Rightarrow> ('a, world) outcome \<Rightarrow> (ret, world) outcome" where
  "on_world r m =
     (case m of
        Returns a w \<Rightarrow> Returns (r a) w
      | Throws e w \<Rightarrow> Throws e w
      | Undefined u \<Rightarrow> Undefined u)"

fun call :: "(nat \<Rightarrow> byte) \<Rightarrow> op \<Rightarrow> world \<Rightarrow> (ret, world) outcome" where
  "call junk (Add_entries l n ids_in code) (s, h) =
     on_store h Word (add_entries junk s l n ids_in code)"
| "call junk (Update_entries l off n ids_in code) (s, h) =
     on_store h (\<lambda>_. Nothing) (update_entries s l off n ids_in code)"
| "call junk (Resize l n) (s, h) = on_store h (\<lambda>_. Nothing) (resize junk s l n)"
| "call junk (List_size l) (s, h) = on_store h Word (list_size s l)"
| "call junk (Get_ids l) (s, h) = on_store h Ids (get_ids s l)"
| "call junk (Get_codes l) (s, h) = on_store h Bytes (get_codes s l)"
| "call junk (Get_single_code a l off) (s, h) = on_world Pointer (get_single_code a (s, h) l off)"
| "call junk (Release_codes l ptr) (s, h) = on_world (\<lambda>_. Nothing) (release_codes (s, h) l ptr)"

text \<open>The allocator hands out an address that is not in use.\<close>

fun allocates_fresh :: "op \<Rightarrow> world \<Rightarrow> bool" where
  "allocates_fresh (Get_single_code a l off) (s, h) \<longleftrightarrow> a \<notin> dom h"
| "allocates_fresh _ _ \<longleftrightarrow> True"

inductive run :: "(nat \<Rightarrow> byte) \<Rightarrow> world \<Rightarrow> op list \<Rightarrow> world \<Rightarrow> bool" for junk where
  run_Nil: "run junk w [] w"
| run_Cons: "allocates_fresh c w \<Longrightarrow> state_after (call junk c w) = Some w' \<Longrightarrow>
     run junk w' cs w'' \<Longrightarrow> run junk w (c # cs) w''"

inductive_cases run_NilE [elim!]: "run junk w [] w'"
inductive_cases run_ConsE [elim!]: "run junk w (c # cs) w'"

text \<open>The same as a function: the state after a list of calls, if there is one.\<close>

fun run_calls :: "(nat \<Rightarrow> byte) \<Rightarrow> op list \<Rightarrow> world \<Rightarrow> world option" where
  "run_calls junk [] w = Some w"
| "run_calls junk (c # cs) w =
     (if allocates_fresh c w then
        (case state_after (call junk c w) of
           None \<Rightarrow> None
         | Some w' \<Rightarrow> run_calls junk cs w')
      else None)"

lemma run_iff_run_calls: "run junk w cs w' \<longleftrightarrow> run_calls junk cs w = Some w'"
proof
  show "run junk w cs w' \<Longrightarrow> run_calls junk cs w = Some w'"
    by (induction rule: run.induct) simp_all
  show "run_calls junk cs w = Some w' \<Longrightarrow> run junk w cs w'"
    by (induction cs arbitrary: w)
       (auto intro: run.intros split: if_splits option.splits)
qed

lemma run_append:
  "run junk w cs w' \<Longrightarrow> run junk w' ds w'' \<Longrightarrow> run junk w (cs @ ds) w''"
  by (induction rule: run.induct) (auto intro: run.intros)

section \<open>The invariant of the store and the heap\<close>

definition world_inv :: "world \<Rightarrow> bool" where
  "world_inv w \<longleftrightarrow> sizes_ok (fst w) \<and> packer_wf (fst w) \<and> registry_ok w"

lemma world_inv_iff:
  "world_inv (s, h) \<longleftrightarrow> store_inv (allocated_codes s) s \<and> allocated_codes s \<subseteq> dom h"
  by (auto simp: world_inv_def store_inv_def registry_ok_def)

lemma state_after_on_store:
  "state_after (on_store h r m) = Some w' \<longleftrightarrow> (\<exists>s'. state_after m = Some s' \<and> w' = (s', h))"
  by (cases m) (auto simp: on_store_def)

lemma state_after_on_world [simp]: "state_after (on_world r m) = state_after m"
  by (cases m) (simp_all add: on_world_def)

lemma world_inv_on_store:
  assumes "world_inv (s, h)" and "state_after (on_store h r m) = Some w'"
    and "\<And>A s'. store_inv A s \<Longrightarrow> state_after m = Some s' \<Longrightarrow> store_inv A s'"
  shows "world_inv w'"
proof -
  from assms(2) obtain s' where s': "state_after m = Some s'" and w': "w' = (s', h)"
    by (auto simp: state_after_on_store)
  from assms(1) have inv: "store_inv (allocated_codes s) s" and sub: "allocated_codes s \<subseteq> dom h"
    by (simp_all add: world_inv_iff)
  from assms(3) [OF inv s'] have "store_inv (allocated_codes s) s'" .
  with sub show ?thesis unfolding w' by (auto simp: world_inv_iff store_inv_def)
qed

lemma accessor_state:
  "state_after (list_size s l) = Some s' \<Longrightarrow> s' = s"
  "state_after (get_ids s l) = Some s' \<Longrightarrow> s' = s"
  "state_after (get_codes s l) = Some s' \<Longrightarrow> s' = s"
  by (auto simp: list_size_def get_ids_def get_codes_def split: if_splits option.splits)

lemma store_inv_allocated [simp]:
  "sizes_ok (s\<lparr>allocated_codes := X\<rparr>) = sizes_ok s"
  "packer_wf (s\<lparr>allocated_codes := X\<rparr>) = packer_wf s"
  by (simp_all add: sizes_ok_def packer_wf_def)

lemma world_inv_get_single_code:
  assumes "world_inv w" and "state_after (get_single_code a w l off) = Some w'"
  shows "world_inv w'"
  using assms(2)
proof (cases rule: get_single_code_state)
  case thrown
  with assms(1) show ?thesis by simp
next
  case (returned c)
  with assms(1) show ?thesis by (auto simp: world_inv_def registry_ok_def)
qed

lemma world_inv_release_codes:
  assumes "world_inv w" and "state_after (release_codes w l ptr) = Some w'"
  shows "world_inv w'"
proof (cases rule: release_codes_cases [of l w ptr])
  case freed
  with assms show ?thesis by (auto simp: world_inv_def registry_ok_def)
qed (use assms in auto)

lemma call_world_inv:
  assumes "world_inv w" and "state_after (call junk c w) = Some w'"
  shows "world_inv w'"
proof -
  obtain s h where w: "w = (s, h)" by (cases w)
  show ?thesis
  proof (cases c)
    case (Add_entries l n ids_in code)
    with assms show ?thesis unfolding w
      by (auto elim!: world_inv_on_store intro: add_entries_store_inv)
  next
    case (Update_entries l off n ids_in code)
    with assms show ?thesis unfolding w
      by (auto elim!: world_inv_on_store intro: update_entries_store_inv)
  next
    case (Resize l n)
    with assms show ?thesis unfolding w
      by (auto elim!: world_inv_on_store intro: resize_store_inv)
  next
    case (Get_single_code a l off)
    with assms show ?thesis unfolding w by (auto intro: world_inv_get_single_code)
  next
    case (Release_codes l ptr)
    with assms show ?thesis unfolding w by (auto intro: world_inv_release_codes)
  qed (use assms in \<open>auto simp: w state_after_on_store dest!: accessor_state\<close>)
qed

lemma run_world_inv: "run junk w cs w' \<Longrightarrow> world_inv w \<Longrightarrow> world_inv w'"
  by (induction rule: run.induct) (auto intro: call_world_inv)

lemma world_inv_sized [simp]: "world_inv (BlockInvertedLists_sized nl npb bs, h)"
  by (simp add: world_inv_def packer_wf_def registry_ok_def)

lemma world_inv_default [simp]: "world_inv (BlockInvertedLists_default, h)"
proof -
  have "packer BlockInvertedLists_default = None"
    "allocated_codes BlockInvertedLists_default = {}"
    by (simp_all add: BlockInvertedLists_default_def)
  then show ?thesis by (simp add: world_inv_def packer_wf_def registry_ok_def)
qed

lemma world_inv_packer:
  "BlockInvertedLists_packer nl (Some p) = Returns u s \<Longrightarrow> packer_ok p \<Longrightarrow> world_inv (s, h)"
  using sizes_ok_packer [of nl "Some p" u s]
  by (auto simp: world_inv_def packer_wf_def registry_ok_def BlockInvertedLists_packer_def)

section \<open>Arrays that were handed out\<close>

lemma call_keeps_array:
  assumes "allocates_fresh c w" and "state_after (call junk c w) = Some w'"
    and "snd w a = Some bytes" and "\<forall>l. c \<noteq> Release_codes l a"
  shows "snd w' a = Some bytes"
proof -
  obtain s h where w: "w = (s, h)" by (cases w)
  show ?thesis
  proof (cases c)
    case (Get_single_code b l off)
    with assms(1,3) have "b \<noteq> a" by (auto simp: w)
    with assms(2,3) Get_single_code show ?thesis
      by (auto simp: w new_array_def elim!: get_single_code_state)
  next
    case (Release_codes l ptr)
    with assms(4) have "ptr \<noteq> a" by simp
    with assms(2,3) Release_codes show ?thesis
      by (cases rule: release_codes_cases [of l w ptr]) (auto simp: w)
  qed (use assms(2,3) in \<open>auto simp: w state_after_on_store\<close>)
qed

text \<open>
  C35.  An array keeps its bytes for as long as it is not released: no call of a run
  writes to it or frees it, unless the call is \<open>release_codes\<close> of its address.
  This needs that the allocator never hands out an address that is in use.
\<close>

theorem run_keeps_array:
  assumes "run junk w cs w'" and "snd w a = Some bytes"
    and "\<forall>l. Release_codes l a \<notin> set cs"
  shows "snd w' a = Some bytes"
  using assms
proof (induction rule: run.induct)
  case (run_Nil w)
  then show ?case by simp
next
  case (run_Cons c w w' cs w'')
  from run_Cons.prems(2) have "\<forall>l. c \<noteq> Release_codes l a" by auto
  with run_Cons.hyps(1,2) run_Cons.prems(1) have "snd w' a = Some bytes"
    by (rule call_keeps_array)
  with run_Cons.IH run_Cons.prems(2) show ?case by simp
qed

lemma example_get:
  "get_single_code a (flat_example_store\<lparr>allocated_codes := X\<rparr>, h) 0 0 =
     Returns a (flat_example_store\<lparr>allocated_codes := insert a X\<rparr>, h(a \<mapsto> [1]))"
  by (simp add: get_single_code_def packer_eval set_list_def at_def new_array_def
      BlockInvertedLists_sized_def bil_defs)

lemma example_release:
  "release_codes (flat_example_store\<lparr>allocated_codes := {8, 7}\<rparr>, [7 \<mapsto> [1], 8 \<mapsto> [1]]) 0 8
     = Returns () (flat_example_store\<lparr>allocated_codes := {7}\<rparr>, [7 \<mapsto> [1]])"
  by (simp add: release_codes_def get_alloc_codes_def delete_array_def set_list_def
      BlockInvertedLists_sized_def bil_defs)

lemma example_run:
  "run junk (flat_example_store\<lparr>allocated_codes := {7}\<rparr>, [7 \<mapsto> [1]])
     [Get_single_code 8 0 0, Release_codes 0 8]
     (flat_example_store\<lparr>allocated_codes := {7}\<rparr>, [7 \<mapsto> [1]])"
  unfolding run_iff_run_calls by (simp add: example_get example_release on_world_def)

theorem run_keeps_array_witness:
  "snd (flat_example_store\<lparr>allocated_codes := {7}\<rparr>, [7 \<mapsto> [1 :: byte]]) 7 = Some [1]"
  using run_keeps_array [OF example_run, of 7 "[1]"] by simp

section \<open>The views of a list\<close>

text \<open>
  C24.  In every state that satisfies the invariant, the three accessors of a list
  that exists return, each a value of its own kind, and the values fit together:
  \<open>list_size\<close> is the number of ids \<open>get_ids\<close> returns, and \<open>get_codes\<close> returns
  the buffer of as many blocks as that size needs.  None of them changes the state.
\<close>

theorem accessors_typed:
  assumes "world_inv w" "l < nlist (fst w)"
  shows "\<exists>n idv cdv. call junk (List_size l) w = Returns (Word n) w \<and>
      call junk (Get_ids l) w = Returns (Ids idv) w \<and>
      call junk (Get_codes l) w = Returns (Bytes cdv) w \<and>
      unat n = length idv \<and>
      length cdv = unat (n_block_for n (n_per_block (fst w)) * block_size (fst w))"
proof -
  obtain s h where w: "w = (s, h)" by (cases w)
  from assms have ok: "sizes_ok s" and l: "l < nlist s" by (simp_all add: w world_inv_def)
  then have "unat l < length (ids s)" "unat l < length (codes s)"
    by (simp_all add: sizes_ok_def word_less_nat_alt)
  then obtain idv cdv where at: "at (ids s) l = Some idv" "at (codes s) l = Some cdv"
    by (auto simp: at_Some_iff)
  from sizes_ok_at_Some [OF ok at] have sz: "length idv < size_limit"
    "length cdv = unat (n_block_for (of_nat (length idv)) (n_per_block s) * block_size s)"
    by (simp_all add: list_sizes_ok_def)
  from sz(1) have n: "unat (of_nat (length idv) :: size_t) = length idv"
    by (simp add: unat_of_nat_len)
  have calls: "call junk (List_size l) (s, h) = Returns (Word (of_nat (length idv))) (s, h)"
    "call junk (Get_ids l) (s, h) = Returns (Ids idv) (s, h)"
    "call junk (Get_codes l) (s, h) = Returns (Bytes cdv) (s, h)"
    using at l by (simp_all add: list_size_def get_ids_def get_codes_def on_store_def)
  show ?thesis unfolding w fst_conv
    by (rule exI [of _ "of_nat (length idv)"], rule exI [of _ idv], rule exI [of _ cdv])
       (intro conjI calls n sz(2))
qed


lemma world_inv_flat_example: "world_inv (flat_example_store, Map.empty)"
  by (simp add: world_inv_def flat_example_ok packer_wf_def flat_packer_ok)

theorem accessors_typed_witness:
  "call (\<lambda>_. 0) (List_size 0) (flat_example_store, Map.empty) =
     Returns (Word 1) (flat_example_store, Map.empty) \<and>
   call (\<lambda>_. 0) (Get_ids 0) (flat_example_store, Map.empty) =
     Returns (Ids [5]) (flat_example_store, Map.empty) \<and>
   call (\<lambda>_. 0) (Get_codes 0) (flat_example_store, Map.empty) =
     Returns (Bytes [1, 0]) (flat_example_store, Map.empty)"
  using accessors_typed [OF world_inv_flat_example, of 0 "\<lambda>_. 0"]
  by (simp add: list_size_def get_ids_def get_codes_def on_store_def at_def set_list_def
      BlockInvertedLists_sized_def)

section \<open>Releasing what was handed out\<close>

text \<open>
  A registry is finite in every state a run reaches from a finite one, and from a
  state with a finite registry a run of \<open>release_codes\<close>, one call for each
  registered address, empties it.
\<close>

lemma finite_on_store:
  assumes "world_inv (s, h)" "finite (allocated_codes s)"
    and "state_after (on_store h r m) = Some w'"
    and "\<And>A s'. store_inv A s \<Longrightarrow> state_after m = Some s' \<Longrightarrow> store_inv A s'"
  shows "finite (allocated_codes (fst w'))"
proof -
  from assms(3) obtain s' where s': "state_after m = Some s'" "w' = (s', h)"
    by (auto simp: state_after_on_store)
  from assms(1) have "store_inv (allocated_codes s) s" by (simp add: world_inv_iff)
  from assms(4) [OF this s'(1)] assms(2) s'(2) show ?thesis by (simp add: store_inv_def)
qed

lemma call_finite_registry:
  assumes "world_inv w" "finite (allocated_codes (fst w))" "state_after (call junk c w) = Some w'"
  shows "finite (allocated_codes (fst w'))"
proof -
  obtain s h where w: "w = (s, h)" by (cases w)
  show ?thesis
  proof (cases c)
    case (Add_entries l n ids_in code)
    with assms show ?thesis unfolding w
      by (auto elim!: finite_on_store intro: add_entries_store_inv)
  next
    case (Update_entries l off n ids_in code)
    with assms show ?thesis unfolding w
      by (auto elim!: finite_on_store intro: update_entries_store_inv)
  next
    case (Resize l n)
    with assms show ?thesis unfolding w
      by (auto elim!: finite_on_store intro: resize_store_inv)
  next
    case (Get_single_code a l off)
    with assms(2,3) show ?thesis unfolding w
      by (auto elim!: get_single_code_state)
  next
    case (Release_codes l ptr)
    with assms(2,3) show ?thesis
      by (cases rule: release_codes_cases [of l w ptr]) (auto simp: w)
  qed (use assms in \<open>auto simp: w state_after_on_store dest!: accessor_state\<close>)
qed

lemma run_finite_registry:
  "run junk w cs w' \<Longrightarrow> world_inv w \<Longrightarrow> finite (allocated_codes (fst w)) \<Longrightarrow>
   finite (allocated_codes (fst w'))"
  by (induction rule: run.induct) (auto intro: call_finite_registry call_world_inv)

lemma release_call:
  assumes "world_inv (s, h)" "a \<in> allocated_codes s" "l < nlist s"
  shows "call junk (Release_codes l a) (s, h) =
    Returns Nothing (s\<lparr>allocated_codes := allocated_codes s - {a}\<rparr>, h(a := None))"
proof (cases rule: release_codes_cases [of l "(s, h)" a])
  case freed
  then show ?thesis by (simp add: on_world_def)
qed (use assms in \<open>auto simp: world_inv_def registry_ok_def\<close>)

lemma drain_registry:
  assumes "finite A"
  shows "world_inv (s, h) \<Longrightarrow> allocated_codes s = A \<Longrightarrow> l < nlist s \<Longrightarrow>
    \<exists>cs. run junk (s, h) cs (s\<lparr>allocated_codes := {}\<rparr>, \<lambda>a. if a \<in> A then None else h a) \<and>
      set cs = Release_codes l ` A \<and> length cs = card A"
  using assms
proof (induction A arbitrary: s h rule: finite_induct)
  case empty
  then have "s\<lparr>allocated_codes := {}\<rparr> = s" by (cases s) simp
  then have "run junk (s, h) [] (s\<lparr>allocated_codes := {}\<rparr>, \<lambda>a. if a \<in> {} then None else h a)"
    by (simp add: run_Nil)
  then show ?case by (intro exI [of _ "[]"]) simp
next
  case (insert a A)
  let ?s = "s\<lparr>allocated_codes := A\<rparr>" and ?h = "h(a := None)"
  from insert.prems(2) insert.hyps(2) have "allocated_codes s - {a} = A" by simp
  with release_call [OF insert.prems(1) _ insert.prems(3), of a junk] insert.prems(2)
  have step: "call junk (Release_codes l a) (s, h) = Returns Nothing (?s, ?h)" by simp
  then have "state_after (call junk (Release_codes l a) (s, h)) = Some (?s, ?h)" by simp
  from call_world_inv [OF insert.prems(1) this] have inv: "world_inv (?s, ?h)" .
  have "allocated_codes ?s = A" "l < nlist ?s" using insert.prems(3) by simp_all
  from insert.IH [OF inv this] obtain cs where
    cs: "run junk (?s, ?h) cs (?s\<lparr>allocated_codes := {}\<rparr>, \<lambda>b. if b \<in> A then None else ?h b)"
    "set cs = Release_codes l ` A" "length cs = card A" by blast
  have heap: "(\<lambda>b. if b \<in> A then None else ?h b) = (\<lambda>b. if b \<in> insert a A then None else h b)"
    by (rule ext) simp
  have "run junk (s, h) (Release_codes l a # cs)
      (?s\<lparr>allocated_codes := {}\<rparr>, \<lambda>b. if b \<in> A then None else ?h b)"
    using cs(1) step by (intro run_Cons [where w' = "(?s, ?h)"]) simp_all
  then have "run junk (s, h) (Release_codes l a # cs)
      (s\<lparr>allocated_codes := {}\<rparr>, \<lambda>b. if b \<in> insert a A then None else h b)"
    unfolding heap by simp
  moreover have "set (Release_codes l a # cs) = Release_codes l ` insert a A"
    "length (Release_codes l a # cs) = card (insert a A)"
    using cs(2,3) insert.hyps by simp_all
  ultimately show ?case by (intro exI [of _ "Release_codes l a # cs"] conjI)
qed

end
