(* ===== verification/BIL_IO.thy ===== *)
theory BIL_IO
  imports Block_Inverted_Lists
begin

text \<open>
  The serialization hook \<^verbatim>\<open>BlockInvertedListsIOHook\<close> (lines 149-186 of the source)
  over byte streams: the fixed-width little-endian integers the I/O macros write
  and read, the two macros for vectors, the hook's \<open>write\<close> and \<open>read\<close> (here \<open>IOHook_write\<close> and \<open>IOHook_read\<close>), and the
  dispatcher that consumes the format tag.  The lemmas give the layout \<open>write\<close>
  produces, the round trip through \<open>read\<close>, and what \<open>read\<close> does on a stream that
  is short or inconsistent.
\<close>

section \<open>Little-endian integers\<close>

primrec le_bytes :: "nat \<Rightarrow> nat \<Rightarrow> byte list" where
  "le_bytes 0 n = []"
| "le_bytes (Suc k) n = of_nat (n mod 256) # le_bytes k (n div 256)"

primrec le_nat :: "byte list \<Rightarrow> nat" where
  "le_nat [] = 0"
| "le_nat (b # bs) = unat b + 256 * le_nat bs"

lemma length_le_bytes [simp]: "length (le_bytes k n) = k"
  by (induction k arbitrary: n) simp_all

lemma le_bytes_numeral:
  "le_bytes (numeral k) n = of_nat (n mod 256) # le_bytes (pred_numeral k) (n div 256)"
proof -
  have "le_bytes (Suc (pred_numeral k)) n
      = of_nat (n mod 256) # le_bytes (pred_numeral k) (n div 256)"
    by (rule le_bytes.simps)
  then show ?thesis by (simp only: numeral_eq_Suc [symmetric])
qed

lemma le_bytes_1: "le_bytes 1 n = [of_nat (n mod 256)]"
  unfolding One_nat_def by simp

lemma unat_byte_of_nat: "unat (of_nat (n mod 256) :: byte) = n mod 256"
  by (simp add: unat_of_nat)

lemma le_nat_le_bytes: "le_nat (le_bytes k n) = n mod 256 ^ k"
proof (induction k arbitrary: n)
  case 0
  show ?case by simp
next
  case (Suc k)
  have "n mod (256 * 256 ^ k) = 256 * (n div 256 mod 256 ^ k) + n mod 256"
    by (rule mod_mult2_eq)
  with Suc show ?case by (simp add: unat_byte_of_nat)
qed

lemma le_nat_less: "le_nat bs < 256 ^ length bs"
proof (induction bs)
  case Nil
  show ?case by simp
next
  case (Cons b bs)
  have "unat b < 256" using unsigned_less [of b, where 'a = nat] by simp
  with Cons show ?case by simp
qed

lemma le_bytes_le_nat: "le_bytes (length bs) (le_nat bs) = bs"
proof (induction bs)
  case Nil
  show ?case by simp
next
  case (Cons b bs)
  have b: "unat b < 256" using unsigned_less [of b, where 'a = nat] by simp
  then have "(unat b + 256 * le_nat bs) mod 256 = unat b"
    and "(unat b + 256 * le_nat bs) div 256 = le_nat bs"
    by simp_all
  with Cons show ?case by simp
qed

text \<open>A \<open>size_t\<close> or an \<open>idx_t\<close> as eight bytes, and back.\<close>

definition put_u64 :: "64 word \<Rightarrow> byte list" where
  "put_u64 w = le_bytes 8 (unat w)"

definition get_u64 :: "byte list \<Rightarrow> 64 word" where
  "get_u64 bs = of_nat (le_nat (take 8 bs))"

lemma length_put_u64 [simp]: "length (put_u64 w) = 8"
  by (simp add: put_u64_def)

lemma get_put_u64 [simp]: "get_u64 (put_u64 w @ rest) = w"
proof -
  have "unat w mod 256 ^ 8 = unat w"
    using unat_size_t_bound [of w] by simp
  then show ?thesis by (simp add: get_u64_def put_u64_def le_nat_le_bytes)
qed

lemma put_get_u64: "8 \<le> length bs \<Longrightarrow> put_u64 (get_u64 bs) = take 8 bs"
proof -
  assume "8 \<le> length bs"
  then have len: "length (take 8 bs) = 8" by simp
  have "le_nat (take 8 bs) < size_limit"
    using le_nat_less [of "take 8 bs"] unfolding len by simp
  then have "unat (of_nat (le_nat (take 8 bs)) :: 64 word) = le_nat (take 8 bs)"
    by (rule unat_of_nat_len)
  moreover have "le_bytes 8 (le_nat (take 8 bs)) = take 8 bs"
    using le_bytes_le_nat [of "take 8 bs"] unfolding len .
  ultimately show ?thesis by (simp add: get_u64_def put_u64_def)
qed

section \<open>Streams and the I/O macros\<close>

text \<open>
  A writer is the list of bytes written so far; it accepts every write.  A reader is
  the list of bytes not yet read; a read of more bytes than it holds fails, and the
  macro throws.  Integers are written in the byte order of the host, taken to be
  little-endian.
\<close>

type_synonym IOWriter = "byte list"
type_synonym IOReader = "byte list"

definition fourcc :: "string \<Rightarrow> 32 word" where
  "fourcc sx = of_nat (le_nat (map (\<lambda>c. of_nat (of_char c)) (take 4 sx)))"

definition WRITE1_u32 :: "32 word \<Rightarrow> IOWriter \<Rightarrow> (unit, IOWriter) outcome" where
  "WRITE1_u32 x f = Returns () (f @ le_bytes 4 (unat x))"

definition WRITE1 :: "size_t \<Rightarrow> IOWriter \<Rightarrow> (unit, IOWriter) outcome" where
  "WRITE1 x f = Returns () (f @ put_u64 x)"

definition WRITEVECTOR_idx :: "idx_t list \<Rightarrow> IOWriter \<Rightarrow> (unit, IOWriter) outcome" where
  "WRITEVECTOR_idx vec f =
     and_then (WRITE1 (of_nat (length vec)) f)
       (\<lambda>_ f. Returns () (f @ concat (map put_u64 vec)))"

definition WRITEVECTOR_u8 :: "byte list \<Rightarrow> IOWriter \<Rightarrow> (unit, IOWriter) outcome" where
  "WRITEVECTOR_u8 vec f =
     and_then (WRITE1 (of_nat (length vec)) f) (\<lambda>_ f. Returns () (f @ vec))"

definition READ1_u32 :: "IOReader \<Rightarrow> (32 word, IOReader) outcome" where
  "READ1_u32 f =
     (if 4 \<le> length f then Returns (of_nat (le_nat (take 4 f))) (drop 4 f)
      else Throws (FaissException ''read error'') f)"

definition READ1 :: "IOReader \<Rightarrow> (size_t, IOReader) outcome" where
  "READ1 f =
     (if 8 \<le> length f then Returns (get_u64 f) (drop 8 f)
      else Throws (FaissException ''read error'') f)"

fun get_idx :: "nat \<Rightarrow> byte list \<Rightarrow> idx_t list" where
  "get_idx 0 bs = []"
| "get_idx (Suc n) bs = get_u64 bs # get_idx n (drop 8 bs)"

definition READVECTOR_idx :: "IOReader \<Rightarrow> (idx_t list, IOReader) outcome" where
  "READVECTOR_idx f =
     and_then (READ1 f)
       (\<lambda>size f. if 8 * unat size \<le> length f
                 then Returns (get_idx (unat size) f) (drop (8 * unat size) f)
                 else Throws (FaissException ''read error'') f)"

definition READVECTOR_u8 :: "IOReader \<Rightarrow> (byte list, IOReader) outcome" where
  "READVECTOR_u8 f =
     and_then (READ1 f)
       (\<lambda>size f. if unat size \<le> length f
                 then Returns (take (unat size) f) (drop (unat size) f)
                 else Throws (FaissException ''read error'') f)"

section \<open>The hook\<close>

definition BlockInvertedListsIOHook :: "string \<times> string" where
  "BlockInvertedListsIOHook = (''ilbl'', ''BlockInvertedLists'')"

definition write_body :: "BlockInvertedLists \<Rightarrow> size_t \<Rightarrow> IOWriter \<Rightarrow> (unit, IOWriter) outcome" where
  "write_body il i f =
     (case (at (ids il) i, at (codes il) i) of
        (Some idv, Some cdv) \<Rightarrow> and_then (WRITEVECTOR_idx idv f) (\<lambda>_. WRITEVECTOR_u8 cdv)
      | _ \<Rightarrow> Undefined OutOfBounds)"

definition IOHook_write :: "BlockInvertedLists option \<Rightarrow> IOWriter \<Rightarrow> (unit, IOWriter) outcome" where
  "IOHook_write ils_in f =
     and_then (WRITE1_u32 (fourcc ''ilbl'') f) (\<lambda>_ f.
       case ils_in of
         None \<Rightarrow> Undefined NullDeref
       | Some il \<Rightarrow>
           and_then (WRITE1 (nlist il) f) (\<lambda>_ f.
           and_then (WRITE1 (code_size il) f) (\<lambda>_ f.
           and_then (WRITE1 (n_per_block il) f) (\<lambda>_ f.
           and_then (WRITE1 (block_size il) f) (\<lambda>_.
           for_loop 0 (nlist il) (write_body il))))))"

definition with_store ::
  "BlockInvertedLists \<Rightarrow> ('a, IOReader) outcome \<Rightarrow> ('a, BlockInvertedLists \<times> IOReader) outcome" where
  "with_store il m =
     (case m of
        Returns a f \<Rightarrow> Returns a (il, f)
      | Throws e f \<Rightarrow> Throws e (il, f)
      | Undefined u \<Rightarrow> Undefined u)"

definition read_body ::
  "size_t \<Rightarrow> BlockInvertedLists \<times> IOReader \<Rightarrow> (unit, BlockInvertedLists \<times> IOReader) outcome" where
  "read_body i st =
     (case st of (il, f) \<Rightarrow>
        and_then (with_store il (READVECTOR_idx f)) (\<lambda>idv (il, f).
          if \<not> unat i < length (ids il) then Undefined OutOfBounds
          else
            and_then (with_store (il\<lparr>ids := (ids il)[unat i := idv]\<rparr>) (READVECTOR_u8 f))
              (\<lambda>cdv (il, f).
                 if \<not> unat i < length (codes il) then Undefined OutOfBounds
                 else Returns () (il\<lparr>codes := (codes il)[unat i := cdv]\<rparr>, f))))"

definition IOHook_read :: "IOReader \<Rightarrow> (BlockInvertedLists, IOReader) outcome" where
  "IOHook_read f =
     and_then (READ1 f) (\<lambda>nl f.
     and_then (READ1 f) (\<lambda>cs f.
     and_then (READ1 f) (\<lambda>npb f.
     and_then (READ1 f) (\<lambda>bs f.
       (let il = BlockInvertedLists_default
                   \<lparr>nlist := nl, code_size := cs, n_per_block := npb, block_size := bs\<rparr>;
            il = il\<lparr>ids := vector_resize (ids il) (unat nl) [],
                    codes := vector_resize (codes il) (unat nl) []\<rparr>
        in case for_loop 0 nl read_body (il, f) of
             Returns _ (il, f) \<Rightarrow> Returns il f
           | Throws e (il, f) \<Rightarrow> Throws e f
           | Undefined u \<Rightarrow> Undefined u)))))"

definition read_InvertedLists :: "IOReader \<Rightarrow> (BlockInvertedLists, IOReader) outcome" where
  "read_InvertedLists f =
     and_then (READ1_u32 f) (\<lambda>h f.
       if h = fourcc (fst BlockInvertedListsIOHook) then IOHook_read f
       else Throws (FaissException ''read_InvertedLists: unknown format'') f)"

section \<open>Reading back what the macros wrote\<close>

lemma length_put_idx [simp]: "length (concat (map put_u64 vec)) = 8 * length vec"
  by (induction vec) simp_all

lemma get_idx_put [simp]: "get_idx (length vec) (concat (map put_u64 vec) @ rest) = vec"
  by (induction vec) simp_all

lemma READ1_put [simp]: "READ1 (put_u64 w @ rest) = Returns w rest"
  by (simp add: READ1_def)

lemma READVECTOR_idx_put:
  "length vec < size_limit \<Longrightarrow>
   READVECTOR_idx (put_u64 (of_nat (length vec)) @ concat (map put_u64 vec) @ rest)
     = Returns vec rest"
  by (simp add: READVECTOR_idx_def unat_of_nat_len)

lemma READVECTOR_u8_put:
  "length vec < size_limit \<Longrightarrow>
   READVECTOR_u8 (put_u64 (of_nat (length vec)) @ vec @ rest) = Returns vec rest"
  by (simp add: READVECTOR_u8_def unat_of_nat_len)

section \<open>The layout of one list and of all lists\<close>

definition list_bytes :: "idx_t list \<Rightarrow> byte list \<Rightarrow> byte list" where
  "list_bytes idv cdv =
     put_u64 (of_nat (length idv)) @ concat (map put_u64 idv) @
     put_u64 (of_nat (length cdv)) @ cdv"

definition lists_bytes :: "idx_t list list \<Rightarrow> byte list list \<Rightarrow> nat \<Rightarrow> nat \<Rightarrow> byte list" where
  "lists_bytes idss cdss a b = concat (map (\<lambda>i. list_bytes (idss ! i) (cdss ! i)) [a..<b])"

lemma lists_bytes_empty [simp]: "lists_bytes idss cdss a a = []"
  by (simp add: lists_bytes_def)

lemma lists_bytes_Cons:
  "a < b \<Longrightarrow>
   lists_bytes idss cdss a b = list_bytes (idss ! a) (cdss ! a) @ lists_bytes idss cdss (Suc a) b"
  by (simp add: lists_bytes_def upt_conv_Cons)

lemma write_body_bytes:
  "unat i < length (ids il) \<Longrightarrow> unat i < length (codes il) \<Longrightarrow>
   write_body il i f = Returns () (f @ list_bytes (ids il ! unat i) (codes il ! unat i))"
  by (simp add: write_body_def at_def WRITEVECTOR_idx_def WRITEVECTOR_u8_def WRITE1_def
      list_bytes_def)

lemma write_loop:
  assumes "unat n \<le> length (ids il)" "unat n \<le> length (codes il)" "k \<le> n"
  shows "for_loop k n (write_body il) f =
     Returns () (f @ lists_bytes (ids il) (codes il) (unat k) (unat n))"
  using assms
proof (induction k n "write_body il" f rule: for_loop.induct)
  case (1 i n f)
  show ?case
  proof (cases "i < n")
    case True
    then have lt: "unat i < unat n" by (simp add: word_less_nat_alt)
    with 1(2,3) have step: "write_body il i f =
        Returns () (f @ list_bytes (ids il ! unat i) (codes il ! unat i))"
      by (intro write_body_bytes) simp_all
    note suc = unat_counter_Suc [OF True]
    from 1(1) [OF True step 1(2,3) suc(2)] lt show ?thesis
      by (subst for_loop.simps) (simp add: True step suc(1) lists_bytes_Cons)
  next
    case False
    with 1(4) have "i = n" by simp
    then show ?thesis by simp
  qed
qed

section \<open>What \<open>write\<close> produces\<close>

definition header_bytes :: "BlockInvertedLists \<Rightarrow> byte list" where
  "header_bytes il =
     le_bytes 4 (unat (fourcc ''ilbl'')) @ put_u64 (nlist il) @ put_u64 (code_size il) @
     put_u64 (n_per_block il) @ put_u64 (block_size il)"

lemma fourcc_ilbl: "le_bytes 4 (unat (fourcc ''ilbl'')) = [0x69, 0x6C, 0x62, 0x6C]"
  by (simp add: fourcc_def le_bytes_numeral le_bytes_1)

lemma length_header_bytes [simp]: "length (header_bytes il) = 36"
  by (simp add: header_bytes_def)

lemma IOHook_write_bytes:
  assumes "length (ids il) = unat (nlist il)" "length (codes il) = unat (nlist il)"
  shows "IOHook_write (Some il) f =
     Returns () (f @ header_bytes il @ lists_bytes (ids il) (codes il) 0 (unat (nlist il)))"
  using write_loop [of "nlist il" il 0] assms
  by (simp add: IOHook_write_def WRITE1_u32_def WRITE1_def header_bytes_def)

text \<open>
  C30.  \<open>write\<close> appends to the stream, in this order, the tag \<open>ilbl\<close> in four
  bytes, \<open>nlist\<close>, \<open>code_size\<close>, \<open>n_per_block\<close> and \<open>block_size\<close> in eight bytes
  each, and for each list in turn the number of ids, the ids, the number of code
  bytes and the code bytes.
\<close>

theorem IOHook_write_layout:
  assumes "length (ids il) = unat (nlist il)" "length (codes il) = unat (nlist il)"
  shows "IOHook_write (Some il) f =
     Returns () (f @ [0x69, 0x6C, 0x62, 0x6C] @
       put_u64 (nlist il) @ put_u64 (code_size il) @
       put_u64 (n_per_block il) @ put_u64 (block_size il) @
       concat (map (\<lambda>i. put_u64 (of_nat (length (ids il ! i))) @
                          concat (map put_u64 (ids il ! i)) @
                          put_u64 (of_nat (length (codes il ! i))) @ codes il ! i)
                 [0..<unat (nlist il)]))"
  using IOHook_write_bytes [OF assms, of f]
  by (simp add: header_bytes_def fourcc_ilbl lists_bytes_def list_bytes_def)

theorem IOHook_write_layout_witness:
  "IOHook_write (Some (BlockInvertedLists_sized 0 4 32)) [] =
     Returns () ([0x69, 0x6C, 0x62, 0x6C] @ put_u64 0 @ put_u64 INVALID_CODE_SIZE @
                 put_u64 4 @ put_u64 32)"
  using IOHook_write_layout [of "BlockInvertedLists_sized 0 4 32" "[]"] by simp

section \<open>What \<open>read\<close> rebuilds\<close>

lemma READ1_u32_put [simp]: "READ1_u32 (le_bytes 4 (unat (h :: 32 word)) @ rest) = Returns h rest"
proof -
  have "unat h mod 256 ^ 4 = unat h"
    using unsigned_less [of h, where 'a = nat] by simp
  then show ?thesis by (simp add: READ1_u32_def le_nat_le_bytes)
qed

lemma read_body_bytes:
  assumes "unat i < length (ids il)" "unat i < length (codes il)"
    and "length idv < size_limit" "length cdv < size_limit"
  shows "read_body i (il, list_bytes idv cdv @ rest) =
     Returns () (il\<lparr>ids := (ids il)[unat i := idv], codes := (codes il)[unat i := cdv]\<rparr>, rest)"
  using assms READVECTOR_idx_put [OF assms(3), of "put_u64 (of_nat (length cdv)) @ cdv @ rest"]
    READVECTOR_u8_put [OF assms(4), of rest]
  by (simp add: read_body_def list_bytes_def with_store_def)

lemma take_Suc_update:
  "i < length xs \<Longrightarrow> i < length ys \<Longrightarrow> take i xs = take i ys \<Longrightarrow>
   take (Suc i) (xs[i := ys ! i]) = take (Suc i) ys"
  by (simp add: take_Suc_conv_app_nth)

lemma read_loop:
  assumes "length idss = unat n" "length cdss = unat n"
    and "\<forall>idv \<in> set idss. length idv < size_limit"
    and "\<forall>cdv \<in> set cdss. length cdv < size_limit"
  shows "k \<le> n \<Longrightarrow> length (ids il) = unat n \<Longrightarrow> length (codes il) = unat n \<Longrightarrow>
    take (unat k) (ids il) = take (unat k) idss \<Longrightarrow>
    take (unat k) (codes il) = take (unat k) cdss \<Longrightarrow>
    for_loop k n read_body (il, lists_bytes idss cdss (unat k) (unat n) @ rest) =
      Returns () (il\<lparr>ids := idss, codes := cdss\<rparr>, rest)"
proof (induction "unat n - unat k" arbitrary: k il)
  case 0
  then have "k = n" by (simp add: word_le_nat_alt word_unat_eq_iff)
  with 0 assms(1,2) show ?case by simp
next
  case (Suc m)
  then have lt: "k < n" and k: "unat k < unat n" by (simp_all add: word_less_nat_alt)
  note suc = unat_counter_Suc [OF lt]
  let ?il1 = "il\<lparr>ids := (ids il)[unat k := idss ! unat k],
      codes := (codes il)[unat k := cdss ! unat k]\<rparr>"
  from k assms have "length (idss ! unat k) < size_limit" "length (cdss ! unat k) < size_limit"
    by simp_all
  with k Suc.prems(2,3) have step: "read_body k
      (il, list_bytes (idss ! unat k) (cdss ! unat k) @
           lists_bytes idss cdss (Suc (unat k)) (unat n) @ rest) =
      Returns () (?il1, lists_bytes idss cdss (Suc (unat k)) (unat n) @ rest)"
    by (intro read_body_bytes) simp_all
  have "for_loop (k + 1) n read_body
      (?il1, lists_bytes idss cdss (unat (k + 1)) (unat n) @ rest) =
      Returns () (?il1\<lparr>ids := idss, codes := cdss\<rparr>, rest)"
    using Suc.hyps(2) Suc.prems k assms(1,2) suc
    by (intro Suc.hyps(1)) (simp_all add: take_Suc_update)
  with step k show ?case
    by (subst for_loop.simps) (simp add: lt suc(1) lists_bytes_Cons)
qed

lemma IOHook_read_bytes:
  assumes "length (ids s) = unat (nlist s)" "length (codes s) = unat (nlist s)"
    and "\<forall>idv \<in> set (ids s). length idv < size_limit"
    and "\<forall>cdv \<in> set (codes s). length cdv < size_limit"
  shows "read_InvertedLists
       (header_bytes s @ lists_bytes (ids s) (codes s) 0 (unat (nlist s)) @ rest) =
     Returns (s\<lparr>packer := None, allocated_codes := {}\<rparr>) rest"
proof -
  let ?il = "BlockInvertedLists_default
      \<lparr>nlist := nlist s, code_size := code_size s, n_per_block := n_per_block s,
       block_size := block_size s, ids := vector_resize [] (unat (nlist s)) [],
       codes := vector_resize [] (unat (nlist s)) []\<rparr>"
  have "for_loop 0 (nlist s) read_body
      (?il, lists_bytes (ids s) (codes s) (unat (0 :: size_t)) (unat (nlist s)) @ rest) =
      Returns () (?il\<lparr>ids := ids s, codes := codes s\<rparr>, rest)"
    using assms by (intro read_loop) simp_all
  moreover have "?il\<lparr>ids := ids s, codes := codes s\<rparr> = s\<lparr>packer := None, allocated_codes := {}\<rparr>"
    by (cases s) (simp add: BlockInvertedLists_default_def)
  ultimately show ?thesis
    by (simp add: read_InvertedLists_def BlockInvertedListsIOHook_def header_bytes_def
        IOHook_read_def BlockInvertedLists_default_def)
qed

text \<open>
  C23.  Writing a store that satisfies the size invariant and reading the bytes back
  through the dispatcher returns a store with the same sizes, ids and packed bytes,
  without a packer and with an empty registry, and leaves the reader at the byte
  after the store.
\<close>

theorem IOHook_write_read:
  assumes "sizes_ok s"
  shows "\<exists>bytes. IOHook_write (Some s) [] = Returns () bytes \<and>
     read_InvertedLists (bytes @ rest) =
       Returns (s\<lparr>packer := None, allocated_codes := {}\<rparr>) rest"
proof -
  from assms have len: "length (ids s) = unat (nlist s)" "length (codes s) = unat (nlist s)"
    by (simp_all add: sizes_ok_def)
  from IOHook_write_bytes [OF len, of "[]"]
    IOHook_read_bytes [OF len sizes_ok_lengths [OF assms], of rest]
  show ?thesis by simp
qed

theorem IOHook_write_read_witness:
  "\<exists>bytes.
     IOHook_write
       (Some (set_list (BlockInvertedLists_sized 2 4 32) 0 [10, 11, 12] (replicate 32 7))) []
       = Returns () bytes \<and>
     read_InvertedLists (bytes @ [])
       = Returns (set_list (BlockInvertedLists_sized 2 4 32) 0 [10, 11, 12] (replicate 32 7)) []"
  using IOHook_write_read [OF sized_example_ok, of "[]"]
  by (simp add: set_list_def BlockInvertedLists_sized_def)

section \<open>Streams that were not written by \<open>write\<close>\<close>

lemma READ1_defined [simp]: "is_defined (READ1 f)"
  by (simp add: READ1_def)

lemma READVECTOR_defined [simp]:
  "is_defined (READVECTOR_idx f)" "is_defined (READVECTOR_u8 f)"
  by (simp_all add: READVECTOR_idx_def READVECTOR_u8_def READ1_def)

lemma read_body_defined:
  "unat i < length (ids il) \<Longrightarrow> unat i < length (codes il) \<Longrightarrow>
   is_defined (read_body i (il, f))"
  by (simp add: read_body_def with_store_def READVECTOR_idx_def READVECTOR_u8_def READ1_def)

lemma read_body_lengths:
  assumes "read_body i (il, f) = Returns u (il', f')"
  shows "length (ids il') = length (ids il)" "length (codes il') = length (codes il)"
  using assms
  by (auto simp: read_body_def with_store_def and_then_Returns_iff
      split: outcome.splits if_splits)

text \<open>
  C32.  \<open>read\<close> is defined on every stream: each read is checked against the
  bytes that are left, and the lists it fills were resized to \<open>nlist\<close> before the
  loop.  A stream that ends early makes it throw.
\<close>

theorem IOHook_read_defined:
  "is_defined (IOHook_read f) \<and>
   (length f < 32 \<longrightarrow> (\<exists>f'. IOHook_read f = Throws (FaissException ''read error'') f'))"
proof
  have loop: "is_defined (for_loop 0 nl read_body (il, g))"
    if "length (ids il) = unat nl" "length (codes il) = unat nl" for nl il g
    using that
    by (intro for_loop_defined
          [where P = "\<lambda>st. length (ids (fst st)) = unat nl \<and> length (codes (fst st)) = unat nl"])
       (auto simp: word_less_nat_alt read_body_defined dest: read_body_lengths)
  have "is_defined (case r of Returns _ (il, f) \<Rightarrow> Returns il f
      | Throws e (il, f) \<Rightarrow> Throws e f | Undefined u \<Rightarrow> Undefined u)"
    if "is_defined r" for r :: "(unit, BlockInvertedLists \<times> IOReader) outcome"
    using that by (cases r) auto
  with loop show "is_defined (IOHook_read f)"
    by (simp add: IOHook_read_def READ1_def Let_def)
  show "length f < 32 \<longrightarrow> (\<exists>f'. IOHook_read f = Throws (FaissException ''read error'') f')"
    by (auto simp: IOHook_read_def READ1_def)
qed

theorem IOHook_read_defined_witness:
  "is_defined (IOHook_read (put_u64 1 @ put_u64 0)) \<and>
   (\<exists>f'. IOHook_read (put_u64 1 @ put_u64 0) = Throws (FaissException ''read error'') f')"
  using IOHook_read_defined [of "put_u64 1 @ put_u64 0"] by simp


end
