(* ===== verification/BIL_Abstract.thy ===== *)
theory BIL_Abstract
  imports BIL_Resize BIL_Registry
begin

text \<open>
  What a list of the store stands for: the sequence of its entries, each an id and
  the flat code the packer unpacks from the entry's slot.  On these sequences the
  operations are the list operations one expects, and the lemmas of this theory show
  that the operations of the store implement them: an update overwrites a range, an
  append through the packer appends, a shrinking resize truncates, and
  \<open>get_single_code\<close> reads the code of one entry.
\<close>

section \<open>The entries of a list\<close>

definition entries :: "CodePacker \<Rightarrow> idx_t list \<Rightarrow> byte list \<Rightarrow> (idx_t \<times> byte list option) list" where
  "entries p idv cdv = map (\<lambda>k. (idv ! k, unpack_1 p cdv (of_nat k))) [0..<length idv]"

definition list_entries ::
  "CodePacker \<Rightarrow> BlockInvertedLists \<Rightarrow> size_t \<Rightarrow> (idx_t \<times> byte list option) list option" where
  "list_entries p s l =
     (case (at (ids s) l, at (codes s) l) of
        (Some idv, Some cdv) \<Rightarrow> Some (entries p idv cdv)
      | _ \<Rightarrow> None)"

lemma length_entries [simp]: "length (entries p idv cdv) = length idv"
  by (simp add: entries_def)

lemma nth_entries:
  "k < length idv \<Longrightarrow> entries p idv cdv ! k = (idv ! k, unpack_1 p cdv (of_nat k))"
  by (simp add: entries_def)

lemma entries_eqI:
  assumes "length idv' = length idv"
    and "\<And>k. k < length idv \<Longrightarrow> idv' ! k = idv ! k"
    and "\<And>k. k < length idv \<Longrightarrow> unpack_1 p cdv' (of_nat k) = unpack_1 p cdv (of_nat k)"
  shows "entries p idv' cdv' = entries p idv cdv"
  using assms by (intro nth_equalityI) (simp_all add: nth_entries)

lemma list_entries_set_list_same:
  "at (ids s) l = Some idv \<Longrightarrow> at (codes s) l = Some cdv \<Longrightarrow>
   list_entries p (set_list s l idv' cdv') l = Some (entries p idv' cdv')"
  by (simp add: list_entries_def at_set_list_same)

lemma list_entries_set_list_other:
  "l' \<noteq> l \<Longrightarrow> list_entries p (set_list s l idv' cdv') l' = list_entries p s l'"
  by (simp add: list_entries_def at_set_list_other)

text \<open>All entries of a list on a store whose sizes fit are present: every slot of
  the list unpacks.\<close>

lemma entries_present:
  assumes "sizes_ok s" "packer_matches s p"
    and "at (ids s) l = Some idv" "at (codes s) l = Some cdv"
    and "list_fits (n_per_block s) (block_size s) (length idv)"
  shows "\<forall>e \<in> set (entries p idv cdv). snd e \<noteq> None"
proof -
  have lt: "length idv < size_limit" using assms(5) by (rule list_fits_less)
  have "holds_slot p cdv (of_nat k)" if "k < length idv" for k
    using assms that lt by (intro store_holds_slot [of s p l idv]) (simp_all add: unat_of_nat_len)
  then show ?thesis by (auto simp: entries_def unpack_1_def)
qed

section \<open>Offsets as indices\<close>

lemma index_in_range:
  fixes offset n :: size_t
  assumes "unat offset + unat n \<le> len" "len < size_limit" "k < len"
  shows "(offset \<le> of_nat k \<and> of_nat k < offset + n) \<longleftrightarrow>
         (unat offset \<le> k \<and> k < unat offset + unat n)"
  using assms update_range_end [OF assms(1,2)]
  by (simp add: word_le_nat_alt word_less_nat_alt unat_of_nat_len)

lemma index_as_offset:
  fixes offset n :: size_t
  assumes "unat offset + unat n \<le> len" "len < size_limit"
    and "unat offset \<le> k" "k < unat offset + unat n"
  obtains i where "i < n" "unat i = k - unat offset" "of_nat k = offset + i"
proof
  let ?i = "of_nat (k - unat offset) :: size_t"
  from assms have i: "unat ?i = k - unat offset" by (intro unat_of_nat_len) simp
  with assms(3,4) show lt: "?i < n" by (simp add: word_less_nat_alt)
  show "unat ?i = k - unat offset" by (rule i)
  from update_range(1) [OF assms(1,2) lt] i assms(3)
  have "unat (offset + ?i) = k" by simp
  then have "(of_nat (unat (offset + ?i)) :: size_t) = of_nat k" by (rule arg_cong)
  then show "of_nat k = offset + ?i" by simp
qed

section \<open>An update overwrites a range of entries\<close>

lemma entries_updated:
  fixes offset n :: size_t
  assumes range: "unat offset + unat n \<le> length idv" "length idv < size_limit"
    and ids_in: "unat n \<le> length ids_in" and len: "length flat = unat n"
    and slot: "\<And>i. i < n \<Longrightarrow> unpack_1 p cdv' (offset + i) = Some (flat ! unat i)"
    and frame: "\<And>j. \<not> (offset \<le> j \<and> j < offset + n) \<Longrightarrow>
                  unpack_1 p cdv' j = unpack_1 p cdv j"
  shows "entries p (overwrite idv (unat offset) (take (unat n) ids_in)) cdv' =
     overwrite (entries p idv cdv) (unat offset) (zip (take (unat n) ids_in) (map Some flat))"
    (is "entries p ?idv' cdv' = overwrite ?es ?off ?new")
proof (rule nth_equalityI)
  have new: "length ?new = unat n" "length (take (unat n) ids_in) = unat n"
    using ids_in len by simp_all
  with range(1) show "length (entries p ?idv' cdv') = length (overwrite ?es ?off ?new)"
    by simp
  fix k assume "k < length (entries p ?idv' cdv')"
  with range(1) new have k: "k < length idv" by simp
  show "entries p ?idv' cdv' ! k = overwrite ?es ?off ?new ! k"
  proof (cases "?off \<le> k \<and> k < ?off + unat n")
    case True
    then have t: "?off \<le> k" "k < ?off + unat n" "k - ?off < unat n" by auto
    with range obtain i where i: "i < n" "unat i = k - ?off" "of_nat k = offset + i"
      by (auto elim: index_as_offset)
    from t k range(1) new have "?idv' ! k = ids_in ! (k - ?off)"
      by (simp add: nth_overwrite)
    moreover from t k range(1) new len
    have "overwrite ?es ?off ?new ! k = (ids_in ! (k - ?off), Some (flat ! (k - ?off)))"
      by (simp add: nth_overwrite)
    ultimately show ?thesis
      using k range(1) new slot [OF i(1)] i(2,3) by (simp add: nth_entries)
  next
    case False
    with index_in_range [OF range k] have "unpack_1 p cdv' (of_nat k) = unpack_1 p cdv (of_nat k)"
      by (intro frame) simp
    moreover from False k range(1) new have "?idv' ! k = idv ! k"
      by (auto simp: nth_overwrite)
    moreover from False k range(1) new have "overwrite ?es ?off ?new ! k = ?es ! k"
      by (auto simp: nth_overwrite)
    ultimately show ?thesis using k range(1) new by (simp add: nth_entries)
  qed
qed

definition flat_codes :: "byte list \<Rightarrow> nat \<Rightarrow> nat \<Rightarrow> byte list list" where
  "flat_codes code cs n = map (\<lambda>m. subrange code (m * cs) cs) [0..<n]"

lemma length_flat_codes [simp]: "length (flat_codes code cs n) = n"
  by (simp add: flat_codes_def)

lemma nth_flat_codes: "m < n \<Longrightarrow> flat_codes code cs n ! m = subrange code (m * cs) cs"
  by (simp add: flat_codes_def)

text \<open>
  C19.  \<open>update_entries\<close> implements the overwriting of a range: the entries of the
  list after the call are its entries before, with the entries from \<open>offset\<close> on
  replaced by the caller's ids paired with the caller's flat codes; the entries of
  every other list are as before.
\<close>

theorem update_entries_refines:
  fixes offset n_entry :: size_t
  assumes "sizes_ok s" "packer_matches s p" "list_no < nlist s"
    and "at (ids s) list_no = Some idv" "at (codes s) list_no = Some cdv"
    and "unat offset + unat n_entry \<le> length idv"
    and "list_fits (n_per_block s) (block_size s) (length idv)"
    and "unat n_entry \<le> length ids_in"
    and "unat n_entry * unat (CodePacker.code_size p) \<le> length code"
      "length code < size_limit"
  shows "\<exists>s'. update_entries s list_no offset n_entry ids_in code = Returns () s' \<and>
      list_entries p s' list_no =
        Some (overwrite (entries p idv cdv) (unat offset)
               (zip (take (unat n_entry) ids_in)
                    (map Some (flat_codes code (unat (CodePacker.code_size p)) (unat n_entry))))) \<and>
      (\<forall>l. l \<noteq> list_no \<longrightarrow> list_entries p s' l = list_entries p s l)"
proof -
  let ?idv' = "overwrite idv (unat offset) (take (unat n_entry) ids_in)"
  let ?flat = "flat_codes code (unat (CodePacker.code_size p)) (unat n_entry)"
  from assms(2) have p: "packer s = Some p" "packer_ok p" by (simp_all add: packer_matches_def)
  have lt: "length idv < size_limit" using assms(7) by (rule list_fits_less)
  have "\<forall>j. unat j < length idv \<longrightarrow> holds_slot p cdv j"
    using assms(1,2,4,5,7) by (auto intro: store_holds_slot)
  from update_loop [OF p assms(4,5,6) lt this assms(8-10)] obtain cdv' where
    run: "update_entries s list_no offset n_entry ids_in code =
        Returns () (set_list s list_no ?idv' cdv')"
    and slot: "\<And>i. i < n_entry \<Longrightarrow> unpack_1 p cdv' (offset + i) = Some (?flat ! unat i)"
    and frame: "\<And>j. \<not> (offset \<le> j \<and> j < offset + n_entry) \<Longrightarrow>
        unpack_1 p cdv' j = unpack_1 p cdv j"
    unfolding update_entries_guards [OF assms(3,4,6) lt]
    by (auto simp: nth_flat_codes word_less_nat_alt)
  have "entries p ?idv' cdv' = overwrite (entries p idv cdv) (unat offset)
      (zip (take (unat n_entry) ids_in) (map Some ?flat))"
    using assms(6) lt assms(8) _ slot frame by (rule entries_updated) simp
  with run assms(4,5) show ?thesis
    by (auto simp: list_entries_set_list_same list_entries_set_list_other)
qed

theorem update_entries_refines_witness:
  "\<exists>s'. update_entries scenario_store 0 1 1 [99] (replicate 8 1) = Returns () s' \<and>
      list_entries scenario_packer s' 0 =
        Some (overwrite (entries scenario_packer [10, 11, 12] (replicate 32 7)) 1
               [(99, Some (replicate 8 1))])"
  using update_entries_refines [OF scenario_ok scenario_matches _ scenario_sel _ scenario_fits,
      of 1 1 "[99]" "replicate 8 1"]
  by (auto simp: flat_codes_def subrange_def)

section \<open>An append through the packer appends entries\<close>

lemma entries_appended:
  fixes n :: size_t
  assumes lt: "length idv + unat n < size_limit" and new: "length new_ids = unat n"
    and slot: "\<And>i. i < n \<Longrightarrow> unpack_1 p cdv2 (i + of_nat (length idv)) = unpack_1 p code i"
    and frame: "\<And>j. j < of_nat (length idv) \<Longrightarrow> unpack_1 p cdv2 j = unpack_1 p cdv j"
  shows "entries p (idv @ new_ids) cdv2 =
     entries p idv cdv @ zip new_ids (map (\<lambda>m. unpack_1 p code (of_nat m)) [0..<unat n])"
    (is "?lhs = ?es @ ?new")
proof (rule nth_equalityI)
  show "length ?lhs = length (?es @ ?new)" using new by simp
  fix k assume "k < length ?lhs"
  then have k: "k < length idv + unat n" using new by simp
  note o = unat_offset [OF lt]
  show "?lhs ! k = (?es @ ?new) ! k"
  proof (cases "k < length idv")
    case True
    with lt o have "(of_nat k :: size_t) < of_nat (length idv)"
      by (simp add: word_less_nat_alt unat_of_nat_len)
    from frame [OF this] True show ?thesis by (simp add: nth_entries nth_append)
  next
    case False
    define i :: size_t where "i = of_nat (k - length idv)"
    from k False lt have i: "unat i = k - length idv"
      unfolding i_def by (intro unat_of_nat_len) simp
    with k False have m: "k - length idv < unat n" and "i < n"
      by (simp_all add: word_less_nat_alt)
    from unat_slot_offset [OF lt this(2)] i False
    have "unat (i + of_nat (length idv)) = k" by simp
    then have "(of_nat (unat (i + of_nat (length idv))) :: size_t) = of_nat k"
      by (rule arg_cong)
    with slot [OF \<open>i < n\<close>] have "unpack_1 p cdv2 (of_nat k) = unpack_1 p code i" by simp
    moreover from m new False have "(?es @ ?new) ! k = (new_ids ! (k - length idv), unpack_1 p code i)"
      by (simp add: nth_append i_def)
    ultimately show ?thesis using k False new by (simp add: nth_entries nth_append)
  qed
qed

text \<open>
  C20.  An append that goes through the packer implements the appending of entries:
  the entries of the list after the call are its entries before, followed by the
  caller's ids paired with the codes of the caller's packed blocks; the entries of
  every other list are as before.
\<close>

theorem add_entries_refines:
  assumes "sizes_ok s" "packer_matches s p" "list_no < nlist s" "n_entry \<noteq> 0"
    and "block_size s \<noteq> 0"
    and "at (ids s) list_no = Some idv" "at (codes s) list_no = Some cdv"
    and "of_nat (length idv) mod block_size s \<noteq> 0"
    and "list_fits (n_per_block s) (block_size s) (length idv + unat n_entry)"
    and "unat n_entry < 2 ^ 61" "unat n_entry \<le> length ids_in"
    and "\<forall>i. i < n_entry \<longrightarrow> holds_slot p code i"
  shows "\<exists>s'. add_entries junk s list_no n_entry ids_in code =
        Returns (of_nat (length idv)) s' \<and>
      list_entries p s' list_no =
        Some (entries p idv cdv @
              zip (take (unat n_entry) ids_in)
                  (map (\<lambda>m. unpack_1 p code (of_nat m)) [0..<unat n_entry])) \<and>
      (\<forall>l. l \<noteq> list_no \<longrightarrow> list_entries p s' l = list_entries p s l)"
proof -
  have lt: "length idv + unat n_entry < size_limit" using assms(9) by (rule list_fits_less)
  from add_entries_packed [OF assms, of junk] obtain cdv2 where
    run: "add_entries junk s list_no n_entry ids_in code =
        Returns (of_nat (length idv))
          (set_list s list_no (idv @ take (unat n_entry) ids_in) cdv2)"
    and slot: "\<And>i. i < n_entry \<Longrightarrow>
        unpack_1 p cdv2 (i + of_nat (length idv)) = unpack_1 p code i"
    and frame: "\<And>j. j < of_nat (length idv) \<Longrightarrow> unpack_1 p cdv2 j = unpack_1 p cdv j"
    by metis
  have "entries p (idv @ take (unat n_entry) ids_in) cdv2 =
      entries p idv cdv @ zip (take (unat n_entry) ids_in)
        (map (\<lambda>m. unpack_1 p code (of_nat m)) [0..<unat n_entry])"
    using lt _ slot frame by (rule entries_appended) (simp add: assms(11))
  with run assms(6,7) show ?thesis
    by (auto simp: list_entries_set_list_same list_entries_set_list_other)
qed

theorem add_entries_refines_witness:
  "\<exists>s'. add_entries (\<lambda>_. 0) flat_example_store 0 2 [6, 7] [3, 4] = Returns 1 s' \<and>
      list_entries flat_example_packer s' 0 =
        Some (entries flat_example_packer [5] [1, 0] @
              zip [6, 7] (map (\<lambda>m. unpack_1 flat_example_packer [3, 4] (of_nat m)) [0..<2]))"
  using add_entries_refines [OF flat_example_ok flat_example_matches,
      of 0 2 "[5]" "[1, 0]" "[6, 7]" "[3, 4]" "\<lambda>_. 0"]
    flat_example_slots flat_example_fits
  by (auto simp: set_list_def at_def)

section \<open>A shrinking resize truncates the entries\<close>

text \<open>
  C21.  A \<open>resize\<close> to a size that is not larger implements truncation: the
  entries of the list after the call are the first \<open>new_size\<close> entries it had.
\<close>

theorem resize_shrink_refines:
  assumes "sizes_ok s" "packer_matches s p" "list_no < nlist s"
    and "at (ids s) list_no = Some idv" "at (codes s) list_no = Some cdv"
    and "list_fits (n_per_block s) (block_size s) (length idv)"
    and "unat new_size \<le> length idv"
  shows "\<exists>s'. resize junk s list_no new_size = Returns () s' \<and>
      list_entries p s' list_no = Some (take (unat new_size) (entries p idv cdv)) \<and>
      (\<forall>l. l \<noteq> list_no \<longrightarrow> list_entries p s' l = list_entries p s l)"
proof -
  let ?N = "unat (n_block_for new_size (n_per_block s) * block_size s)"
  from assms(2) have geom: "n_per_block s = nvec p" "block_size s = CodePacker.block_size p"
    and npb: "n_per_block s \<noteq> 0"
    by (auto simp: packer_matches_def dest: packer_ok_nvec)
  have fits: "list_fits (nvec p) (CodePacker.block_size p) (unat new_size)"
    using assms(6,7) unfolding geom by (rule list_fits_mono)
  have N: "?N = ceil_div (unat new_size) (unat (nvec p)) * unat (CodePacker.block_size p)"
    unfolding geom using fits by (rule buffer_size_nat)
  have len: "length cdv = ceil_div (length idv) (unat (nvec p)) * unat (CodePacker.block_size p)"
    using sizes_ok_at_Some [OF assms(1,4,5)] assms(6) unfolding geom
    by (rule list_sizes_ok_fits)
  have le: "?N \<le> length cdv"
    unfolding N len using assms(7) by (intro mult_le_mono1 ceil_div_mono)
  from sizes_ok_at_Some [OF assms(1,4,5)]
  have "resize junk s list_no new_size =
      Returns () (set_list s list_no (take (unat new_size) idv) (take ?N cdv))"
    using resize_at [OF assms(4,5) _ npb, of _ junk new_size] assms(7) le
    by (simp add: list_sizes_ok_def vector_resize_shrink)
  moreover have "entries p (take (unat new_size) idv) (take ?N cdv) =
      take (unat new_size) (entries p idv cdv)"
  proof (rule nth_equalityI)
    show "length (entries p (take (unat new_size) idv) (take ?N cdv)) =
        length (take (unat new_size) (entries p idv cdv))" by simp
    fix k assume "k < length (entries p (take (unat new_size) idv) (take ?N cdv))"
    with assms(7) have k: "k < unat new_size" by simp
    with unat_size_t_bound [of new_size] have "unat (of_nat k :: size_t) = k"
      by (intro unat_of_nat_len) simp
    with fits k le N have "holds_slot p (take ?N cdv) (of_nat k)"
      by (intro fits_holds_slot [OF fits]) simp_all
    then have "unpack_1 p (take ?N cdv) (of_nat k) = unpack_1 p cdv (of_nat k)"
      by (rule unpack_1_take)
    with k assms(7) show "entries p (take (unat new_size) idv) (take ?N cdv) ! k =
        take (unat new_size) (entries p idv cdv) ! k"
      by (simp add: nth_entries)
  qed
  ultimately show ?thesis using assms(4,5)
    by (auto simp: list_entries_set_list_same list_entries_set_list_other)
qed

theorem resize_shrink_refines_witness:
  "\<exists>s'. resize (\<lambda>_. 0) scenario_store 0 1 = Returns () s' \<and>
      list_entries scenario_packer s' 0 =
        Some (take 1 (entries scenario_packer [10, 11, 12] (replicate 32 7)))"
  using resize_shrink_refines [OF scenario_ok scenario_matches _ scenario_sel scenario_fits,
      of 1 "\<lambda>_. 0"]
  by auto

section \<open>Extracting a code reads an entry\<close>

lemma list_entries_allocated [simp]:
  "list_entries p (s\<lparr>allocated_codes := X\<rparr>) l = list_entries p s l"
  by (simp add: list_entries_def)



end
