(* ===== verification/Tutorial_Data.thy ===== *)
theory Tutorial_Data
  imports Cxx_Memory
begin

text \<open>
  The data the tutorial driver \<open>main\<close> of \<open>src/tutorial/cpp/3-IVFPQ.cpp\<close> builds
  before it calls the index: the arithmetic of its \<open>long\<close> and \<open>int\<close> variables, its
  raw arrays, its counted loops, and the two loops that fill the database and the
  query vectors from the random generator.  The loops are shown to compute a
  reference that lists the rows, and the counted loop has an invariant rule that the
  later theories use for every loop of the driver.
\<close>

section \<open>Signed integers\<close>

text \<open>
  A \<open>long\<close> has 64 bits and an \<open>int\<close> 32; an operation whose result does not fit has
  no defined behaviour.  The model computes in \<open>int\<close> and checks the range after
  each operation.
\<close>

abbreviation LONG_MAX :: int where
  "LONG_MAX \<equiv> 2 ^ 63 - 1"

abbreviation INT_MAX :: int where
  "INT_MAX \<equiv> 2 ^ 31 - 1"

definition checked :: "int \<Rightarrow> int \<Rightarrow> int option" where
  "checked mx x = (if - mx - 1 \<le> x \<and> x \<le> mx then Some x else None)"

definition row_index :: "int \<Rightarrow> int \<Rightarrow> int \<Rightarrow> int option" where
  "row_index d i j =
     (case checked LONG_MAX (d * i) of
        None \<Rightarrow> None
      | Some p \<Rightarrow> checked LONG_MAX (p + j))"

lemma checked_Some_iff: "checked mx x = Some y \<longleftrightarrow> y = x \<and> - mx - 1 \<le> x \<and> x \<le> mx"
  by (auto simp: checked_def)

lemma checked_in_range [simp]: "- mx - 1 \<le> x \<Longrightarrow> x \<le> mx \<Longrightarrow> checked mx x = Some x"
  by (simp add: checked_def)

lemma row_index_in_range:
  assumes "0 \<le> d" "0 \<le> i" "0 \<le> j" "d * i + j \<le> LONG_MAX"
  shows "row_index d i j = Some (d * i + j)"
proof -
  from assms have "0 \<le> d * i" by simp
  with assms have "- LONG_MAX - 1 \<le> d * i" "d * i \<le> LONG_MAX" "- LONG_MAX - 1 \<le> d * i + j"
    by linarith+
  with assms(4) show ?thesis by (simp add: row_index_def checked_def)
qed

section \<open>Raw arrays\<close>

text \<open>
  \<open>new float[n]\<close> gives \<open>n\<close> cells of indeterminate value, or throws when \<open>n\<close> is
  negative.  An access through the pointer is defined inside the array only.
\<close>

definition new_floats :: "(nat \<Rightarrow> 'a) \<Rightarrow> int \<Rightarrow> 'a list option" where
  "new_floats junk n = (if 0 \<le> n then Some (map junk [0..<nat n]) else None)"

definition ptr_read :: "'a list \<Rightarrow> int \<Rightarrow> 'a option" where
  "ptr_read xs c = (if 0 \<le> c \<and> nat c < length xs then Some (xs ! nat c) else None)"

definition ptr_write :: "'a list \<Rightarrow> int \<Rightarrow> 'a \<Rightarrow> 'a list option" where
  "ptr_write xs c v = (if 0 \<le> c \<and> nat c < length xs then Some (xs[nat c := v]) else None)"

lemma new_floats_Some_iff:
  "new_floats junk n = Some xs \<longleftrightarrow> 0 \<le> n \<and> xs = map junk [0..<nat n]"
  by (auto simp: new_floats_def)

lemma length_new_floats: "new_floats junk n = Some xs \<Longrightarrow> length xs = nat n"
  by (auto simp: new_floats_def split: if_splits)

lemma ptr_read_append [simp]:
  "ptr_read (pre @ x # post) (int (length pre)) = Some x"
  by (simp add: ptr_read_def)

lemma ptr_write_append [simp]:
  "ptr_write (pre @ x # post) (int (length pre)) v = Some (pre @ v # post)"
  by (simp add: ptr_write_def)

lemma length_ptr_write: "ptr_write xs c v = Some ys \<Longrightarrow> length ys = length xs"
  by (auto simp: ptr_write_def split: if_splits)

section \<open>Counted loops over a signed counter\<close>

text \<open>
  \<open>for (long i = a; i < n; i++) body\<close>, and the same with an \<open>int\<close> counter: \<open>mx\<close>
  is the largest value of the counter's type, and the increment past it has no
  defined behaviour.
\<close>

function for_signed ::
  "int \<Rightarrow> int \<Rightarrow> int \<Rightarrow> (int \<Rightarrow> 's \<Rightarrow> (unit, 's) outcome) \<Rightarrow> 's \<Rightarrow> (unit, 's) outcome"
where
  "for_signed mx i n body s =
     (if i < n then
        (case body i s of
           Returns _ s' \<Rightarrow>
             if i + 1 \<le> mx then for_signed mx (i + 1) n body s' else Undefined SignedOverflow
         | Throws e s' \<Rightarrow> Throws e s'
         | Undefined u \<Rightarrow> Undefined u)
      else Returns () s)"
  by pat_completeness auto
termination
  by (relation "measure (\<lambda>(mx, i, n, body, s). nat (n - i))") auto

declare for_signed.simps [simp del]

lemma for_signed_done [simp]: "\<not> i < n \<Longrightarrow> for_signed mx i n body s = Returns () s"
  by (subst for_signed.simps) simp

lemma for_signed_step:
  "i < n \<Longrightarrow> n \<le> mx \<Longrightarrow> body i s = Returns () s' \<Longrightarrow>
   for_signed mx i n body s = for_signed mx (i + 1) n body s'"
  by (subst for_signed.simps) simp

text \<open>The reference: the body folded over the counter values in order.\<close>

lemma for_signed_fold:
  "n \<le> mx \<Longrightarrow> for_signed mx i n body s = fold_outcome body [i..n - 1] s"
proof (induction mx i n body s rule: for_signed.induct)
  case (1 mx i n body s)
  show ?case
  proof (cases "i < n")
    case False
    then show ?thesis by simp
  next
    case True
    then have upto: "[i..n - 1] = i # [i + 1..n - 1]" by (simp add: upto_rec1)
    from True "1.prems" have le: "i + 1 \<le> mx" by simp
    show ?thesis
    proof (cases "body i s")
      case (Returns u s')
      with True le "1.IH" [of u s'] "1.prems" show ?thesis
        by (subst for_signed.simps) (simp add: upto)
    qed (use True in \<open>subst for_signed.simps, simp add: upto\<close>)+
  qed
qed

section \<open>Filling the vectors\<close>

text \<open>
  The state of a fill loop is the array and the number of values drawn from the
  generator so far; \<open>draw r\<close> is the value the call number \<open>r\<close> of \<open>distrib(rng)\<close>
  yields, as a \<open>float\<close>, and \<open>bump v i\<close> is the \<open>float\<close> that \<open>v += i / 1000.\<close> leaves.
\<close>

type_synonym 'f filling = "'f list \<times> nat"

definition fill_cell ::
  "(nat \<Rightarrow> 'f) \<Rightarrow> int \<Rightarrow> int \<Rightarrow> int \<Rightarrow> 'f filling \<Rightarrow> (unit, 'f filling) outcome" where
  "fill_cell draw d i j s =
     (case s of (xs, r) \<Rightarrow>
        (case row_index d i j of
           None \<Rightarrow> Undefined SignedOverflow
         | Some c \<Rightarrow>
             (case ptr_write xs c (draw r) of
                None \<Rightarrow> Undefined OutOfBounds
              | Some xs' \<Rightarrow> Returns () (xs', Suc r))))"

definition bump_first ::
  "('f \<Rightarrow> int \<Rightarrow> 'f) \<Rightarrow> int \<Rightarrow> int \<Rightarrow> 'f filling \<Rightarrow> (unit, 'f filling) outcome" where
  "bump_first bump d i s =
     (case s of (xs, r) \<Rightarrow>
        (case checked LONG_MAX (d * i) of
           None \<Rightarrow> Undefined SignedOverflow
         | Some c \<Rightarrow>
             (case ptr_read xs c of
                None \<Rightarrow> Undefined OutOfBounds
              | Some v \<Rightarrow>
                  (case ptr_write xs c (bump v i) of
                     None \<Rightarrow> Undefined OutOfBounds
                   | Some xs' \<Rightarrow> Returns () (xs', r)))))"

definition fill_row ::
  "(nat \<Rightarrow> 'f) \<Rightarrow> ('f \<Rightarrow> int \<Rightarrow> 'f) \<Rightarrow> int \<Rightarrow> int \<Rightarrow> 'f filling \<Rightarrow> (unit, 'f filling) outcome"
where
  "fill_row draw bump d i s =
     and_then (for_signed LONG_MAX 0 d (fill_cell draw d i) s) (\<lambda>_. bump_first bump d i)"

definition fill_rows ::
  "(nat \<Rightarrow> 'f) \<Rightarrow> ('f \<Rightarrow> int \<Rightarrow> 'f) \<Rightarrow> int \<Rightarrow> int \<Rightarrow> 'f filling \<Rightarrow> (unit, 'f filling) outcome"
where
  "fill_rows draw bump d n = for_signed LONG_MAX 0 n (fill_row draw bump d)"

text \<open>
  The reference: a row that starts at draw number \<open>r\<close> holds the next \<open>d\<close> draws, the
  first of them bumped by the row's number; \<open>random_rows d r i m\<close> lists the \<open>m\<close> rows
  from row \<open>i\<close> on.
\<close>

definition random_row :: "(nat \<Rightarrow> 'f) \<Rightarrow> ('f \<Rightarrow> int \<Rightarrow> 'f) \<Rightarrow> nat \<Rightarrow> nat \<Rightarrow> nat \<Rightarrow> 'f list" where
  "random_row draw bump d r i =
     map (\<lambda>j. if j = 0 then bump (draw r) (int i) else draw (r + j)) [0..<d]"

fun random_rows ::
  "(nat \<Rightarrow> 'f) \<Rightarrow> ('f \<Rightarrow> int \<Rightarrow> 'f) \<Rightarrow> nat \<Rightarrow> nat \<Rightarrow> nat \<Rightarrow> nat \<Rightarrow> 'f list" where
  "random_rows draw bump d r i 0 = []"
| "random_rows draw bump d r i (Suc m) =
     random_row draw bump d r i @ random_rows draw bump d (r + d) (Suc i) m"

lemma length_random_row [simp]: "length (random_row draw bump d r i) = d"
  by (simp add: random_row_def)

lemma length_random_rows [simp]: "length (random_rows draw bump d r i m) = d * m"
  by (induction m arbitrary: r i) simp_all

lemma random_row_Cons:
  "0 < d \<Longrightarrow> random_row draw bump d r i = bump (draw r) (int i) # map draw [Suc r..<r + d]"
  by (rule nth_equalityI) (auto simp: random_row_def nth_Cons split: nat.splits)

lemma row_bounds:
  fixes d i :: int
  assumes "0 \<le> i" "0 \<le> d" "d * i + d \<le> M"
  shows "0 \<le> d * i" "d \<le> M" "d * i \<le> M"
proof -
  show "0 \<le> d * i" using assms by simp
  with assms show "d \<le> M" "d * i \<le> M" by linarith+
qed

lemma rows_bounds:
  fixes d i :: int
  assumes "0 \<le> i" "0 < d" "d * (i + int (Suc m)) \<le> M"
  shows "d * i + d \<le> M" "i + int (Suc m) \<le> M" "d * (i + 1 + int m) \<le> M"
proof -
  have "0 \<le> d * int m" using assms(2) by simp
  with assms(3) show "d * i + d \<le> M" by (simp add: algebra_simps)
  have "1 * (i + int (Suc m)) \<le> d * (i + int (Suc m))"
    using assms(1,2) by (intro mult_right_mono) auto
  with assms(3) show "i + int (Suc m) \<le> M" by simp
  from assms(3) show "d * (i + 1 + int m) \<le> M" by (simp add: algebra_simps)
qed

lemma fill_cell_append:
  assumes "0 \<le> i" "0 \<le> j" "0 \<le> d" "d * i + j \<le> LONG_MAX" "length pre = nat (d * i + j)"
  shows "fill_cell draw d i j (pre @ x # post, r) = Returns () (pre @ draw r # post, Suc r)"
proof -
  from assms have "0 \<le> d * i + j" by simp
  with assms(5) have "d * i + j = int (length pre)" by simp
  with row_index_in_range [OF assms(3,1,2,4)] show ?thesis
    by (simp add: fill_cell_def)
qed

lemma fill_cells:
  assumes "0 \<le> i" "0 \<le> j" "j \<le> d" "d * i + d \<le> LONG_MAX"
    and "length pre = nat (d * i + j)" "length mid = nat (d - j)"
  shows "for_signed LONG_MAX j d (fill_cell draw d i) (pre @ mid @ post, r) =
         Returns () (pre @ map draw [r..<r + nat (d - j)] @ post, r + nat (d - j))"
  using assms
proof (induction mid arbitrary: j pre r)
  case Nil
  then show ?case by simp
next
  case (Cons x mid)
  from Cons.prems have j: "j < d" "0 \<le> d" by auto
  note b = row_bounds [OF Cons.prems(1) j(2) Cons.prems(4)]
  with Cons.prems j have cell: "fill_cell draw d i j (pre @ x # mid @ post, r) =
      Returns () (pre @ draw r # mid @ post, Suc r)"
    by (intro fill_cell_append) auto
  have "for_signed LONG_MAX (j + 1) d (fill_cell draw d i) ((pre @ [draw r]) @ mid @ post, Suc r) =
      Returns () ((pre @ [draw r]) @ map draw [Suc r..<Suc r + nat (d - (j + 1))] @ post,
        Suc r + nat (d - (j + 1)))"
    using Cons.prems j by (intro Cons.IH) (auto simp: nat_add_distrib)
  moreover have "nat (d - j) = Suc (nat (d - (j + 1)))" using j by simp
  moreover have "for_signed LONG_MAX j d (fill_cell draw d i) (pre @ (x # mid) @ post, r) =
      for_signed LONG_MAX (j + 1) d (fill_cell draw d i) (pre @ draw r # mid @ post, Suc r)"
    using j(1) b(2) cell by (intro for_signed_step) simp_all
  ultimately show ?case by (simp add: upt_conv_Cons)
qed

lemma fill_row_append:
  assumes "0 \<le> i" "0 < d" "d * i + d \<le> LONG_MAX"
    and "length pre = nat (d * i)" "length mid = nat d"
  shows "fill_row draw bump d i (pre @ mid @ post, r) =
         Returns () (pre @ random_row draw bump (nat d) r (nat i) @ post, r + nat d)"
proof -
  from row_bounds [OF assms(1) _ assms(3)] assms(2,4)
  have c: "checked LONG_MAX (d * i) = Some (int (length pre))" by (simp add: checked_def)
  have "map draw [r..<r + nat d] = draw r # map draw [Suc r..<r + nat d]"
    using assms(2) by (simp add: upt_conv_Cons)
  moreover have "for_signed LONG_MAX 0 d (fill_cell draw d i) (pre @ mid @ post, r) =
      Returns () (pre @ map draw [r..<r + nat d] @ post, r + nat d)"
    using fill_cells [of i 0 d pre mid draw post r] assms by simp
  ultimately show ?thesis
    using assms(1,2) c by (simp add: fill_row_def bump_first_def random_row_Cons)
qed

lemma fill_rows_append:
  assumes "0 \<le> i" "0 < d" "d * (i + int m) \<le> LONG_MAX"
    and "length pre = nat (d * i)" "length rest = nat d * m"
  shows "for_signed LONG_MAX i (i + int m) (fill_row draw bump d) (pre @ rest, r) =
         Returns () (pre @ random_rows draw bump (nat d) r (nat i) m, r + nat d * m)"
  using assms
proof (induction m arbitrary: i pre rest r)
  case 0
  then show ?case by simp
next
  case (Suc m)
  define mid where "mid = take (nat d) rest"
  define post where "post = drop (nat d) rest"
  from Suc.prems have rest: "rest = mid @ post" "length mid = nat d" "length post = nat d * m"
    by (simp_all add: mid_def post_def)
  note bound = rows_bounds [OF Suc.prems(1-3)]
  have row: "fill_row draw bump d i (pre @ mid @ post, r) =
      Returns () (pre @ random_row draw bump (nat d) r (nat i) @ post, r + nat d)"
    using Suc.prems bound rest by (intro fill_row_append) auto
  have "for_signed LONG_MAX (i + 1) (i + 1 + int m) (fill_row draw bump d)
          ((pre @ random_row draw bump (nat d) r (nat i)) @ post, r + nat d) =
        Returns () ((pre @ random_row draw bump (nat d) r (nat i)) @
          random_rows draw bump (nat d) (r + nat d) (nat (i + 1)) m, r + nat d + nat d * m)"
    using Suc.prems rest bound(3)
    by (intro Suc.IH) (auto simp: algebra_simps nat_add_distrib nat_mult_distrib)
  moreover have "nat (i + 1) = Suc (nat i)" using Suc.prems(1) by simp
  moreover have "for_signed LONG_MAX i (i + int (Suc m)) (fill_row draw bump d) (pre @ rest, r) =
      for_signed LONG_MAX (i + 1) (i + int (Suc m)) (fill_row draw bump d)
        (pre @ random_row draw bump (nat d) r (nat i) @ post, r + nat d)"
    using bound(2) row rest(1) by (intro for_signed_step) simp_all
  ultimately show ?case by (simp add: algebra_simps)
qed


lemma random_rows_nth:
  "j < d \<Longrightarrow> k < m \<Longrightarrow>
   random_rows draw bump d r i m ! (d * k + j) =
     (if j = 0 then bump (draw (r + d * k)) (int (i + k)) else draw (r + d * k + j))"
proof (induction m arbitrary: r i k)
  case 0
  then show ?case by simp
next
  case (Suc m)
  show ?case
  proof (cases k)
    case 0
    with Suc.prems show ?thesis by (simp add: nth_append random_row_def)
  next
    case (Suc k')
    with Suc.prems Suc.IH [of k' "r + d" "Suc i"] show ?thesis
      by (simp add: nth_append algebra_simps)
  qed
qed

lemma fill_rows_returns:
  assumes "0 < d" "0 \<le> n" "d * n \<le> LONG_MAX" "length xs = nat (d * n)"
  shows "\<exists>ys. fill_rows draw bump d n (xs, r) = Returns () (ys, r + nat (d * n)) \<and>
    length ys = length xs"
  using fill_rows_append [of 0 d "nat n" "[]" xs draw bump r] assms
  by (simp add: fill_rows_def nat_mult_distrib)


section \<open>Rules for the loops and the cells of a matrix\<close>

lemma for_signed_returns:
  assumes "n \<le> mx" "i \<le> n" "P i s"
    and step: "\<And>j s. i \<le> j \<Longrightarrow> j < n \<Longrightarrow> P j s \<Longrightarrow> \<exists>s'. body j s = Returns () s' \<and> P (j + 1) s'"
  shows "\<exists>s'. for_signed mx i n body s = Returns () s' \<and> P n s'"
  using assms(2,3) step
proof (induction "nat (n - i)" arbitrary: i s)
  case 0
  then show ?case by simp
next
  case (Suc m)
  then have less: "i < n" by simp
  from Suc.prems(3) [OF _ less Suc.prems(2)] obtain s' where
    s': "body i s = Returns () s'" "P (i + 1) s'" by auto
  have "\<exists>s''. for_signed mx (i + 1) n body s' = Returns () s'' \<and> P n s''"
    using Suc.hyps(2) s'(2) Suc.prems(3) less by (intro Suc.hyps(1)) auto
  with for_signed_step [of i n mx body s s'] less assms(1) s'(1) show ?case by simp
qed

lemma row_in_rows:
  fixes d j n :: int
  assumes "0 \<le> j" "j < n" "0 \<le> d"
  shows "j * d + d \<le> d * n" "0 \<le> j * d"
proof -
  from assms have "d * (j + 1) \<le> d * n" by (intro mult_left_mono) auto
  then show "j * d + d \<le> d * n" by (simp add: algebra_simps)
  from assms show "0 \<le> j * d" by simp
qed

lemma cell_in_rows:
  fixes d t j n :: int
  assumes "0 \<le> t" "t < n" "0 \<le> j" "j < d"
  shows "0 \<le> d * t + j" "d * t + j < d * n"
proof -
  from assms have d: "0 < d" by simp
  with assms show "0 \<le> d * t + j" by simp
  from assms d have "d * (t + 1) \<le> d * n" by (intro mult_left_mono) auto
  with assms(4) show "d * t + j < d * n" by (simp add: algebra_simps)
qed

lemma ptr_read_in: "0 \<le> c \<Longrightarrow> c < int (length xs) \<Longrightarrow> ptr_read xs c = Some (xs ! nat c)"
  by (simp add: ptr_read_def)

lemma ptr_write_in:
  "0 \<le> c \<Longrightarrow> c < int (length xs) \<Longrightarrow> ptr_write xs c v = Some (xs[nat c := v])"
  by (simp add: ptr_write_def)

text \<open>
  C9. The two nested loops that fill an array of \<open>n\<close> rows of \<open>d\<close> floats compute the
  reference \<open>random_rows\<close>: every cell is written, in row-major order, with the draws
  in the order the generator yields them, and nothing of the uninitialised array is
  left.  It needs a positive dimension and a product \<open>d * n\<close> that fits a \<open>long\<close>.
\<close>

theorem fill_rows_random_rows:
  assumes "0 < d" "0 \<le> n" "d * n \<le> LONG_MAX" "length xs = nat (d * n)"
  shows "fill_rows draw bump d n (xs, r) =
         Returns () (random_rows draw bump (nat d) r 0 (nat n), r + nat (d * n))"
  using fill_rows_append [of 0 d "nat n" "[]" xs draw bump r] assms
  by (simp add: fill_rows_def nat_mult_distrib)

theorem fill_rows_random_rows_witness:
  "fill_rows (\<lambda>r. r) (\<lambda>v i. v + 100 * nat i) 2 2 ([7, 7, 7, 7], 10) =
     Returns () ([10, 11, 112, 13], 14)"
  using fill_rows_random_rows [of 2 2 "[7, 7, 7, 7]" "\<lambda>r. r" "\<lambda>v i. v + 100 * nat i" 10]
  by (simp add: random_row_def numeral_2_eq_2 upt_rec)

end
