(* ===== verification/Tutorial_Main.thy ===== *)
theory Tutorial_Main
  imports Tutorial_Data
begin

text \<open>
  The tutorial driver \<open>main\<close> of \<open>src/tutorial/cpp/3-IVFPQ.cpp\<close>, statement by
  statement.  Its local variables are the fields of the record \<open>main_state\<close>: an array
  is the list of its cells, or \<open>None\<close> before \<open>new[]\<close> and after \<open>delete[]\<close>.  The index
  library is a record of operations over an index state the driver never looks into.
  The output is a list of events, one for each statement that prints.  Each part of
  \<open>main\<close> is a function on the state, and \<open>main_with\<close> runs them in the order of the
  source; \<open>main\<close> is \<open>main_with\<close> at the constants the source declares.
\<close>

section \<open>The index library\<close>

text \<open>
  The classes \<open>IndexFlatL2\<close>, \<open>IndexIVFPQFastScan\<close>, \<open>DirectMap\<close> and \<open>InvertedLists\<close> are
  not part of the sources; the driver sees their methods only.  \<open>new_index\<close> stands
  for the two constructor calls, and returns the exception when one of them throws.
  A pointer argument is passed as the cells the callee reads through it: \<open>n\<close> vectors
  of \<open>d\<close> floats from the pointer on (\<open>vectors_at\<close>); a call with a negative count, or
  with fewer cells behind the pointer, has no defined behaviour.  \<open>search\<close> returns the
  distances and the labels it writes through its two result pointers.
\<close>

datatype DirectMap_Type = NoMap | Array | Hashtable

record ('f, 'ix) index_api =
  new_index :: "int \<Rightarrow> int \<Rightarrow> int \<Rightarrow> int \<Rightarrow> exn + 'ix"
  set_direct_map_type :: "DirectMap_Type \<Rightarrow> 'ix \<Rightarrow> (unit, 'ix) outcome"
  train :: "int \<Rightarrow> 'f list \<Rightarrow> 'ix \<Rightarrow> (unit, 'ix) outcome"
  add_with_ids :: "int \<Rightarrow> 'f list \<Rightarrow> idx_t list \<Rightarrow> 'ix \<Rightarrow> (unit, 'ix) outcome"
  direct_map_get :: "idx_t \<Rightarrow> 'ix \<Rightarrow> (idx_t, 'ix) outcome"
  get_list_size :: "size_t \<Rightarrow> 'ix \<Rightarrow> (size_t, 'ix) outcome"
  get_single_id :: "size_t \<Rightarrow> size_t \<Rightarrow> 'ix \<Rightarrow> (idx_t, 'ix) outcome"
  remove_ids :: "idx_t list \<Rightarrow> 'ix \<Rightarrow> (size_t, 'ix) outcome"
  set_nprobe :: "size_t \<Rightarrow> 'ix \<Rightarrow> 'ix"
  search :: "int \<Rightarrow> 'f list \<Rightarrow> int \<Rightarrow> 'ix \<Rightarrow> ('f list \<times> idx_t list, 'ix) outcome"

definition lo_listno :: "64 word \<Rightarrow> 64 word" where
  "lo_listno lo = drop_bit 32 lo"

section \<open>The state of the driver\<close>

datatype ('i, 'f) event =
    Line string | Moved 'i | Label 'i | Distance 'f | End_row | Elapsed_time | Sleep nat

record ('f, 'ix) main_state =
  rng :: nat
  xb :: "'f list option"
  xq :: "'f list option"
  index :: "'ix option"
  moved_list :: "32 word list"
  I_arr :: "idx_t list option"
  D_arr :: "'f list option"
  xbb :: "'f list option"
  leaked :: "nat list"
  stdout :: "(idx_t, 'f) event list"

definition main_start :: "('f, 'ix) main_state" where
  "main_start =
     \<lparr>rng = 0, xb = None, xq = None, index = None, moved_list = [], I_arr = None,
      D_arr = None, xbb = None, leaked = [], stdout = []\<rparr>"

definition statements :: "('s \<Rightarrow> (unit, 's) outcome) list \<Rightarrow> 's \<Rightarrow> (unit, 's) outcome" where
  "statements = fold_outcome (\<lambda>statement. statement)"

definition discard :: "('a, 's) outcome \<Rightarrow> (unit, 's) outcome" where
  "discard m = and_then m (\<lambda>_. Returns ())"

definition say :: "(idx_t, 'f) event \<Rightarrow> ('f, 'ix) main_state \<Rightarrow> (unit, ('f, 'ix) main_state) outcome" where
  "say e s = Returns () (s\<lparr>stdout := stdout s @ [e]\<rparr>)"

definition on_index ::
  "('ix \<Rightarrow> ('a, 'ix) outcome) \<Rightarrow> ('f, 'ix) main_state \<Rightarrow> ('a, ('f, 'ix) main_state) outcome" where
  "on_index f s =
     (case index s of
        None \<Rightarrow> Undefined NullDeref
      | Some ix \<Rightarrow>
          (case f ix of
             Returns a ix' \<Rightarrow> Returns a (s\<lparr>index := Some ix'\<rparr>)
           | Throws e ix' \<Rightarrow> Throws e (s\<lparr>index := Some ix'\<rparr>)
           | Undefined u \<Rightarrow> Undefined u))"

definition vectors_at :: "'f list \<Rightarrow> int \<Rightarrow> int \<Rightarrow> int \<Rightarrow> 'f list option" where
  "vectors_at xs off n d =
     (if 0 \<le> off \<and> 0 \<le> n \<and> 0 \<le> d \<and> nat off + nat n * nat d \<le> length xs
      then Some (subrange xs (nat off) (nat n * nat d)) else None)"

definition pass_vectors ::
  "'f list option \<Rightarrow> int \<Rightarrow> int \<Rightarrow> int \<Rightarrow> 's \<Rightarrow> ('f list, 's) outcome" where
  "pass_vectors arr off n d s =
     (case arr of
        None \<Rightarrow> Undefined NullDeref
      | Some xs \<Rightarrow>
          (case vectors_at xs off n d of
             None \<Rightarrow> Undefined OutOfBounds
           | Some vs \<Rightarrow> Returns vs s))"

section \<open>Allocating and filling the vectors\<close>

definition new_product :: "(nat \<Rightarrow> 'a) \<Rightarrow> int \<Rightarrow> int \<Rightarrow> 's \<Rightarrow> ('a list, 's) outcome" where
  "new_product junk a b s =
     (case checked LONG_MAX (a * b) of
        None \<Rightarrow> Undefined SignedOverflow
      | Some n \<Rightarrow>
          (case new_floats junk n of
             None \<Rightarrow> Throws BadAlloc s
           | Some xs \<Rightarrow> Returns xs s))"

definition alloc_vectors ::
  "(nat \<Rightarrow> 'f) \<Rightarrow> int \<Rightarrow> int \<Rightarrow> int \<Rightarrow> ('f, 'ix) main_state \<Rightarrow> (unit, ('f, 'ix) main_state) outcome"
where
  "alloc_vectors junk d nb nq s =
     and_then (new_product junk d nb s) (\<lambda>xs s.
     and_then (new_product junk d nq (s\<lparr>xb := Some xs\<rparr>)) (\<lambda>ys s.
     Returns () (s\<lparr>xq := Some ys\<rparr>)))"

definition filled :: "('t \<Rightarrow> 's) \<Rightarrow> (unit, 't) outcome \<Rightarrow> (unit, 's) outcome" where
  "filled put m =
     (case m of
        Returns _ t \<Rightarrow> Returns () (put t)
      | Throws e t \<Rightarrow> Throws e (put t)
      | Undefined u \<Rightarrow> Undefined u)"

definition fill_xb ::
  "(nat \<Rightarrow> 'f) \<Rightarrow> ('f \<Rightarrow> int \<Rightarrow> 'f) \<Rightarrow> int \<Rightarrow> int \<Rightarrow> ('f, 'ix) main_state \<Rightarrow>
   (unit, ('f, 'ix) main_state) outcome" where
  "fill_xb draw bump d nb s =
     (case xb s of
        None \<Rightarrow> Undefined NullDeref
      | Some xs \<Rightarrow>
          filled (\<lambda>(xs', r). s\<lparr>xb := Some xs', rng := r\<rparr>)
            (fill_rows draw bump d nb (xs, rng s)))"

definition fill_xq ::
  "(nat \<Rightarrow> 'f) \<Rightarrow> ('f \<Rightarrow> int \<Rightarrow> 'f) \<Rightarrow> int \<Rightarrow> int \<Rightarrow> ('f, 'ix) main_state \<Rightarrow>
   (unit, ('f, 'ix) main_state) outcome" where
  "fill_xq draw bump d nq s =
     (case xq s of
        None \<Rightarrow> Undefined NullDeref
      | Some xs \<Rightarrow>
          filled (\<lambda>(xs', r). s\<lparr>xq := Some xs', rng := r\<rparr>)
            (fill_rows draw bump d nq (xs, rng s)))"

section \<open>Building the index\<close>

definition long_div :: "int \<Rightarrow> int \<Rightarrow> int" where
  "long_div a b = sgn a * sgn b * (\<bar>a\<bar> div \<bar>b\<bar>)"

definition train_index ::
  "('f, 'ix) index_api \<Rightarrow> int \<Rightarrow> int \<Rightarrow> ('f, 'ix) main_state \<Rightarrow> (unit, ('f, 'ix) main_state) outcome"
where
  "train_index api d nb s =
     and_then (pass_vectors (xb s) 0 nb d s) (\<lambda>vs. on_index (train api nb vs))"

definition build_index ::
  "('f, 'ix) index_api \<Rightarrow> int \<Rightarrow> int \<Rightarrow> int \<Rightarrow> int \<Rightarrow> ('f, 'ix) main_state \<Rightarrow>
   (unit, ('f, 'ix) main_state) outcome" where
  "build_index api d nb nlist bits_per_code s =
     (case new_index api d nlist (long_div d 2) bits_per_code of
        Inl e \<Rightarrow> Throws e s
      | Inr ix \<Rightarrow>
          statements
            [on_index (set_direct_map_type api Hashtable),
             say (Line ''pre train''),
             train_index api d nb,
             say (Line ''after train'')]
            (s\<lparr>index := Some ix\<rparr>))"

section \<open>Adding the vectors one by one\<close>

definition add_vector ::
  "('f, 'ix) index_api \<Rightarrow> int \<Rightarrow> int \<Rightarrow> int \<Rightarrow> ('f, 'ix) main_state \<Rightarrow>
   (unit, ('f, 'ix) main_state) outcome" where
  "add_vector api d id_offset i s =
     (case checked LONG_MAX (i + id_offset) of
        None \<Rightarrow> Undefined SignedOverflow
      | Some this_id \<Rightarrow>
          (case checked LONG_MAX (i * d) of
             None \<Rightarrow> Undefined SignedOverflow
           | Some off \<Rightarrow>
               and_then (pass_vectors (xb s) off 1 d s) (\<lambda>vs.
                 on_index (add_with_ids api 1 vs [of_int this_id]))))"

definition add_vectors ::
  "('f, 'ix) index_api \<Rightarrow> int \<Rightarrow> int \<Rightarrow> int \<Rightarrow> ('f, 'ix) main_state \<Rightarrow>
   (unit, ('f, 'ix) main_state) outcome" where
  "add_vectors api d nb id_offset =
     statements [for_signed LONG_MAX 0 nb (add_vector api d id_offset), say (Line ''after add'')]"

section \<open>Removing the first vectors\<close>

definition remove_one ::
  "('f, 'ix) index_api \<Rightarrow> int \<Rightarrow> int \<Rightarrow> ('f, 'ix) main_state \<Rightarrow>
   (unit, ('f, 'ix) main_state) outcome" where
  "remove_one api id_offset i s =
     (case checked INT_MAX (id_offset + i) of
        None \<Rightarrow> Undefined SignedOverflow
      | Some this_id \<Rightarrow>
          and_then (on_index (direct_map_get api (of_int this_id)) s) (\<lambda>lo s.
          and_then (on_index (get_list_size api (lo_listno lo)) s) (\<lambda>size s.
          and_then (on_index (get_single_id api (lo_listno lo) (size - 1)) s) (\<lambda>moved_id s.
            statements
              [\<lambda>s. Returns () (s\<lparr>moved_list := moved_list s @ [ucast moved_id]\<rparr>),
               say (Moved moved_id),
               \<lambda>s. discard (on_index (remove_ids api [of_int this_id]) s)]
              s))))"

definition remove_first ::
  "('f, 'ix) index_api \<Rightarrow> int \<Rightarrow> int \<Rightarrow> ('f, 'ix) main_state \<Rightarrow>
   (unit, ('f, 'ix) main_state) outcome" where
  "remove_first api sanity_check_num id_offset =
     statements
       [\<lambda>s. Returns () (s\<lparr>moved_list := []\<rparr>),
        for_signed INT_MAX 0 sanity_check_num (remove_one api id_offset),
        say (Line ''after remove'')]"

section \<open>The sanity check\<close>

definition copy_cell ::
  "int \<Rightarrow> int \<Rightarrow> int \<Rightarrow> int \<Rightarrow> ('f, 'ix) main_state \<Rightarrow> (unit, ('f, 'ix) main_state) outcome"
where
  "copy_cell d id_offset i j s =
     (case (xb s, xbb s) of
        (Some src, Some dst) \<Rightarrow>
          (case ptr_read (moved_list s) i of
             None \<Rightarrow> Undefined OutOfBounds
           | Some moved \<Rightarrow>
               (case row_index d (uint (moved - of_int id_offset)) j of
                  None \<Rightarrow> Undefined SignedOverflow
                | Some c_from \<Rightarrow>
                    (case ptr_read src c_from of
                       None \<Rightarrow> Undefined OutOfBounds
                     | Some v \<Rightarrow>
                         (case row_index d i j of
                            None \<Rightarrow> Undefined SignedOverflow
                          | Some c_to \<Rightarrow>
                              (case ptr_write dst c_to v of
                                 None \<Rightarrow> Undefined OutOfBounds
                               | Some dst' \<Rightarrow> Returns () (s\<lparr>xbb := Some dst'\<rparr>))))))
      | _ \<Rightarrow> Undefined NullDeref)"

definition copy_moved ::
  "int \<Rightarrow> int \<Rightarrow> int \<Rightarrow> ('f, 'ix) main_state \<Rightarrow> (unit, ('f, 'ix) main_state) outcome" where
  "copy_moved d sanity_check_num id_offset =
     for_signed INT_MAX 0 sanity_check_num (\<lambda>i.
       for_signed INT_MAX 0 d (copy_cell d id_offset i))"

definition search_into ::
  "('f, 'ix) index_api \<Rightarrow> 'f list option \<Rightarrow> int \<Rightarrow> int \<Rightarrow> int \<Rightarrow> ('f, 'ix) main_state \<Rightarrow>
   (unit, ('f, 'ix) main_state) outcome" where
  "search_into api x n d k s =
     and_then (pass_vectors x 0 n d s) (\<lambda>vs s.
     and_then (on_index (search api n vs k) s) (\<lambda>(distances, labels) s.
       (case (D_arr s, I_arr s) of
          (Some D, Some I) \<Rightarrow>
            if length distances \<le> length D \<and> length labels \<le> length I
            then Returns ()
              (s\<lparr>D_arr := Some (overwrite D 0 distances), I_arr := Some (overwrite I 0 labels)\<rparr>)
            else Undefined OutOfBounds
        | _ \<Rightarrow> Undefined NullDeref)))"

definition print_label ::
  "int \<Rightarrow> int \<Rightarrow> int \<Rightarrow> ('f, 'ix) main_state \<Rightarrow> (unit, ('f, 'ix) main_state) outcome" where
  "print_label k i j s =
     (case I_arr s of
        None \<Rightarrow> Undefined NullDeref
      | Some I \<Rightarrow>
          (case row_index i k j of
             None \<Rightarrow> Undefined SignedOverflow
           | Some c \<Rightarrow>
               (case ptr_read I c of
                  None \<Rightarrow> Undefined OutOfBounds
                | Some v \<Rightarrow> say (Label v) s)))"

definition print_distance ::
  "int \<Rightarrow> int \<Rightarrow> int \<Rightarrow> ('f, 'ix) main_state \<Rightarrow> (unit, ('f, 'ix) main_state) outcome" where
  "print_distance k i j s =
     (case D_arr s of
        None \<Rightarrow> Undefined NullDeref
      | Some D \<Rightarrow>
          (case row_index i k j of
             None \<Rightarrow> Undefined SignedOverflow
           | Some c \<Rightarrow>
               (case ptr_read D c of
                  None \<Rightarrow> Undefined OutOfBounds
                | Some v \<Rightarrow> say (Distance v) s)))"

definition print_rows ::
  "(int \<Rightarrow> int \<Rightarrow> ('f, 'ix) main_state \<Rightarrow> (unit, ('f, 'ix) main_state) outcome) \<Rightarrow> int \<Rightarrow> int \<Rightarrow>
   ('f, 'ix) main_state \<Rightarrow> (unit, ('f, 'ix) main_state) outcome" where
  "print_rows cell k sanity_check_num =
     for_signed LONG_MAX 0 sanity_check_num (\<lambda>i.
       statements [for_signed LONG_MAX 0 k (cell i), say End_row])"

definition delete_results :: "('f, 'ix) main_state \<Rightarrow> (unit, ('f, 'ix) main_state) outcome" where
  "delete_results s =
     (if I_arr s = None \<or> D_arr s = None then Undefined InvalidFree
      else Returns () (s\<lparr>I_arr := None, D_arr := None\<rparr>))"

definition new_results ::
  "(nat \<Rightarrow> 'f) \<Rightarrow> (nat \<Rightarrow> idx_t) \<Rightarrow> int \<Rightarrow> int \<Rightarrow> ('f, 'ix) main_state \<Rightarrow>
   (unit, ('f, 'ix) main_state) outcome" where
  "new_results junk junk_id k n s =
     and_then (new_product junk_id k n s) (\<lambda>I s.
     and_then (new_product junk k n (s\<lparr>I_arr := Some I\<rparr>)) (\<lambda>D s.
     Returns () (s\<lparr>D_arr := Some D\<rparr>)))"

definition print_results :: "int \<Rightarrow> int \<Rightarrow> ('f, 'ix) main_state \<Rightarrow> (unit, ('f, 'ix) main_state) outcome"
where
  "print_results k sanity_check_num =
     statements
       [say (Line ''I=''),
        print_rows (print_label k) k sanity_check_num,
        say (Line ''D=''),
        print_rows (print_distance k) k sanity_check_num]"

definition new_xbb ::
  "(nat \<Rightarrow> 'f) \<Rightarrow> int \<Rightarrow> int \<Rightarrow> ('f, 'ix) main_state \<Rightarrow> (unit, ('f, 'ix) main_state) outcome" where
  "new_xbb junk sanity_check_num d s =
     and_then (new_product junk sanity_check_num d s) (\<lambda>xs s. Returns () (s\<lparr>xbb := Some xs\<rparr>))"

text \<open>
  At the end of a block its pointer variables are gone; an array that was not deleted
  stays allocated with no pointer to it.  \<open>leaked\<close> lists the sizes of such arrays.
\<close>

definition lost :: "'a list option \<Rightarrow> nat list" where
  "lost p = (case p of None \<Rightarrow> [] | Some xs \<Rightarrow> [length xs])"

definition leave_check :: "('f, 'ix) main_state \<Rightarrow> (unit, ('f, 'ix) main_state) outcome" where
  "leave_check s =
     Returns ()
       (s\<lparr>leaked := leaked s @ lost (I_arr s) @ lost (D_arr s) @ lost (xbb s),
          I_arr := None, D_arr := None, xbb := None\<rparr>)"

definition sanity_check ::
  "(nat \<Rightarrow> 'f) \<Rightarrow> (nat \<Rightarrow> idx_t) \<Rightarrow> ('f, 'ix) index_api \<Rightarrow> int \<Rightarrow> int \<Rightarrow> int \<Rightarrow> int \<Rightarrow>
   ('f, 'ix) main_state \<Rightarrow> (unit, ('f, 'ix) main_state) outcome" where
  "sanity_check junk junk_id api d k sanity_check_num id_offset =
     statements
       [new_results junk junk_id k sanity_check_num,
        new_xbb junk sanity_check_num d,
        copy_moved d sanity_check_num id_offset,
        \<lambda>s. search_into api (xb s) sanity_check_num d k s,
        print_results k sanity_check_num,
        delete_results,
        leave_check]"

section \<open>The search and the end of the driver\<close>

definition free_xb :: "('f, 'ix) main_state \<Rightarrow> (unit, ('f, 'ix) main_state) outcome" where
  "free_xb s =
     (case xb s of
        None \<Rightarrow> Undefined InvalidFree
      | Some _ \<Rightarrow> statements [say (Line ''train done''), say (Sleep 1000)] (s\<lparr>xb := None\<rparr>))"

definition leave_search :: "('f, 'ix) main_state \<Rightarrow> (unit, ('f, 'ix) main_state) outcome" where
  "leave_search s =
     Returns ()
       (s\<lparr>leaked := leaked s @ lost (I_arr s) @ lost (D_arr s), I_arr := None, D_arr := None\<rparr>)"

definition search_xq ::
  "(nat \<Rightarrow> 'f) \<Rightarrow> (nat \<Rightarrow> idx_t) \<Rightarrow> ('f, 'ix) index_api \<Rightarrow> int \<Rightarrow> int \<Rightarrow> int \<Rightarrow>
   ('f, 'ix) main_state \<Rightarrow> (unit, ('f, 'ix) main_state) outcome" where
  "search_xq junk junk_id api d nq k =
     statements
       [new_results junk junk_id k nq,
        \<lambda>s. discard (on_index (\<lambda>ix. Returns () (set_nprobe api 10 ix)) s),
        \<lambda>s. search_into api (xq s) nq d k s,
        say Elapsed_time,
        delete_results,
        leave_search]"

definition free_xq :: "('f, 'ix) main_state \<Rightarrow> (unit, ('f, 'ix) main_state) outcome" where
  "free_xq s =
     (case xq s of
        None \<Rightarrow> Undefined InvalidFree
      | Some _ \<Rightarrow> Returns () (s\<lparr>xq := None\<rparr>))"

definition leave_main :: "('f, 'ix) main_state \<Rightarrow> (int, ('f, 'ix) main_state) outcome" where
  "leave_main s =
     Returns 0 (s\<lparr>leaked := leaked s @ lost (xb s) @ lost (xq s), xb := None, xq := None\<rparr>)"

definition main_with ::
  "(nat \<Rightarrow> 'f) \<Rightarrow> (nat \<Rightarrow> idx_t) \<Rightarrow> (nat \<Rightarrow> 'f) \<Rightarrow> ('f \<Rightarrow> int \<Rightarrow> 'f) \<Rightarrow> ('f, 'ix) index_api \<Rightarrow>
   int \<Rightarrow> int \<Rightarrow> int \<Rightarrow> int \<Rightarrow> int \<Rightarrow> int \<Rightarrow> int \<Rightarrow> int \<Rightarrow> (int, ('f, 'ix) main_state) outcome"
where
  "main_with junk junk_id draw bump api d nb nq nlist k bits_per_code sanity_check_num id_offset =
     and_then
       (statements
          [alloc_vectors junk d nb nq,
           fill_xb draw bump d nb,
           fill_xq draw bump d nq,
           build_index api d nb nlist bits_per_code,
           add_vectors api d nb id_offset,
           remove_first api sanity_check_num id_offset,
           sanity_check junk junk_id api d k sanity_check_num id_offset,
           free_xb,
           search_xq junk junk_id api d nq k,
           free_xq]
          main_start)
       (\<lambda>_. leave_main)"

definition main ::
  "(nat \<Rightarrow> 'f) \<Rightarrow> (nat \<Rightarrow> idx_t) \<Rightarrow> (nat \<Rightarrow> 'f) \<Rightarrow> ('f \<Rightarrow> int \<Rightarrow> 'f) \<Rightarrow> ('f, 'ix) index_api \<Rightarrow>
   (int, ('f, 'ix) main_state) outcome" where
  "main junk junk_id draw bump api =
     main_with junk junk_id draw bump api 768 50000 1000 100 4 4 5 1000"

section \<open>Statements that return\<close>

lemma statements_Nil [simp]: "statements [] s = Returns () s"
  by (simp add: statements_def)

lemma statements_then:
  "statements first s = Returns () s' \<Longrightarrow> statements (first @ rest) s = statements rest s'"
  by (simp add: statements_def fold_outcome_append)

lemma say_Returns [simp]: "say e s = Returns () (s\<lparr>stdout := stdout s @ [e]\<rparr>)"
  by (simp add: say_def)

lemma on_index_same:
  "index s = Some ix \<Longrightarrow> f ix = Returns a ix \<Longrightarrow> on_index f s = Returns a s"
  by (simp add: on_index_def)

lemma set_index_same [simp]: "index s = Some ix \<Longrightarrow> s\<lparr>index := Some ix\<rparr> = s"
  by (cases s) simp

lemma pass_vectors_Returns:
  assumes "arr = Some xs" "0 \<le> off" "0 \<le> n" "0 \<le> d" "nat off + nat n * nat d \<le> length xs"
  shows "pass_vectors arr off n d s = Returns (subrange xs (nat off) (nat n * nat d)) s"
  using assms by (simp add: pass_vectors_def vectors_at_def)

lemma new_product_Returns:
  "0 \<le> a * b \<Longrightarrow> a * b \<le> LONG_MAX \<Longrightarrow>
   new_product junk a b s = Returns (map junk [0..<nat (a * b)]) s"
  by (simp add: new_product_def new_floats_def checked_def)

lemma new_results_Returns:
  "0 \<le> k * n \<Longrightarrow> k * n \<le> LONG_MAX \<Longrightarrow>
   new_results junk junk_id k n s =
     Returns () (s\<lparr>I_arr := Some (map junk_id [0..<nat (k * n)]),
                  D_arr := Some (map junk [0..<nat (k * n)])\<rparr>)"
  by (simp add: new_results_def new_product_Returns)

lemma free_xb_Returns:
  "xb s = Some xs \<Longrightarrow>
   free_xb s = Returns () (s\<lparr>xb := None, stdout := stdout s @ [Line ''train done'', Sleep 1000]\<rparr>)"
  by (simp add: free_xb_def statements_def)

lemma lost_simps [simp]: "lost None = []" "lost (Some xs) = [length xs]"
  by (simp_all add: lost_def)

lemma free_xq_Returns: "xq s = Some ys \<Longrightarrow> free_xq s = Returns () (s\<lparr>xq := None\<rparr>)"
  by (simp add: free_xq_def)

end
