(* ===== verification/Tutorial_Index.thy ===== *)
theory Tutorial_Index
  imports Tutorial_Main
begin

text \<open>
  What the tutorial driver needs from the index library, as a contract over the
  operations of \<open>index_api\<close>, a small index that keeps the contract, and the calls the
  loop that adds the database makes.
\<close>

section \<open>The contract\<close>

text \<open>
  The identifiers the driver adds are \<open>id_offset + i\<close> for the rows \<open>i\<close> of the database.
  \<open>holds S ix\<close> reads: the index state \<open>ix\<close> stores exactly the identifiers \<open>S\<close>.  The
  contract asks of the library what the driver relies on: the constructor and the
  calls return, a stored identifier has a place in a list that is not empty, the last
  entry of a list is a stored identifier, and a search for \<open>n\<close> vectors yields \<open>n * k\<close>
  distances and labels.
\<close>

definition id_range :: "int \<Rightarrow> int \<Rightarrow> idx_t set" where
  "id_range id_offset n = (\<lambda>i. of_int (id_offset + i)) ` {0..<n}"

definition returns_with ::
  "(idx_t set \<Rightarrow> 'ix \<Rightarrow> bool) \<Rightarrow> ('ix \<Rightarrow> ('a, 'ix) outcome) \<Rightarrow> idx_t set \<Rightarrow> ('a \<Rightarrow> bool) \<Rightarrow>
   idx_t set \<Rightarrow> bool" where
  "returns_with holds f S Q S' \<longleftrightarrow>
     (\<forall>ix. holds S ix \<longrightarrow> (\<exists>a ix'. f ix = Returns a ix' \<and> Q a \<and> holds S' ix'))"

definition finds_last ::
  "('f, 'ix) index_api \<Rightarrow> (idx_t set \<Rightarrow> 'ix \<Rightarrow> bool) \<Rightarrow> idx_t set \<Rightarrow> idx_t \<Rightarrow> bool" where
  "finds_last api holds S x \<longleftrightarrow>
     (\<forall>ix. holds S ix \<longrightarrow>
        (\<exists>lo n y. direct_map_get api x ix = Returns lo ix \<and>
           get_list_size api (lo_listno lo) ix = Returns n ix \<and> n \<noteq> 0 \<and>
           get_single_id api (lo_listno lo) (n - 1) ix = Returns y ix \<and> y \<in> S))"

definition index_contract ::
  "('f, 'ix) index_api \<Rightarrow> (idx_t set \<Rightarrow> 'ix \<Rightarrow> bool) \<Rightarrow> idx_t set \<Rightarrow> int \<Rightarrow> int \<Rightarrow> int \<Rightarrow> bool"
where
  "index_contract api holds U d nlist bits_per_code \<longleftrightarrow>
     (\<exists>ix. new_index api d nlist (long_div d 2) bits_per_code = Inr ix \<and> holds {} ix) \<and>
     (\<forall>S t. returns_with holds (set_direct_map_type api t) S (\<lambda>_. True) S) \<and>
     (\<forall>S n xs. returns_with holds (train api n xs) S (\<lambda>_. True) S) \<and>
     (\<forall>S x v. S \<subseteq> U \<longrightarrow> x \<in> U \<longrightarrow> x \<notin> S \<longrightarrow> length v = nat d \<longrightarrow>
        returns_with holds (add_with_ids api 1 v [x]) S (\<lambda>_. True) (insert x S)) \<and>
     (\<forall>S x. S \<subseteq> U \<longrightarrow> x \<in> S \<longrightarrow> finds_last api holds S x) \<and>
     (\<forall>S x. returns_with holds (remove_ids api [x]) S (\<lambda>_. True) (S - {x})) \<and>
     (\<forall>S n. returns_with holds (\<lambda>ix. Returns () (set_nprobe api n ix)) S (\<lambda>_. True) S) \<and>
     (\<forall>S n xs k. 0 \<le> n \<longrightarrow> 0 \<le> k \<longrightarrow> length xs = nat n * nat d \<longrightarrow>
        returns_with holds (search api n xs k) S
          (\<lambda>(ds, ls). length ds = nat n * nat k \<and> length ls = nat n * nat k) S)"

definition indexed :: "(idx_t set \<Rightarrow> 'ix \<Rightarrow> bool) \<Rightarrow> idx_t set \<Rightarrow> ('f, 'ix) main_state \<Rightarrow> bool" where
  "indexed holds S s \<longleftrightarrow> (\<exists>ix. index s = Some ix \<and> holds S ix)"

lemma indexed_update [simp]:
  "indexed holds S (s\<lparr>stdout := out\<rparr>) = indexed holds S s"
  "indexed holds S (s\<lparr>moved_list := ml\<rparr>) = indexed holds S s"
  "indexed holds S (s\<lparr>rng := r\<rparr>) = indexed holds S s"
  "indexed holds S (s\<lparr>xb := a0\<rparr>) = indexed holds S s"
  "indexed holds S (s\<lparr>xq := a1\<rparr>) = indexed holds S s"
  "indexed holds S (s\<lparr>xbb := a\<rparr>) = indexed holds S s"
  "indexed holds S (s\<lparr>I_arr := b\<rparr>) = indexed holds S s"
  "indexed holds S (s\<lparr>D_arr := c\<rparr>) = indexed holds S s"
  by (simp_all add: indexed_def)

lemma indexed_index [simp]: "indexed holds S (s\<lparr>index := Some ix\<rparr>) = holds S ix"
  by (simp add: indexed_def)

lemma index_contractD:
  assumes "index_contract api holds U d nlist bits_per_code"
  shows "\<exists>ix. new_index api d nlist (long_div d 2) bits_per_code = Inr ix \<and> holds {} ix"
    and "returns_with holds (set_direct_map_type api t) S (\<lambda>_. True) S"
    and "returns_with holds (train api n xs) S (\<lambda>_. True) S"
    and "S \<subseteq> U \<Longrightarrow> x \<in> U \<Longrightarrow> x \<notin> S \<Longrightarrow> length v = nat d \<Longrightarrow>
      returns_with holds (add_with_ids api 1 v [x]) S (\<lambda>_. True) (insert x S)"
    and "S \<subseteq> U \<Longrightarrow> x \<in> S \<Longrightarrow> finds_last api holds S x"
    and "returns_with holds (remove_ids api [x]) S (\<lambda>_. True) (S - {x})"
    and "returns_with holds (\<lambda>ix. Returns () (set_nprobe api np ix)) S (\<lambda>_. True) S"
    and "0 \<le> n \<Longrightarrow> 0 \<le> k \<Longrightarrow> length xs = nat n * nat d \<Longrightarrow>
      returns_with holds (search api n xs k) S
        (\<lambda>(ds, ls). length ds = nat n * nat k \<and> length ls = nat n * nat k) S"
  using assms by (simp_all add: index_contract_def)

lemma on_index_returns_with:
  assumes "returns_with holds f S Q S'" "indexed holds S s"
  shows "\<exists>a ix'. on_index f s = Returns a (s\<lparr>index := Some ix'\<rparr>) \<and> Q a \<and> holds S' ix'"
proof -
  from assms(2) obtain ix where ix: "index s = Some ix" "holds S ix" by (auto simp: indexed_def)
  with assms(1) obtain a ix' where "f ix = Returns a ix'" "Q a" "holds S' ix'"
    unfolding returns_with_def by blast
  with ix(1) show ?thesis by (auto simp: on_index_def)
qed

section \<open>The identifiers of the rows\<close>

lemma id_range_0 [simp]: "id_range id_offset 0 = {}"
  by (simp add: id_range_def)

lemma id_range_Suc:
  "0 \<le> j \<Longrightarrow> id_range id_offset (j + 1) = insert (of_int (id_offset + j)) (id_range id_offset j)"
proof -
  assume "0 \<le> j"
  then have "{0..<j + 1} = insert j {0..<j}" by auto
  then show ?thesis by (simp add: id_range_def)
qed

lemma id_range_mono: "j \<le> n \<Longrightarrow> id_range id_offset j \<subseteq> id_range id_offset n"
  by (auto simp: id_range_def)

lemma id_range_inj:
  assumes "0 \<le> id_offset" "id_offset + n \<le> INT_MAX" "0 \<le> i" "i < n" "0 \<le> j" "j < n"
    and eq: "(of_int (id_offset + i) :: idx_t) = of_int (id_offset + j)"
  shows "i = j"
proof -
  from assms(1-6) have "take_bit 64 i = i" "take_bit 64 j = j"
    by (simp_all add: take_bit_int_eq_self)
  moreover from eq have "(of_int i :: idx_t) = of_int j" by simp
  ultimately show ?thesis by (simp add: word_of_int_eq_iff)
qed

lemma id_range_fresh:
  assumes "0 \<le> id_offset" "id_offset + n \<le> INT_MAX" "0 \<le> j" "j < n"
  shows "of_int (id_offset + j) \<notin> id_range id_offset j"
    "of_int (id_offset + j) \<in> id_range id_offset n"
proof -
  show "of_int (id_offset + j) \<notin> id_range id_offset j"
  proof
    assume "of_int (id_offset + j) \<in> id_range id_offset j"
    then obtain i where i: "0 \<le> i" "i < j" "(of_int (id_offset + j) :: idx_t) = of_int (id_offset + i)"
      by (auto simp: id_range_def)
    with id_range_inj [OF assms(1,2) _ _ assms(3,4), of i] assms(4) show False by simp
  qed
  from assms(3,4) show "of_int (id_offset + j) \<in> id_range id_offset n"
    by (auto simp: id_range_def)
qed

lemma card_id_range: "card (id_range id_offset n) \<le> nat n"
  unfolding id_range_def by (rule order_trans [OF card_image_le]) simp_all

lemma moved_in_rows:
  assumes "0 \<le> id_offset" "id_offset + nb \<le> INT_MAX" "y \<in> id_range id_offset nb"
  shows "uint ((ucast y :: 32 word) - of_int id_offset) < nb"
proof -
  from assms(3) obtain t where t: "0 \<le> t" "t < nb" "y = of_int (id_offset + t)"
    by (auto simp: id_range_def)
  have "(ucast y :: 32 word) = of_int (id_offset + t)"
    unfolding t(3) by (rule ucast_down_wi) (simp add: is_down)
  then have "(ucast y :: 32 word) - of_int id_offset = of_int t" by simp
  moreover from t assms(1,2) have "uint (of_int t :: 32 word) = t"
    by (simp add: uint_word_of_int take_bit_int_eq_self)
  ultimately show ?thesis using t(2) by simp
qed

section \<open>An index that keeps the contract\<close>

definition toy_index :: "('f, idx_t list) index_api" where
  "toy_index =
     \<lparr>new_index = \<lambda>d nlist m bits_per_code. Inr [],
      set_direct_map_type = \<lambda>t ix. Returns () ix,
      train = \<lambda>n xs ix. Returns () ix,
      add_with_ids = \<lambda>n xs new_ids ix. Returns () (ix @ new_ids),
      direct_map_get = \<lambda>x ix.
        if x \<in> set ix then Returns 0 ix else Throws (FaissException ''key not found'') ix,
      get_list_size = \<lambda>list_no ix. Returns (of_nat (length ix)) ix,
      get_single_id = \<lambda>list_no offset ix.
        (case at ix offset of None \<Rightarrow> Undefined AssertFailed | Some y \<Rightarrow> Returns y ix),
      remove_ids = \<lambda>sel ix.
        Returns (of_nat (length (filter (\<lambda>x. x \<in> set sel) ix))) (filter (\<lambda>x. x \<notin> set sel) ix),
      set_nprobe = \<lambda>n ix. ix,
      search = \<lambda>n xs k ix. Returns (replicate (nat n * nat k) (hd xs), replicate (nat n * nat k) (- 1)) ix\<rparr>"

definition toy_holds :: "idx_t set \<Rightarrow> idx_t list \<Rightarrow> bool" where
  "toy_holds S ix \<longleftrightarrow> set ix = S \<and> distinct ix"

lemma toy_index_sel [simp]:
  "new_index toy_index d nlist m b = Inr []"
  "set_direct_map_type toy_index t ix = Returns () ix"
  "train toy_index n xs ix = Returns () ix"
  "add_with_ids toy_index n xs new_ids ix = Returns () (ix @ new_ids)"
  "remove_ids toy_index sel ix =
     Returns (of_nat (length (filter (\<lambda>x. x \<in> set sel) ix))) (filter (\<lambda>x. x \<notin> set sel) ix)"
  "set_nprobe toy_index np ix = ix"
  "search toy_index n xs k ix =
     Returns (replicate (nat n * nat k) (hd xs), replicate (nat n * nat k) (- 1)) ix"
  by (simp_all add: toy_index_def)

lemma toy_finds_last:
  assumes "toy_holds S ix" "x \<in> S" "length ix < size_limit"
  shows "\<exists>lo n y. direct_map_get toy_index x ix = Returns lo ix \<and>
           get_list_size toy_index (lo_listno lo) ix = Returns n ix \<and> n \<noteq> 0 \<and>
           get_single_id toy_index (lo_listno lo) (n - 1) ix = Returns y ix \<and> y \<in> S"
proof -
  from assms(1,2) have x: "x \<in> set ix" and ne: "0 < length ix" by (auto simp: toy_holds_def)
  let ?n = "of_nat (length ix) :: size_t"
  from assms(3) have n: "unat ?n = length ix" by (simp add: unat_of_nat_len)
  with ne have "?n \<noteq> 0" by (metis less_numeral_extra(3) unat_0)
  then have "unat (?n - 1) = length ix - 1" using n by (simp add: unat_minus_one)
  with ne have "at ix (?n - 1) = Some (ix ! (length ix - 1))" by (simp add: at_def)
  moreover from ne have "ix ! (length ix - 1) \<in> set ix" by simp
  ultimately show ?thesis
    using x \<open>?n \<noteq> 0\<close> assms(1) by (simp add: toy_index_def toy_holds_def)
qed

lemma toy_index_contract:
  assumes "n \<le> LONG_MAX"
  shows "index_contract toy_index toy_holds (id_range id_offset n) d nlist bits_per_code"
proof -
  have "finds_last toy_index toy_holds S x" if "S \<subseteq> id_range id_offset n" "x \<in> S" for S x
    unfolding finds_last_def
  proof (intro allI impI)
    fix ix :: "idx_t list" assume ix: "toy_holds S ix"
    then have "length ix = card S" by (simp add: toy_holds_def distinct_card [symmetric])
    also have "card S \<le> card (id_range id_offset n)"
      using that(1) by (intro card_mono) (simp_all add: id_range_def)
    also note card_id_range
    finally have "length ix < size_limit" using assms by (simp add: nat_le_iff) 
    from toy_finds_last [OF ix that(2) this]
    show "\<exists>lo n y. direct_map_get toy_index x ix = Returns lo ix \<and>
        get_list_size toy_index (lo_listno lo) ix = Returns n ix \<and> n \<noteq> 0 \<and>
        get_single_id toy_index (lo_listno lo) (n - 1) ix = Returns y ix \<and> y \<in> S" .
  qed
  then show ?thesis
    by (auto simp: index_contract_def returns_with_def toy_holds_def)
qed

section \<open>The calls of the add loop\<close>

lemma add_vector_call:
  assumes "0 \<le> d" "0 \<le> j" "j < nb" "d * nb \<le> LONG_MAX" "0 \<le> id_offset" "nb + id_offset \<le> LONG_MAX"
    and "xb s = Some xs" "length xs = nat (d * nb)"
  shows "add_vector api d id_offset j s =
    on_index (add_with_ids api 1 (subrange xs (nat (j * d)) (nat d)) [of_int (j + id_offset)]) s"
proof -
  note r = row_in_rows [OF assms(2,3,1)]
  from assms have "checked LONG_MAX (j + id_offset) = Some (j + id_offset)"
    by (simp add: checked_def)
  moreover from r assms(1,4) have "checked LONG_MAX (j * d) = Some (j * d)"
    by (simp add: checked_def)
  moreover from r assms(1,8) have "nat (j * d) + nat 1 * nat d \<le> length xs" by (simp add: nat_le_iff)
  with assms(7) r(2) assms(1)
  have "pass_vectors (xb s) (j * d) 1 d s = Returns (subrange xs (nat (j * d)) (nat 1 * nat d)) s"
    by (intro pass_vectors_Returns) simp_all
  ultimately show ?thesis by (simp add: add_vector_def del: of_int_add)
qed

lemma on_index_fold:
  assumes "index s = Some ix" "\<And>j t. j \<in> set js \<Longrightarrow> xb t = xb s \<Longrightarrow> body j t = on_index (f j) t"
  shows "fold_outcome body js s = on_index (fold_outcome f js) s"
  using assms
proof (induction js arbitrary: s ix)
  case Nil
  then show ?case by (simp add: on_index_def)
next
  case (Cons j js)
  from Cons.prems(2) [of j s] have step: "body j s = on_index (f j) s" by simp
  show ?case
  proof (cases "f j ix")
    case (Returns u ix')
    have "fold_outcome body js (s\<lparr>index := Some ix'\<rparr>) =
        on_index (fold_outcome f js) (s\<lparr>index := Some ix'\<rparr>)"
      using Cons.prems(2) by (intro Cons.IH [of _ ix']) simp_all
    with Returns step Cons.prems(1) show ?thesis
      by (simp add: on_index_def split: outcome.splits)
  qed (use step Cons.prems(1) in \<open>simp_all add: on_index_def\<close>)
qed

text \<open>
  C25. The loop that adds the database calls \<open>add_with_ids\<close> once for every row, in the
  order of the rows, with the \<open>d\<close> cells of row \<open>i\<close> and the identifier \<open>i + id_offset\<close>:
  it is the fold of these calls over the index, and it ends where the first of them
  throws.
\<close>

theorem add_loop_calls:
  assumes "0 \<le> d" "0 \<le> nb" "d * nb \<le> LONG_MAX" "0 \<le> id_offset" "nb + id_offset \<le> LONG_MAX"
    and "xb s = Some xs" "length xs = nat (d * nb)" "index s = Some ix"
  shows "for_signed LONG_MAX 0 nb (add_vector api d id_offset) s =
    on_index
      (fold_outcome
         (\<lambda>i. add_with_ids api 1 (subrange xs (nat (i * d)) (nat d)) [of_int (i + id_offset)])
         [0..nb - 1]) s"
proof -
  from assms(2,4,5) have "nb \<le> LONG_MAX" by simp
  then have "for_signed LONG_MAX 0 nb (add_vector api d id_offset) s =
      fold_outcome (add_vector api d id_offset) [0..nb - 1] s" by (rule for_signed_fold)
  also have "\<dots> = on_index
      (fold_outcome
         (\<lambda>i. add_with_ids api 1 (subrange xs (nat (i * d)) (nat d)) [of_int (i + id_offset)])
         [0..nb - 1]) s"
    using assms by (intro on_index_fold [of s ix] add_vector_call [where nb = nb]) auto
  finally show ?thesis .
qed

theorem add_loop_calls_witness:
  "for_signed LONG_MAX 0 2 (add_vector toy_index 1 5)
     (main_start\<lparr>xb := Some [7, 8 :: nat], index := Some []\<rparr>) =
   Returns () (main_start\<lparr>xb := Some [7, 8], index := Some [5, 6]\<rparr>)"
  using add_loop_calls [of 1 2 5 "main_start\<lparr>xb := Some [7, 8 :: nat], index := Some []\<rparr>"
      "[7, 8]" "[]" toy_index]
  by (simp add: on_index_def upto_rec1)

end
