(* ===== verification/Tutorial_Output.thy ===== *)
theory Tutorial_Output
  imports Tutorial_Main
begin

text \<open>
  What the tutorial driver prints.  The numbers it prints depend on the index and on
  the random generator; the \<open>outline\<close> of the output forgets them and keeps which
  statement printed.  \<open>prints p out\<close> reads: whenever \<open>p\<close> returns, it has added \<open>out\<close> to
  the outline of the output.  The rules below follow the structure of the code:
  sequences, loops and calls on the index.
\<close>

section \<open>The outline of the output\<close>

definition outline :: "('i, 'f) event list \<Rightarrow> (unit, unit) event list" where
  "outline = map (map_event (\<lambda>_. ()) (\<lambda>_. ()))"

definition prints ::
  "(('f, 'ix) main_state \<Rightarrow> ('a, ('f, 'ix) main_state) outcome) \<Rightarrow> (unit, unit) event list \<Rightarrow> bool"
where
  "prints p out \<longleftrightarrow>
     (\<forall>s v s'. p s = Returns v s' \<longrightarrow> outline (stdout s') = outline (stdout s) @ out)"

definition table :: "(unit, unit) event \<Rightarrow> int \<Rightarrow> int \<Rightarrow> (unit, unit) event list" where
  "table cell k n = concat (replicate (nat n) (replicate (nat k) cell @ [End_row]))"

definition results_outline :: "int \<Rightarrow> int \<Rightarrow> (unit, unit) event list" where
  "results_outline k n =
     [Line ''I=''] @ table (Label ()) k n @ [Line ''D=''] @ table (Distance ()) k n"

definition main_outline :: "int \<Rightarrow> int \<Rightarrow> (unit, unit) event list" where
  "main_outline k sanity_check_num =
     [Line ''pre train'', Line ''after train'', Line ''after add''] @
     replicate (nat sanity_check_num) (Moved ()) @
     [Line ''after remove''] @ results_outline k sanity_check_num @
     [Line ''train done'', Sleep 1000, Elapsed_time]"

lemma outline_simps [simp]:
  "outline [] = []" "outline (es @ fs) = outline es @ outline fs"
  "outline (e # es) = map_event (\<lambda>_. ()) (\<lambda>_. ()) e # outline es"
  by (simp_all add: outline_def)

lemma printsI:
  "(\<And>s v s'. p s = Returns v s' \<Longrightarrow> outline (stdout s') = outline (stdout s) @ out) \<Longrightarrow>
   prints p out"
  by (simp add: prints_def)

lemma printsD:
  "prints p out \<Longrightarrow> p s = Returns v s' \<Longrightarrow> outline (stdout s') = outline (stdout s) @ out"
  by (simp add: prints_def)

section \<open>Sequences and loops\<close>

lemma prints_and_then:
  assumes "prints m a" "\<And>v. prints (f v) b"
  shows "prints (\<lambda>s. and_then (m s) f) (a @ b)"
proof (rule printsI)
  fix s v s' assume "and_then (m s) f = Returns v s'"
  then obtain w t where "m s = Returns w t" "f w t = Returns v s'"
    by (auto simp: and_then_Returns_iff)
  with assms(1) assms(2) [of w] show "outline (stdout s') = outline (stdout s) @ a @ b"
    by (simp add: printsD)
qed

lemma statements_Cons: "statements (p # ps) s = and_then (p s) (\<lambda>_. statements ps)"
  by (simp add: statements_def split: outcome.splits)

lemma prints_statements:
  "list_all2 prints ps outs \<Longrightarrow> prints (statements ps) (concat outs)"
proof (induction rule: list_all2_induct)
  case Nil
  show ?case by (simp add: prints_def)
next
  case (Cons p ps out outs)
  from prints_and_then [OF Cons.hyps(1), of "\<lambda>_. statements ps", OF Cons.IH]
  show ?case by (simp add: statements_Cons [abs_def])
qed

lemma for_signed_outline:
  "for_signed mx i n body s = Returns v s' \<Longrightarrow> (\<And>j. prints (body j) row) \<Longrightarrow>
   outline (stdout s') = outline (stdout s) @ concat (replicate (nat (n - i)) row)"
proof (induction mx i n body s rule: for_signed.induct)
  case (1 mx i n body s)
  show ?case
  proof (cases "i < n")
    case True
    with "1.prems"(1) obtain t where t: "body i s = Returns () t" "i + 1 \<le> mx"
      "for_signed mx (i + 1) n body t = Returns v s'"
      by (subst (asm) for_signed.simps) (auto split: outcome.splits if_splits)
    from True have "nat (n - i) = Suc (nat (n - (i + 1)))" by simp
    with "1.IH" [OF True t "1.prems"(2)] printsD [OF "1.prems"(2) t(1)] show ?thesis by simp
  qed (use "1.prems"(1) in simp)
qed

lemma prints_for_signed:
  "(\<And>j. prints (body j) row) \<Longrightarrow>
   prints (for_signed mx i n body) (concat (replicate (nat (n - i)) row))"
  by (rule printsI) (rule for_signed_outline)

lemma prints_silent:
  "(\<And>s v s'. p s = Returns v s' \<Longrightarrow> stdout s' = stdout s) \<Longrightarrow> prints p []"
  by (simp add: prints_def)

lemma prints_Returns [simp]:
  "prints (\<lambda>s. Returns v (g s)) out \<longleftrightarrow> (\<forall>s. outline (stdout (g s)) = outline (stdout s) @ out)"
  by (auto simp: prints_def)

lemma prints_say [simp]: "prints (say e) out \<longleftrightarrow> out = [map_event (\<lambda>_. ()) (\<lambda>_. ()) e]"
  by (auto simp: prints_def)

lemma on_index_stdout: "on_index f s = Returns v s' \<Longrightarrow> stdout s' = stdout s"
  by (auto simp: on_index_def split: option.splits outcome.splits)

lemma prints_on_index [simp]: "prints (on_index f) []"
  by (rule prints_silent) (rule on_index_stdout)

lemma prints_for_signed_silent [simp]:
  "(\<And>j. prints (body j) []) \<Longrightarrow> prints (for_signed mx i n body) []"
  by (drule prints_for_signed) simp

lemma prints_cells:
  "(\<And>j. prints (body j) [e]) \<Longrightarrow> prints (for_signed mx 0 n body) (replicate (nat n) e)"
  by (drule prints_for_signed [where mx = mx and i = 0 and n = n]) (simp add: concat_replicate_single)

lemma prints_block:
  "list_all2 prints ps outs \<Longrightarrow> out = concat outs \<Longrightarrow> prints (statements ps) out"
  by (simp add: prints_statements)

section \<open>The parts of the driver\<close>

lemma pass_vectors_state: "pass_vectors arr off n d s = Returns vs s' \<Longrightarrow> s' = s"
  by (auto simp: pass_vectors_def split: option.splits)

lemma new_product_state: "new_product junk a b s = Returns xs s' \<Longrightarrow> s' = s"
  by (auto simp: new_product_def split: option.splits)

lemma prints_alloc_vectors [simp]: "prints (alloc_vectors junk d nb nq) []"
  by (rule prints_silent)
     (auto simp: alloc_vectors_def and_then_Returns_iff dest!: new_product_state)

lemma prints_fill_xb [simp]: "prints (fill_xb draw bump d nb) []"
  by (rule prints_silent)
     (auto simp: fill_xb_def filled_def split: option.splits outcome.splits)

lemma prints_fill_xq [simp]: "prints (fill_xq draw bump d nq) []"
  by (rule prints_silent)
     (auto simp: fill_xq_def filled_def split: option.splits outcome.splits)

lemma prints_with_vectors [simp]:
  "(\<And>vs. prints (f vs) out) \<Longrightarrow> prints (\<lambda>s. and_then (pass_vectors (arr s) off n d s) f) out"
  by (rule printsI) (auto simp: and_then_Returns_iff dest!: pass_vectors_state dest: printsD)

lemma prints_train_index [simp]: "prints (train_index api d nb) []"
  unfolding train_index_def [abs_def] by simp

lemma prints_build_index [simp]:
  "prints (build_index api d nb nlist bits_per_code) [Line ''pre train'', Line ''after train'']"
proof (rule printsI)
  fix s v s' assume "build_index api d nb nlist bits_per_code s = Returns v s'"
  then obtain ix where "statements
      [on_index (set_direct_map_type api Hashtable), say (Line ''pre train''),
       train_index api d nb, say (Line ''after train'')] (s\<lparr>index := Some ix\<rparr>) = Returns v s'"
    by (auto simp: build_index_def split: sum.splits)
  from printsD [OF prints_block this, of "[[], [Line ''pre train''], [], [Line ''after train'']]"]
  show "outline (stdout s') = outline (stdout s) @ [Line ''pre train'', Line ''after train'']"
    by simp
qed

lemma prints_add_vector [simp]: "prints (add_vector api d id_offset i) []"
  by (rule prints_silent)
     (auto simp: add_vector_def and_then_Returns_iff split: option.splits
        dest!: pass_vectors_state on_index_stdout)

lemma prints_add_vectors [simp]: "prints (add_vectors api d nb id_offset) [Line ''after add'']"
  unfolding add_vectors_def
  by (rule prints_block [where outs = "[[], [Line ''after add'']]"]) simp_all

lemma prints_remove_one [simp]: "prints (remove_one api id_offset i) [Moved ()]"
  by (rule printsI)
     (auto simp: remove_one_def and_then_Returns_iff statements_Cons discard_def
        split: option.splits dest!: on_index_stdout)

lemma prints_remove_first [simp]:
  "prints (remove_first api sanity_check_num id_offset)
     (replicate (nat sanity_check_num) (Moved ()) @ [Line ''after remove''])"
  unfolding remove_first_def
  by (rule prints_block [where outs =
        "[[], replicate (nat sanity_check_num) (Moved ()), [Line ''after remove'']]"])
     (simp_all add: prints_cells prints_silent)

section \<open>The sanity check and the search\<close>

lemma prints_new_results [simp]: "prints (new_results junk junk_id k n) []"
  by (rule prints_silent)
     (auto simp: new_results_def and_then_Returns_iff dest!: new_product_state)

lemma prints_new_xbb [simp]: "prints (new_xbb junk n d) []"
  by (rule prints_silent) (auto simp: new_xbb_def and_then_Returns_iff dest!: new_product_state)

lemma prints_copy_cell [simp]: "prints (copy_cell d id_offset i j) []"
  by (rule prints_silent) (auto simp: copy_cell_def split: option.splits)

lemma prints_copy_moved [simp]: "prints (copy_moved d n id_offset) []"
  by (simp add: copy_moved_def)

lemma search_into_stdout:
  assumes "search_into api x n d k s = Returns v s'"
  shows "stdout s' = stdout s"
proof -
  from assms obtain vs ds ls t where "on_index (search api n vs k) s = Returns (ds, ls) t"
    and "(case (D_arr t, I_arr t) of
        (Some D, Some I) \<Rightarrow>
          if length ds \<le> length D \<and> length ls \<le> length I
          then Returns ()
            (t\<lparr>D_arr := Some (overwrite D 0 ds), I_arr := Some (overwrite I 0 ls)\<rparr>)
          else Undefined OutOfBounds
      | _ \<Rightarrow> Undefined NullDeref) = Returns v s'"
    by (auto simp: search_into_def and_then_Returns_iff dest!: pass_vectors_state)
  then show ?thesis by (auto split: option.splits if_splits dest!: on_index_stdout)
qed

lemma prints_search_into [simp]: "prints (\<lambda>s. search_into api (arr s) n d k s) []"
  by (rule prints_silent) (rule search_into_stdout)

lemma prints_discard [simp]: "prints (\<lambda>s. discard (m s)) out \<longleftrightarrow> prints m out"
  by (auto simp: prints_def discard_def and_then_Returns_iff)

lemma prints_print_label [simp]: "prints (print_label k i j) [Label ()]"
  by (rule printsI) (auto simp: print_label_def split: option.splits)

lemma prints_print_distance [simp]: "prints (print_distance k i j) [Distance ()]"
  by (rule printsI) (auto simp: print_distance_def split: option.splits)

lemma prints_print_rows:
  assumes "\<And>i j. prints (cell i j) [e]"
  shows "prints (print_rows cell k n) (table e k n)"
  unfolding print_rows_def table_def
proof (rule prints_for_signed [where i = 0, simplified])
  fix i
  show "prints (statements [for_signed LONG_MAX 0 k (cell i), say End_row])
      (replicate (nat k) e @ [End_row])"
    by (rule prints_block [where outs = "[replicate (nat k) e, [End_row]]"])
       (simp_all add: prints_cells assms)
qed

lemma prints_print_results [simp]: "prints (print_results k n) (results_outline k n)"
  unfolding print_results_def
  by (rule prints_block [where outs =
        "[[Line ''I=''], table (Label ()) k n, [Line ''D=''], table (Distance ()) k n]"])
     (simp_all add: prints_print_rows results_outline_def)

lemma prints_delete_results [simp]: "prints delete_results []"
  by (rule prints_silent) (auto simp: delete_results_def split: if_splits)

lemma prints_sanity_check [simp]:
  "prints (sanity_check junk junk_id api d k n id_offset) (results_outline k n)"
  unfolding sanity_check_def
  by (rule prints_block [where outs = "[[], [], [], [], results_outline k n, [], []]"])
     (simp_all add: leave_check_def [abs_def])

lemma prints_free_xb [simp]: "prints free_xb [Line ''train done'', Sleep 1000]"
  by (rule printsI) (auto simp: free_xb_def statements_Cons split: option.splits)

lemma prints_search_xq [simp]: "prints (search_xq junk junk_id api d nq k) [Elapsed_time]"
  unfolding search_xq_def
  by (rule prints_block [where outs = "[[], [], [], [Elapsed_time], [], []]"])
     (simp_all add: leave_search_def [abs_def])

lemma prints_free_xq [simp]: "prints free_xq []"
  by (rule prints_silent) (auto simp: free_xq_def split: option.splits)

section \<open>The whole driver\<close>

lemma main_with_outline:
  assumes "main_with junk junk_id draw bump api d nb nq nlist k bits_per_code sanity_check_num
      id_offset = Returns v s"
  shows "outline (stdout s) = main_outline k sanity_check_num"
proof -
  let ?n = sanity_check_num
  from assms obtain t where t: "statements
      [alloc_vectors junk d nb nq, fill_xb draw bump d nb, fill_xq draw bump d nq,
       build_index api d nb nlist bits_per_code, add_vectors api d nb id_offset,
       remove_first api ?n id_offset, sanity_check junk junk_id api d k ?n id_offset,
       free_xb, search_xq junk junk_id api d nq k, free_xq] main_start = Returns () t"
    and "stdout s = stdout t"
    by (auto simp: main_with_def and_then_Returns_iff leave_main_def)
  moreover from printsD [OF prints_block t, of
      "[[], [], [], [Line ''pre train'', Line ''after train''], [Line ''after add''],
        replicate (nat ?n) (Moved ()) @ [Line ''after remove''],
        results_outline k ?n,
        [Line ''train done'', Sleep 1000], [Elapsed_time], []]"]
  have "outline (stdout t) = outline (stdout (main_start :: ('a, 'b) main_state)) @
      main_outline k ?n"
    by (simp add: main_outline_def)
  ultimately show ?thesis by (simp add: main_start_def)
qed

end
