(* ===== verification/Tutorial_Run.thy ===== *)
theory Tutorial_Run
  imports Tutorial_Index Tutorial_Output
begin

text \<open>
  A run of the tutorial driver from its first statement to \<open>return 0\<close>: one lemma
  for each part of \<open>main\<close>, that it returns and what it leaves, and the theorem for
  the whole, with the arrays that are still allocated at the end.  One section
  shows the access of the driver that depends on the identifiers the index returns.
\<close>

section \<open>Sizes and program points\<close>

text \<open>The sizes for which no product of the driver leaves its type.\<close>

definition sizes_fit :: "int \<Rightarrow> int \<Rightarrow> int \<Rightarrow> int \<Rightarrow> int \<Rightarrow> int \<Rightarrow> bool" where
  "sizes_fit d nb nq k sanity_check_num id_offset \<longleftrightarrow>
     0 < d \<and> d \<le> INT_MAX \<and> 0 \<le> nq \<and> 0 \<le> k \<and> k \<le> LONG_MAX \<and> 0 \<le> sanity_check_num \<and>
     sanity_check_num \<le> nb \<and> 0 \<le> id_offset \<and> id_offset + nb \<le> INT_MAX \<and>
     d * nb \<le> LONG_MAX \<and> d * nq \<le> LONG_MAX \<and> k * nq \<le> LONG_MAX \<and> k * nb \<le> LONG_MAX"

text \<open>Program points: the vectors are allocated and no array is lost, and the moved
  identifiers are rows.\<close>

definition data_ready :: "int \<Rightarrow> int \<Rightarrow> int \<Rightarrow> ('f, 'ix) main_state \<Rightarrow> bool" where
  "data_ready d nb nq s \<longleftrightarrow>
     (\<exists>xs ys. xb s = Some xs \<and> length xs = nat (d * nb) \<and> xq s = Some ys \<and> length ys = nat (d * nq)) \<and>
     leaked s = []"

definition moved_ok :: "int \<Rightarrow> int \<Rightarrow> int \<Rightarrow> ('f, 'ix) main_state \<Rightarrow> bool" where
  "moved_ok id_offset nb n s \<longleftrightarrow>
     int (length (moved_list s)) = n \<and>
     (\<forall>moved \<in> set (moved_list s). uint (moved - of_int id_offset) < nb)"

text \<open>The arrays that are allocated, each with its number of cells: those of \<open>xb\<close>,
  \<open>xq\<close>, \<open>I\<close>, \<open>D\<close> and \<open>xbb\<close>, and those no pointer is left to.\<close>

definition allocated ::
  "('f, 'ix) main_state \<Rightarrow>
   nat option \<times> nat option \<times> nat option \<times> nat option \<times> nat option \<times> nat list" where
  "allocated s =
     (map_option length (xb s), map_option length (xq s), map_option length (I_arr s),
      map_option length (D_arr s), map_option length (xbb s), leaked s)"

section \<open>Loops and statements\<close>

lemma data_ready_update [simp]:
  "data_ready d nb nq (s\<lparr>index := ix\<rparr>) = data_ready d nb nq s"
  "data_ready d nb nq (s\<lparr>stdout := out\<rparr>) = data_ready d nb nq s"
  "data_ready d nb nq (s\<lparr>moved_list := ml\<rparr>) = data_ready d nb nq s"
  "data_ready d nb nq (s\<lparr>rng := r\<rparr>) = data_ready d nb nq s"
  "data_ready d nb nq (s\<lparr>xbb := a\<rparr>) = data_ready d nb nq s"
  "data_ready d nb nq (s\<lparr>I_arr := b\<rparr>) = data_ready d nb nq s"
  "data_ready d nb nq (s\<lparr>D_arr := c\<rparr>) = data_ready d nb nq s"
  by (simp_all add: data_ready_def)

lemma moved_ok_update [simp]:
  "moved_ok id_offset nb n (s\<lparr>index := ix\<rparr>) = moved_ok id_offset nb n s"
  "moved_ok id_offset nb n (s\<lparr>stdout := out\<rparr>) = moved_ok id_offset nb n s"
  "moved_ok id_offset nb n (s\<lparr>xbb := a\<rparr>) = moved_ok id_offset nb n s"
  by (simp_all add: moved_ok_def)

lemma allocated_update [simp]:
  "allocated (s\<lparr>index := ix\<rparr>) = allocated s"
  "allocated (s\<lparr>stdout := out\<rparr>) = allocated s"
  "allocated (s\<lparr>moved_list := ml\<rparr>) = allocated s"
  "allocated (s\<lparr>rng := r\<rparr>) = allocated s"
  by (simp_all add: allocated_def)

lemma sizes_fitD:
  assumes "sizes_fit d nb nq k sanity_check_num id_offset"
  shows "0 < d" "d \<le> INT_MAX" "0 \<le> nq" "0 \<le> k" "0 \<le> sanity_check_num"
    "sanity_check_num \<le> nb" "0 \<le> id_offset" "id_offset + nb \<le> INT_MAX"
    "d * nb \<le> LONG_MAX" "d * nq \<le> LONG_MAX" "k * nq \<le> LONG_MAX" "k * nb \<le> LONG_MAX"
    "0 \<le> nb" "0 \<le> d * nb" "0 \<le> d * nq" "0 \<le> k * nq" "k \<le> LONG_MAX"
  using assms by (auto simp: sizes_fit_def)

lemma sizes_fit_sanity:
  assumes "sizes_fit d nb nq k sanity_check_num id_offset"
  shows "0 \<le> k * sanity_check_num" "k * sanity_check_num \<le> LONG_MAX"
    "0 \<le> sanity_check_num * d" "sanity_check_num * d \<le> LONG_MAX"
    "sanity_check_num \<le> LONG_MAX" "nat sanity_check_num * nat d \<le> nat (d * nb)"
    "nq \<le> LONG_MAX" "nat nq * nat d \<le> nat (d * nq)"
proof -
  note f = sizes_fitD [OF assms]
  from f show "0 \<le> k * sanity_check_num" "0 \<le> sanity_check_num * d"
    "sanity_check_num \<le> LONG_MAX" by simp_all
  from f(4,6) have "k * sanity_check_num \<le> k * nb" by (intro mult_left_mono)
  with f(12) show "k * sanity_check_num \<le> LONG_MAX" by simp
  from f(1,6) have le: "sanity_check_num * d \<le> d * nb"
    using mult_left_mono [of sanity_check_num nb d] by (simp add: mult.commute)
  with f(9) show "sanity_check_num * d \<le> LONG_MAX" by simp
  from le f(1,5) show "nat sanity_check_num * nat d \<le> nat (d * nb)"
    by (simp add: nat_mult_distrib [symmetric] nat_le_iff)
  from f(1,3) have "1 * nq \<le> d * nq" by (intro mult_right_mono) auto
  with f(10) show "nq \<le> LONG_MAX" by simp
  from f(1,3) show "nat nq * nat d \<le> nat (d * nq)"
    by (simp add: nat_mult_distrib mult.commute)
qed

section \<open>The vectors and the index\<close>

lemma alloc_vectors_Returns:
  assumes "sizes_fit d nb nq k sanity_check_num id_offset" "leaked s = []"
  shows "\<exists>s'. alloc_vectors junk d nb nq s = Returns () s' \<and> data_ready d nb nq s' \<and>
    index s' = index s"
  using sizes_fitD [OF assms(1)] assms(2)
  by (simp add: alloc_vectors_def new_product_Returns data_ready_def)

lemma fill_xb_Returns:
  assumes "sizes_fit d nb nq k sanity_check_num id_offset" "data_ready d nb nq s"
  shows "\<exists>s'. fill_xb draw bump d nb s = Returns () s' \<and> data_ready d nb nq s' \<and>
    index s' = index s"
proof -
  from assms(2) obtain xs where xs: "xb s = Some xs" "length xs = nat (d * nb)"
    by (auto simp: data_ready_def)
  note fit = sizes_fitD [OF assms(1)]
  from fill_rows_returns [OF fit(1,13,9) xs(2)] obtain ys where
    "fill_rows draw bump d nb (xs, rng s) = Returns () (ys, rng s + nat (d * nb))"
    "length ys = length xs" by blast
  with xs assms(2) show ?thesis by (simp add: fill_xb_def filled_def data_ready_def)
qed

lemma fill_xq_Returns:
  assumes "sizes_fit d nb nq k sanity_check_num id_offset" "data_ready d nb nq s"
  shows "\<exists>s'. fill_xq draw bump d nq s = Returns () s' \<and> data_ready d nb nq s' \<and>
    index s' = index s"
proof -
  from assms(2) obtain xs where xs: "xq s = Some xs" "length xs = nat (d * nq)"
    by (auto simp: data_ready_def)
  note fit = sizes_fitD [OF assms(1)]
  from fill_rows_returns [OF fit(1,3,10) xs(2)] obtain ys where
    "fill_rows draw bump d nq (xs, rng s) = Returns () (ys, rng s + nat (d * nq))"
    "length ys = length xs" by blast
  with xs assms(2) show ?thesis by (simp add: fill_xq_def filled_def data_ready_def)
qed

lemma build_index_Returns:
  assumes contract: "index_contract api holds U d nlist bits_per_code"
    and fit: "sizes_fit d nb nq k sanity_check_num id_offset" and ready: "data_ready d nb nq s"
  shows "\<exists>s'. build_index api d nb nlist bits_per_code s = Returns () s' \<and>
    data_ready d nb nq s' \<and> indexed holds {} s'"
proof -
  note c = index_contractD [OF contract] and f = sizes_fitD [OF fit]
  from ready obtain xs where xs: "xb s = Some xs" "length xs = nat (d * nb)"
    by (auto simp: data_ready_def)
  from c(1) obtain ix where ix: "new_index api d nlist (long_div d 2) bits_per_code = Inr ix"
    "holds {} ix" by blast
  define s0 where "s0 = s\<lparr>index := Some ix\<rparr>"
  from ix(2) have "indexed holds {} s0" by (simp add: s0_def)
  from on_index_returns_with [OF c(2) this] obtain ix1 where
    s1: "on_index (set_direct_map_type api Hashtable) s0 = Returns () (s0\<lparr>index := Some ix1\<rparr>)"
    and ix1: "holds {} ix1" by auto
  define s2 where "s2 = s0\<lparr>index := Some ix1, stdout := stdout s0 @ [Line ''pre train'']\<rparr>"
  from xs f have vs: "pass_vectors (xb s2) 0 nb d s2 = Returns (subrange xs 0 (nat nb * nat d)) s2"
    by (intro pass_vectors_Returns [where off = 0, simplified])
       (simp_all add: s2_def s0_def nat_mult_distrib mult.commute)
  from ix1 have "indexed holds {} s2" by (simp add: s2_def)
  from on_index_returns_with [OF c(3) this] obtain ix2 where
    s3: "on_index (train api nb (subrange xs 0 (nat nb * nat d))) s2 =
      Returns () (s2\<lparr>index := Some ix2\<rparr>)" and ix2: "holds {} ix2" by auto
  show ?thesis
    using ix(1) s1 s3 vs ix2 ready
    by (simp add: build_index_def statements_def train_index_def s2_def [symmetric]
        s0_def [symmetric]) (simp add: s2_def s0_def)
qed

lemma add_vector_Returns:
  assumes contract: "index_contract api holds (id_range id_offset nb) d nlist bits_per_code"
    and fit: "sizes_fit d nb nq k sanity_check_num id_offset"
    and j: "0 \<le> j" "j < nb"
    and s: "data_ready d nb nq s" "indexed holds (id_range id_offset j) s"
  shows "\<exists>s'. add_vector api d id_offset j s = Returns () s' \<and> data_ready d nb nq s' \<and>
    indexed holds (id_range id_offset (j + 1)) s'"
proof -
  note c = index_contractD [OF contract] and f = sizes_fitD [OF fit]
  from s(1) obtain xs where xs: "xb s = Some xs" "length xs = nat (d * nb)"
    by (auto simp: data_ready_def)
  note r = row_in_rows [OF j, of d]
  from j f(7,8) have id: "checked LONG_MAX (j + id_offset) = Some (id_offset + j)"
    by (simp add: checked_def add.commute)
  from r f(1,9) have off: "checked LONG_MAX (j * d) = Some (j * d)" by (simp add: checked_def)
  let ?v = "subrange xs (nat (j * d)) (nat 1 * nat d)"
  from r f(1) xs(2) have "nat (j * d) + nat 1 * nat d \<le> length xs" by (simp add: nat_le_iff)
  with xs(1) r(2) f(1) have vs: "pass_vectors (xb s) (j * d) 1 d s = Returns ?v s"
    by (intro pass_vectors_Returns) simp_all
  from \<open>nat (j * d) + nat 1 * nat d \<le> length xs\<close> have len: "length ?v = nat d" by simp
  from id_range_fresh [OF f(7,8) j] id_range_mono [of j nb id_offset] j(2)
  have "returns_with holds (add_with_ids api 1 ?v [of_int (id_offset + j)])
      (id_range id_offset j) (\<lambda>_. True) (insert (of_int (id_offset + j)) (id_range id_offset j))"
    by (intro c(4) len) auto
  from on_index_returns_with [OF this s(2)] show ?thesis
    using s(1) id off vs
    by (auto simp: add_vector_def id_range_Suc [OF j(1)] simp del: of_int_add)
qed

lemma add_vectors_Returns:
  assumes contract: "index_contract api holds (id_range id_offset nb) d nlist bits_per_code"
    and fit: "sizes_fit d nb nq k sanity_check_num id_offset"
    and s: "data_ready d nb nq s" "indexed holds {} s"
  shows "\<exists>s'. add_vectors api d nb id_offset s = Returns () s' \<and> data_ready d nb nq s' \<and>
    indexed holds (id_range id_offset nb) s'"
proof -
  note f = sizes_fitD [OF fit]
  let ?P = "\<lambda>j s. data_ready d nb nq s \<and> indexed holds (id_range id_offset j) s"
  have "\<exists>s'. for_signed LONG_MAX 0 nb (add_vector api d id_offset) s = Returns () s' \<and> ?P nb s'"
    using f(8,7,13) s add_vector_Returns [OF contract fit]
    by (intro for_signed_returns [where P = ?P]) auto
  then show ?thesis by (auto simp: add_vectors_def statements_def)
qed

lemma remove_one_Returns:
  assumes contract: "index_contract api holds (id_range id_offset nb) d nlist bits_per_code"
    and fit: "sizes_fit d nb nq k sanity_check_num id_offset"
    and j: "0 \<le> j" "j < sanity_check_num"
    and s: "data_ready d nb nq s" "indexed holds (id_range id_offset nb - id_range id_offset j) s"
      "moved_ok id_offset nb j s"
  shows "\<exists>s'. remove_one api id_offset j s = Returns () s' \<and> data_ready d nb nq s' \<and>
    indexed holds (id_range id_offset nb - id_range id_offset (j + 1)) s' \<and>
    moved_ok id_offset nb (j + 1) s'"
proof -
  note c = index_contractD [OF contract] and f = sizes_fitD [OF fit]
  let ?S = "id_range id_offset nb - id_range id_offset j"
  let ?x = "of_int (id_offset + j) :: idx_t"
  from j f(6) have jn: "j < nb" by simp
  from s(2) obtain ix where ix: "index s = Some ix" "holds ?S ix" by (auto simp: indexed_def)
  from jn j f(7,8) have id: "checked INT_MAX (id_offset + j) = Some (id_offset + j)"
    by (simp add: checked_def)
  from id_range_fresh [OF f(7,8) j(1) jn] have "?x \<in> ?S" by simp
  then have "finds_last api holds ?S ?x" by (intro c(5)) auto
  with ix(2) obtain lo n y where found: "direct_map_get api ?x ix = Returns lo ix"
    "get_list_size api (lo_listno lo) ix = Returns n ix"
    "get_single_id api (lo_listno lo) (n - 1) ix = Returns y ix" "y \<in> ?S"
    unfolding finds_last_def by blast
  define s1 where "s1 = s\<lparr>moved_list := moved_list s @ [ucast y], stdout := stdout s @ [Moved y]\<rparr>"
  from found(4) have "uint ((ucast y :: 32 word) - of_int id_offset) < nb"
    by (intro moved_in_rows [OF f(7,8)]) simp
  with s(3) have moved: "moved_ok id_offset nb (j + 1) s1" by (auto simp: moved_ok_def s1_def)
  from ix(2) have "indexed holds ?S s1" by (simp add: s1_def indexed_def ix(1))
  from on_index_returns_with [OF c(6) this] obtain r ix' where
    rm: "on_index (remove_ids api [?x]) s1 = Returns r (s1\<lparr>index := Some ix'\<rparr>)"
    "holds (?S - {?x}) ix'" by blast
  have "?S - {?x} = id_range id_offset nb - id_range id_offset (j + 1)"
    by (auto simp: id_range_Suc [OF j(1)])
  with rm(2) moved s(1) have "data_ready d nb nq (s1\<lparr>index := Some ix'\<rparr>) \<and>
      indexed holds (id_range id_offset nb - id_range id_offset (j + 1)) (s1\<lparr>index := Some ix'\<rparr>) \<and>
      moved_ok id_offset nb (j + 1) (s1\<lparr>index := Some ix'\<rparr>)"
    by (simp add: s1_def)
  moreover have "remove_one api id_offset j s = Returns () (s1\<lparr>index := Some ix'\<rparr>)"
    using found(1-3) rm(1) id
    by (simp add: remove_one_def on_index_same [OF ix(1)] statements_def discard_def
        s1_def [symmetric] del: of_int_add)
  ultimately show ?thesis by simp
qed

lemma remove_first_Returns:
  assumes contract: "index_contract api holds (id_range id_offset nb) d nlist bits_per_code"
    and fit: "sizes_fit d nb nq k sanity_check_num id_offset"
    and s: "data_ready d nb nq s" "indexed holds (id_range id_offset nb) s"
  shows "\<exists>s' S. remove_first api sanity_check_num id_offset s = Returns () s' \<and>
    data_ready d nb nq s' \<and> indexed holds S s' \<and> moved_ok id_offset nb sanity_check_num s'"
proof -
  note f = sizes_fitD [OF fit]
  let ?P = "\<lambda>j s. data_ready d nb nq s \<and>
    indexed holds (id_range id_offset nb - id_range id_offset j) s \<and> moved_ok id_offset nb j s"
  from f(5,6,8,7) have "sanity_check_num \<le> INT_MAX" by simp
  then have "\<exists>s'. for_signed INT_MAX 0 sanity_check_num (remove_one api id_offset)
      (s\<lparr>moved_list := []\<rparr>) = Returns () s' \<and> ?P sanity_check_num s'"
    using f(5) s remove_one_Returns [OF contract fit]
    by (intro for_signed_returns [where P = ?P]) (auto simp: moved_ok_def)
  then show ?thesis by (auto simp: remove_first_def statements_def)
qed

section \<open>The sanity check\<close>

lemma copy_cell_Returns:
  assumes fit: "sizes_fit d nb nq k sanity_check_num id_offset"
    and ij: "0 \<le> i" "i < sanity_check_num" "0 \<le> j" "j < d"
    and s: "data_ready d nb nq s" "moved_ok id_offset nb sanity_check_num s"
      "xbb s = Some ys" "length ys = nat (sanity_check_num * d)"
  shows "\<exists>ys'. copy_cell d id_offset i j s = Returns () (s\<lparr>xbb := Some ys'\<rparr>) \<and>
    length ys' = length ys"
proof -
  note f = sizes_fitD [OF fit]
  from s(1) obtain xs where xs: "xb s = Some xs" "length xs = nat (d * nb)"
    by (auto simp: data_ready_def)
  define t where "t = uint (moved_list s ! nat i - of_int id_offset)"
  from s(2) ij have i: "ptr_read (moved_list s) i = Some (moved_list s ! nat i)"
    and "moved_list s ! nat i \<in> set (moved_list s)"
    by (auto simp: moved_ok_def intro!: ptr_read_in)
  with s(2) have t: "0 \<le> t" "t < nb" by (auto simp: moved_ok_def t_def)
  note src = cell_in_rows [OF t ij(3,4)] and dst = cell_in_rows [OF ij]
  from src f(9) have "row_index d t j = Some (d * t + j)"
    using f(1) t(1) ij(3) by (intro row_index_in_range) simp_all
  moreover from src xs(2) have "ptr_read xs (d * t + j) = Some (xs ! nat (d * t + j))"
    by (intro ptr_read_in) simp_all
  moreover from ij(2) f(6) have "i < nb" by simp
  from cell_in_rows(2) [OF ij(1) this ij(3,4)] f(9) have "d * i + j \<le> LONG_MAX" by simp
  then have "row_index d i j = Some (d * i + j)"
    using f(1) ij by (intro row_index_in_range) simp_all
  moreover from dst s(4) have "ptr_write ys (d * i + j) v = Some (ys[nat (d * i + j) := v])" for v
    by (intro ptr_write_in) (simp_all add: mult.commute)
  ultimately show ?thesis
    using xs(1) s(3) i
    by (simp add: copy_cell_def t_def) (rule exI, rule conjI, rule refl, simp)
qed

lemma copy_moved_Returns:
  assumes fit: "sizes_fit d nb nq k sanity_check_num id_offset"
    and s: "data_ready d nb nq s" "moved_ok id_offset nb sanity_check_num s"
      "xbb s = Some ys" "length ys = nat (sanity_check_num * d)"
  shows "\<exists>ys'. copy_moved d sanity_check_num id_offset s = Returns () (s\<lparr>xbb := Some ys'\<rparr>) \<and>
    length ys' = length ys"
proof -
  note f = sizes_fitD [OF fit]
  let ?P = "\<lambda>(c :: int) s'. \<exists>ys'. s' = s\<lparr>xbb := Some ys'\<rparr> \<and> length ys' = length ys"
  have row: "\<exists>s''. for_signed INT_MAX 0 d (copy_cell d id_offset i) s' = Returns () s'' \<and> ?P (i + 1) s''"
    if "0 \<le> i" "i < sanity_check_num" "?P i s'" for i s'
  proof -
    have "\<exists>t'. copy_cell d id_offset i j t = Returns () t' \<and> ?P (j + 1) t'"
      if "0 \<le> j" "j < d" "?P j t" for j t
    proof -
      from that(3) obtain zs where zs: "t = s\<lparr>xbb := Some zs\<rparr>" "length zs = length ys" by blast
      with copy_cell_Returns [OF fit \<open>0 \<le> i\<close> \<open>i < sanity_check_num\<close> that(1,2), of t zs] s
      show ?thesis by auto
    qed
    with f(1,2) that(3) show ?thesis
      by (intro for_signed_returns [where P = ?P]) auto
  qed
  have "\<exists>s'. copy_moved d sanity_check_num id_offset s = Returns () s' \<and> ?P sanity_check_num s'"
    unfolding copy_moved_def
  proof (rule for_signed_returns [where P = ?P])
    from f(5,6,8,7) show "sanity_check_num \<le> INT_MAX" "0 \<le> sanity_check_num" by simp_all
    from s(3) show "?P 0 s" by (auto intro!: exI [of _ ys])
  qed (use row in auto)
  then show ?thesis by auto
qed

lemma search_into_Returns:
  assumes contract: "index_contract api holds U d nlist bits_per_code"
    and x: "x = Some xs" "nat n * nat d \<le> length xs" "0 \<le> n" "0 \<le> k" "0 \<le> d"
    and s: "indexed holds S s" "I_arr s = Some I" "D_arr s = Some D"
      "length I = nat n * nat k" "length D = nat n * nat k"
  shows "\<exists>s'. search_into api x n d k s = Returns () s' \<and> allocated s' = allocated s \<and>
    indexed holds S s' \<and> I_arr s' \<noteq> None \<and> D_arr s' \<noteq> None"
proof -
  let ?vs = "subrange xs (nat 0) (nat n * nat d)"
  from x have vs: "pass_vectors x 0 n d s = Returns ?vs s"
    by (intro pass_vectors_Returns) simp_all
  from x(2) have "length ?vs = nat n * nat d" by simp
  from index_contractD(8) [OF contract x(3,4) this]
  have "returns_with holds (search api n ?vs k) S
      (\<lambda>(ds, ls). length ds = nat n * nat k \<and> length ls = nat n * nat k) S" .
  from on_index_returns_with [OF this s(1)] obtain ds ls ix' where
    "on_index (search api n ?vs k) s = Returns (ds, ls) (s\<lparr>index := Some ix'\<rparr>)"
    "length ds = nat n * nat k" "length ls = nat n * nat k" "holds S ix'" by auto
  with vs s(2-5) show ?thesis by (simp add: search_into_def allocated_def)
qed

lemma print_rows_Returns:
  assumes n: "0 \<le> n" "n \<le> LONG_MAX" and k: "0 \<le> k" "k \<le> LONG_MAX"
    and cell: "\<And>i j out. 0 \<le> i \<Longrightarrow> i < n \<Longrightarrow> 0 \<le> j \<Longrightarrow> j < k \<Longrightarrow>
      \<exists>e. cell i j (s\<lparr>stdout := out\<rparr>) = Returns () (s\<lparr>stdout := out @ [e]\<rparr>)"
  shows "\<exists>out. print_rows cell k n s = Returns () (s\<lparr>stdout := out\<rparr>)"
proof -
  let ?P = "\<lambda>(c :: int) s'. \<exists>out. s' = s\<lparr>stdout := out\<rparr>"
  have row: "\<exists>s''. statements [for_signed LONG_MAX 0 k (cell i), say End_row] s' = Returns () s'' \<and>
      ?P (i + 1) s''" if "0 \<le> i" "i < n" "?P i s'" for i s'
  proof -
    have "\<exists>t'. cell i j t = Returns () t' \<and> ?P (j + 1) t'" if "0 \<le> j" "j < k" "?P j t" for j t
      using cell [OF \<open>0 \<le> i\<close> \<open>i < n\<close> that(1,2)] that(3) by auto
    with k that(3) have "\<exists>s''. for_signed LONG_MAX 0 k (cell i) s' = Returns () s'' \<and> ?P k s''"
      by (intro for_signed_returns [where P = ?P]) auto
    then show ?thesis by (auto simp: statements_def)
  qed
  have "\<exists>s'. print_rows cell k n s = Returns () s' \<and> ?P n s'"
    unfolding print_rows_def
  proof (rule for_signed_returns [where P = ?P])
    show "?P 0 s" by (auto intro!: exI [of _ "stdout s"])
  qed (use n row in auto)
  then show ?thesis by auto
qed

lemma print_cell_Returns:
  assumes "0 \<le> i" "i < n" "0 \<le> j" "j < k" "k * n \<le> LONG_MAX" "length xs = nat (k * n)"
  shows "row_index i k j = Some (i * k + j)" "ptr_read xs (i * k + j) = Some (xs ! nat (i * k + j))"
proof -
  note c = cell_in_rows [OF assms(1-4)]
  from c assms(5) have "i * k + j \<le> LONG_MAX" by (simp add: mult.commute)
  with assms show "row_index i k j = Some (i * k + j)" by (intro row_index_in_range) simp_all
  from c assms(6) show "ptr_read xs (i * k + j) = Some (xs ! nat (i * k + j))"
    by (intro ptr_read_in) (simp_all add: mult.commute)
qed

lemma print_results_Returns:
  assumes fit: "0 \<le> n" "0 \<le> k" "k * n \<le> LONG_MAX" "n \<le> LONG_MAX" "k \<le> LONG_MAX"
    and s: "I_arr s = Some I" "D_arr s = Some D" "length I = nat (k * n)" "length D = nat (k * n)"
  shows "\<exists>out. print_results k n s = Returns () (s\<lparr>stdout := out\<rparr>)"
proof -
  have label: "\<exists>e. print_label k i j (t\<lparr>stdout := out\<rparr>) = Returns () (t\<lparr>stdout := out @ [e]\<rparr>)"
    if "0 \<le> i" "i < n" "0 \<le> j" "j < k" "I_arr t = Some I" for i j out and t :: "('a, 'b) main_state"
    using print_cell_Returns [OF that(1-4) fit(3) s(3)] that(5)
    by (simp add: print_label_def) (rule exI, rule refl)
  have distance:
    "\<exists>e. print_distance k i j (t\<lparr>stdout := out\<rparr>) = Returns () (t\<lparr>stdout := out @ [e]\<rparr>)"
    if "0 \<le> i" "i < n" "0 \<le> j" "j < k" "D_arr t = Some D" for i j out and t :: "('a, 'b) main_state"
    using print_cell_Returns [OF that(1-4) fit(3) s(4)] that(5)
    by (simp add: print_distance_def) (rule exI, rule refl)
  define s1 where "s1 = s\<lparr>stdout := stdout s @ [Line ''I='']\<rparr>"
  from print_rows_Returns [OF fit(1,4,2,5), of "print_label k" s1] label [where t = s1] s(1)
  obtain out1 where out1: "print_rows (print_label k) k n s1 = Returns () (s1\<lparr>stdout := out1\<rparr>)"
    by (auto simp: s1_def)
  define s2 where "s2 = s\<lparr>stdout := out1 @ [Line ''D='']\<rparr>"
  from print_rows_Returns [OF fit(1,4,2,5), of "print_distance k" s2] distance [where t = s2] s(2)
  obtain out2 where "print_rows (print_distance k) k n s2 = Returns () (s2\<lparr>stdout := out2\<rparr>)"
    by (auto simp: s2_def)
  with out1 show ?thesis by (auto simp: print_results_def statements_def s1_def s2_def)
qed

lemma check_arrays_Returns:
  assumes fit: "sizes_fit d nb nq k sanity_check_num id_offset"
    and s: "data_ready d nb nq s" "moved_ok id_offset nb sanity_check_num s"
  shows "\<exists>I D ys.
    statements
      [new_results junk junk_id k sanity_check_num, new_xbb junk sanity_check_num d,
       copy_moved d sanity_check_num id_offset] s =
      Returns () (s\<lparr>I_arr := Some I, D_arr := Some D, xbb := Some ys\<rparr>) \<and>
    length I = nat (k * sanity_check_num) \<and> length D = nat (k * sanity_check_num) \<and>
    length ys = nat (sanity_check_num * d)"
proof -
  note g = sizes_fit_sanity [OF fit]
  let ?n = sanity_check_num
  define s1 where "s1 = s\<lparr>I_arr := Some (map junk_id [0..<nat (k * ?n)]),
    D_arr := Some (map junk [0..<nat (k * ?n)])\<rparr>"
  define s2 where "s2 = s1\<lparr>xbb := Some (map junk [0..<nat (?n * d)])\<rparr>"
  have 1: "new_results junk junk_id k ?n s = Returns () s1"
    using g(1,2) by (simp add: new_results_Returns s1_def)
  have 2: "new_xbb junk ?n d s1 = Returns () s2"
    using g(3,4) by (simp add: new_xbb_def new_product_Returns s2_def)
  from copy_moved_Returns [OF fit, of s2 "map junk [0..<nat (?n * d)]"] s
  obtain ys where "copy_moved d ?n id_offset s2 = Returns () (s2\<lparr>xbb := Some ys\<rparr>)"
    and "length ys = nat (?n * d)" by (auto simp: s2_def s1_def moved_ok_def data_ready_def)
  with 1 2 show ?thesis
    by (intro exI [of _ "map junk_id [0..<nat (k * ?n)]"] exI [of _ "map junk [0..<nat (k * ?n)]"]
        exI [of _ ys]) (simp add: statements_def s2_def s1_def)
qed

lemma sanity_check_Returns:
  assumes contract: "index_contract api holds U d nlist bits_per_code"
    and fit: "sizes_fit d nb nq k sanity_check_num id_offset"
    and s: "data_ready d nb nq s" "indexed holds S s" "moved_ok id_offset nb sanity_check_num s"
  shows "\<exists>s'. sanity_check junk junk_id api d k sanity_check_num id_offset s = Returns () s' \<and>
    allocated s' =
      (Some (nat (d * nb)), Some (nat (d * nq)), None, None, None, [nat (sanity_check_num * d)]) \<and>
    indexed holds S s'"
proof -
  note f = sizes_fitD [OF fit] and g = sizes_fit_sanity [OF fit]
  let ?n = sanity_check_num
  from s(1) obtain xs where xs: "xb s = Some xs" "length xs = nat (d * nb)"
    by (auto simp: data_ready_def)
  define rest where "rest = [\<lambda>s. search_into api (xb s) ?n d k s, print_results k ?n,
    delete_results, leave_check :: ('a, 'b) main_state \<Rightarrow> _]"
  from check_arrays_Returns [OF fit s(1,3), of junk junk_id] obtain I D ys where
    first: "statements [new_results junk junk_id k ?n, new_xbb junk ?n d, copy_moved d ?n id_offset] s =
      Returns () (s\<lparr>I_arr := Some I, D_arr := Some D, xbb := Some ys\<rparr>)"
    and ID: "length I = nat (k * ?n)" "length D = nat (k * ?n)" and ys: "length ys = nat (?n * d)"
    by blast
  define s3 where "s3 = s\<lparr>I_arr := Some I, D_arr := Some D, xbb := Some ys\<rparr>"
  from statements_then [OF first, of rest]
  have run: "sanity_check junk junk_id api d k ?n id_offset s = statements rest s3"
    by (simp add: sanity_check_def rest_def s3_def)
  from g(6) xs(2) have "nat ?n * nat d \<le> length xs" by simp
  with xs(1) f(1,4,5) s(2) ID
  obtain s4 where 4: "search_into api (xb s3) ?n d k s3 = Returns () s4"
    and s4: "allocated s4 = allocated s3" "indexed holds S s4" "I_arr s4 \<noteq> None" "D_arr s4 \<noteq> None"
    using search_into_Returns [OF contract, where xs = xs and I = I and D = D and s = s3
        and x = "xb s3" and n = ?n and k = k and S = S]
    by (auto simp: s3_def nat_mult_distrib mult.commute)
  from s4(1,3,4) ID obtain I' D' where ID': "I_arr s4 = Some I'" "D_arr s4 = Some D'"
    "length I' = nat (k * ?n)" "length D' = nat (k * ?n)"
    by (auto simp: allocated_def s3_def)
  from print_results_Returns [OF f(5,4) g(2,5) f(17) ID'] obtain out where
    5: "print_results k ?n s4 = Returns () (s4\<lparr>stdout := out\<rparr>)" by blast
  from s4(1) ys have "lost (xbb s4) = [nat (?n * d)]" by (auto simp: allocated_def s3_def)
  with 4 5 ID' have "statements rest s3 = Returns ()
      (s4\<lparr>stdout := out, leaked := leaked s4 @ [nat (?n * d)], I_arr := None, D_arr := None,
         xbb := None\<rparr>)"
    by (simp add: rest_def statements_def delete_results_def leave_check_def)
  moreover from s4(1) s(1) have "allocated s4 =
      (Some (nat (d * nb)), Some (nat (d * nq)), Some (length I), Some (length D),
       Some (length ys), [])"
    by (auto simp: allocated_def s3_def data_ready_def)
  ultimately show ?thesis using s4(2) run by (auto simp: s3_def allocated_def indexed_def)
qed

section \<open>The whole driver\<close>

lemma search_xq_Returns:
  assumes contract: "index_contract api holds U d nlist bits_per_code"
    and fit: "sizes_fit d nb nq k sanity_check_num id_offset"
    and a: "allocated s = (a, Some (nat (d * nq)), c1, c2, e, L)" and ix: "indexed holds S s"
  shows "\<exists>s'. search_xq junk junk_id api d nq k s = Returns () s' \<and>
    allocated s' = (a, Some (nat (d * nq)), None, None, e, L)"
proof -
  from a obtain ys where s: "xq s = Some ys" "length ys = nat (d * nq)"
    by (auto simp: allocated_def)
  note c = index_contractD [OF contract] and f = sizes_fitD [OF fit] and g = sizes_fit_sanity [OF fit]
  define s1 where "s1 = s\<lparr>I_arr := Some (map junk_id [0..<nat (k * nq)]),
    D_arr := Some (map junk [0..<nat (k * nq)])\<rparr>"
  have 1: "new_results junk junk_id k nq s = Returns () s1"
    using f(16,11) by (simp add: new_results_Returns s1_def)
  from ix have "indexed holds S s1" by (simp add: s1_def)
  from on_index_returns_with [OF c(7) this] obtain ix where
    2: "on_index (\<lambda>ix. Returns () (set_nprobe api 10 ix)) s1 = Returns () (s1\<lparr>index := Some ix\<rparr>)"
    and ix: "holds S ix" by auto
  define s2 where "s2 = s1\<lparr>index := Some ix\<rparr>"
  from g(8) s(2) have "nat nq * nat d \<le> length ys" by simp
  then have "\<exists>s3. search_into api (xq s2) nq d k s2 = Returns () s3 \<and> allocated s3 = allocated s2 \<and>
      indexed holds S s3 \<and> I_arr s3 \<noteq> None \<and> D_arr s3 \<noteq> None"
    using s(1) f(1,3,4) ix
    by (intro search_into_Returns [OF contract, where xs = ys and I = "the (I_arr s1)"
          and D = "the (D_arr s1)"])
       (simp_all add: s2_def s1_def nat_mult_distrib mult.commute)
  then obtain s3 where 3: "search_into api (xq s2) nq d k s2 = Returns () s3"
    and s3: "allocated s3 = allocated s2" "I_arr s3 \<noteq> None" "D_arr s3 \<noteq> None" by blast
  have 4: "delete_results (s3\<lparr>stdout := out\<rparr>) =
      Returns () (s3\<lparr>stdout := out, I_arr := None, D_arr := None\<rparr>)" for out
    using s3(2,3) by (simp add: delete_results_def)
  have "search_xq junk junk_id api d nq k s =
      Returns () (s3\<lparr>stdout := stdout s3 @ [Elapsed_time], I_arr := None, D_arr := None\<rparr>)"
    using 1 2 3 4
    by (simp add: search_xq_def statements_def discard_def leave_search_def s2_def [symmetric])
  with s3(1) a show ?thesis by (auto simp: allocated_def s2_def s1_def)
qed

lemma main_setup_Returns:
  fixes api :: "('f, 'ix) index_api"
  assumes contract: "index_contract api holds (id_range id_offset nb) d nlist bits_per_code"
    and fit: "sizes_fit d nb nq k sanity_check_num id_offset"
  shows "\<exists>s S.
    statements
      [alloc_vectors junk d nb nq, fill_xb draw bump d nb, fill_xq draw bump d nq,
       build_index api d nb nlist bits_per_code, add_vectors api d nb id_offset,
       remove_first api sanity_check_num id_offset] main_start = Returns () s \<and>
    data_ready d nb nq s \<and> indexed holds S s \<and> moved_ok id_offset nb sanity_check_num s"
proof -
  have "leaked (main_start :: ('f, 'ix) main_state) = []" by (simp add: main_start_def)
  from alloc_vectors_Returns [OF fit this] obtain s1 :: "('f, 'ix) main_state" where
    1: "alloc_vectors junk d nb nq main_start = Returns () s1" and r1: "data_ready d nb nq s1"
    by blast
  from fill_xb_Returns [OF fit r1] obtain s2 where
    2: "fill_xb draw bump d nb s1 = Returns () s2" and r2: "data_ready d nb nq s2" by blast
  from fill_xq_Returns [OF fit r2] obtain s3 where
    3: "fill_xq draw bump d nq s2 = Returns () s3" and r3: "data_ready d nb nq s3" by blast
  from build_index_Returns [OF contract fit r3] obtain s4 where
    4: "build_index api d nb nlist bits_per_code s3 = Returns () s4"
    and r4: "data_ready d nb nq s4" "indexed holds {} s4" by blast
  from add_vectors_Returns [OF contract fit r4] obtain s5 where
    5: "add_vectors api d nb id_offset s4 = Returns () s5"
    and r5: "data_ready d nb nq s5" "indexed holds (id_range id_offset nb) s5" by blast
  from remove_first_Returns [OF contract fit r5] obtain s6 S where
    "remove_first api sanity_check_num id_offset s5 = Returns () s6"
    "data_ready d nb nq s6" "indexed holds S s6" "moved_ok id_offset nb sanity_check_num s6"
    by blast
  with 1 2 3 4 5 show ?thesis by (auto simp: statements_def)
qed

lemma main_with_Returns:
  fixes api :: "('f, 'ix) index_api"
  assumes contract: "index_contract api holds (id_range id_offset nb) d nlist bits_per_code"
    and fit: "sizes_fit d nb nq k sanity_check_num id_offset"
  shows "\<exists>s. main_with junk junk_id draw bump api d nb nq nlist k bits_per_code
      sanity_check_num id_offset = Returns 0 s \<and>
    allocated s = (None, None, None, None, None, [nat (sanity_check_num * d)]) \<and>
    outline (stdout s) = main_outline k sanity_check_num"
proof -
  define rest where "rest = [sanity_check junk junk_id api d k sanity_check_num id_offset,
    free_xb, search_xq junk junk_id api d nq k, free_xq]"
  from main_setup_Returns [OF contract fit, of junk draw bump] obtain s6 S where
    first: "statements
      [alloc_vectors junk d nb nq, fill_xb draw bump d nb, fill_xq draw bump d nq,
       build_index api d nb nlist bits_per_code, add_vectors api d nb id_offset,
       remove_first api sanity_check_num id_offset] main_start = Returns () s6"
    and r6: "data_ready d nb nq s6" "indexed holds S s6" "moved_ok id_offset nb sanity_check_num s6"
    by blast
  from statements_then [OF first, of rest]
  have run: "main_with junk junk_id draw bump api d nb nq nlist k bits_per_code
      sanity_check_num id_offset = and_then (statements rest s6) (\<lambda>_. leave_main)"
    by (simp add: main_with_def rest_def)
  from sanity_check_Returns [OF contract fit r6] obtain s7 where
    7: "sanity_check junk junk_id api d k sanity_check_num id_offset s6 = Returns () s7"
    and r7: "allocated s7 = (Some (nat (d * nb)), Some (nat (d * nq)), None, None, None,
      [nat (sanity_check_num * d)])" "indexed holds S s7" by blast
  define s8 where "s8 = s7\<lparr>xb := None, stdout := stdout s7 @ [Line ''train done'', Sleep 1000]\<rparr>"
  from r7(1) have 8: "free_xb s7 = Returns () s8"
    by (auto simp: allocated_def s8_def intro: free_xb_Returns)
  from r7 have "allocated s8 = (None, Some (nat (d * nq)), None, None, None,
      [nat (sanity_check_num * d)])" "indexed holds S s8"
    by (simp_all add: s8_def allocated_def)
  from search_xq_Returns [OF contract fit this] obtain s9 where
    9: "search_xq junk junk_id api d nq k s8 = Returns () s9"
    and r9: "allocated s9 = (None, Some (nat (d * nq)), None, None, None,
      [nat (sanity_check_num * d)])" by blast
  then have 10: "free_xq s9 = Returns () (s9\<lparr>xq := None\<rparr>)"
    by (auto simp: allocated_def intro: free_xq_Returns)
  from r9 have "leave_main (s9\<lparr>xq := None\<rparr>) = Returns 0 (s9\<lparr>xq := None\<rparr>)"
    by (cases s9) (simp add: leave_main_def allocated_def)
  with 7 8 9 10 have "main_with junk junk_id draw bump api d nb nq nlist k bits_per_code
      sanity_check_num id_offset = Returns 0 (s9\<lparr>xq := None\<rparr>)"
    by (simp add: run rest_def statements_def)
  from this main_with_outline [OF this] r9 show ?thesis by (simp add: allocated_def)
qed

section \<open>A moved identifier that is not a row\<close>

lemma copy_cell_wraps_lemma:
  fixes m :: "32 word"
  assumes "0 \<le> id_offset" "id_offset \<le> INT_MAX" "uint m < id_offset" "nb \<le> INT_MAX"
  shows "nb \<le> uint (m - of_int id_offset)" "uint (m - of_int id_offset) < 2 ^ 32"
proof -
  from assms have "uint (of_int id_offset :: 32 word) = id_offset"
    by (simp add: uint_word_of_int take_bit_int_eq_self)
  with assms(3) have "uint (m - of_int id_offset) = uint m - id_offset + 2 ^ 32"
    by (simp add: uint_sub_if')
  moreover have "(2 :: int) ^ 32 = 4294967296" "(2 :: int) ^ 31 = 2147483648" by simp_all
  ultimately show "nb \<le> uint (m - of_int id_offset)"
    using assms uint_ge_0 [of m] by linarith
  show "uint (m - of_int id_offset) < 2 ^ 32" using uint_bounded [of "m - of_int id_offset"] by simp
qed

text \<open>
  C18. The moved identifiers are kept as 32-bit unsigned values, and the row of a moved
  identifier is computed by an unsigned subtraction of \<open>id_offset\<close>.  For a moved
  identifier below \<open>id_offset\<close> the subtraction wraps around to a row of at least
  \<open>2^32 - id_offset\<close>, and the copy into \<open>xbb\<close> reads \<open>xb\<close> outside its cells.
\<close>

theorem copy_cell_out_of_bounds:
  assumes d: "0 < d" "d \<le> INT_MAX" and j: "0 \<le> j" "j < d" and nb: "0 \<le> nb" "nb \<le> INT_MAX"
    and off: "0 \<le> id_offset" "id_offset \<le> INT_MAX"
    and s: "xb s = Some xs" "length xs = nat (d * nb)" "xbb s = Some ys"
    and i: "0 \<le> i" "nat i < length (moved_list s)" "uint (moved_list s ! nat i) < id_offset"
  shows "copy_cell d id_offset i j s = Undefined OutOfBounds"
proof -
  define t where "t = uint (moved_list s ! nat i - of_int id_offset)"
  from copy_cell_wraps_lemma [OF off i(3) nb(2)] have t: "nb \<le> t" "t < 2 ^ 32"
    by (simp_all add: t_def)
  from i have m: "ptr_read (moved_list s) i = Some (moved_list s ! nat i)"
    by (intro ptr_read_in) simp_all
  from t nb d have "d * t \<le> INT_MAX * 2 ^ 32" by (intro mult_mono) simp_all
  with j d have "d * t + j \<le> LONG_MAX" by simp
  with d t nb j have "row_index d t j = Some (d * t + j)" by (intro row_index_in_range) simp_all
  moreover from t(1) d(1) have "d * nb \<le> d * t" by (intro mult_left_mono) simp_all
  with j have "\<not> nat (d * t + j) < nat (d * nb)" by linarith
  with s(2) have "ptr_read xs (d * t + j) = None" by (simp add: ptr_read_def)
  ultimately show ?thesis using s(1,3) m by (simp add: copy_cell_def t_def)
qed

theorem copy_cell_out_of_bounds_witness:
  "copy_cell 1 5 0 0
     (main_start\<lparr>xb := Some [7 :: nat], xbb := Some [0], moved_list := [3],
        index := Some ([] :: idx_t list)\<rparr>) = Undefined OutOfBounds"
  using copy_cell_out_of_bounds [of 1 0 1 5
      "main_start\<lparr>xb := Some [7 :: nat], xbb := Some [0], moved_list := [3],
         index := Some ([] :: idx_t list)\<rparr>" "[7]" "[0]" 0]
  by simp

section \<open>The driver as it is written\<close>

text \<open>
  C5. With an index library that keeps the contract for the identifiers
  \<open>1000, \<dots>, 50999\<close> and the dimension 768, the driver runs to its \<open>return 0\<close>: no
  access leaves an array, no product leaves its type, no exception leaves \<open>main\<close>.
  When it returns, the database, the queries and the result arrays of both blocks are
  deleted, and one array is still allocated with no pointer left to it: the 3840 cells
  of \<open>xbb\<close>.  It has printed, in this order, the three messages of the build, the
  five moved identifiers, the message of the removal, the labels and the distances as
  five rows of four cells each, the message before the sleep, and the elapsed time.
\<close>

theorem main_returns:
  fixes api :: "('f, 'ix) index_api"
  assumes "index_contract api holds (id_range 1000 50000) 768 100 4"
  shows "\<exists>s. main junk junk_id draw bump api = Returns 0 s \<and>
    allocated s = (None, None, None, None, None, [3840]) \<and>
    outline (stdout s) = main_outline 4 5"
proof -
  have "sizes_fit 768 50000 1000 4 5 1000" by (simp add: sizes_fit_def)
  from main_with_Returns [OF assms this, of junk junk_id draw bump] show ?thesis
    by (simp add: main_def)
qed

theorem main_returns_witness:
  "\<exists>s. main (\<lambda>_. 0 :: nat) (\<lambda>_. 0) (\<lambda>r. r) (\<lambda>v i. v) toy_index = Returns 0 s \<and>
    allocated s = (None, None, None, None, None, [3840]) \<and>
    outline (stdout s) = main_outline 4 5"
  using main_returns [OF toy_index_contract, where junk = "\<lambda>_. 0 :: nat" and junk_id = "\<lambda>_. 0"
      and draw = "\<lambda>r. r" and bump = "\<lambda>v i. v"]
  by simp

end
