(* ===== verification/Spec2Isabelle.thy ===== *)
theory Spec2Isabelle
  imports BIL_Machine BIL_IO BIL_Abstract Tutorial_Run
begin

text \<open>
  \<^bold>\<open>A verification development for the block-packed inverted-list store of faiss
  and for the tutorial driver that comes with it.\<close>

  \<^bold>\<open>The program.\<close>  \<^verbatim>\<open>src/faiss/invlists/BlockInvertedLists.cpp\<close> implements
  \<^verbatim>\<open>BlockInvertedLists\<close>, the storage of an inverted-file index whose codes are kept
  in blocks of \<open>n_per_block\<close> vectors and \<open>block_size\<close> bytes.  The object holds
  \<open>nlist\<close> lists; list \<open>l\<close> is a vector of ids \<open>ids[l]\<close> and a byte buffer
  \<open>codes[l]\<close>.  Its methods append entries (\<^verbatim>\<open>add_entries\<close>), overwrite entries
  (\<^verbatim>\<open>update_entries\<close>), change the size of a list (\<^verbatim>\<open>resize\<close>), read a list
  (\<^verbatim>\<open>list_size\<close>, \<^verbatim>\<open>get_ids\<close>, \<^verbatim>\<open>get_codes\<close>), hand out one code in a fresh
  array (\<^verbatim>\<open>get_single_code\<close>) and free it again (\<^verbatim>\<open>release_codes\<close>).  A
  \<^verbatim>\<open>CodePacker\<close>, declared outside the sources, moves one code into or out of its
  slot of a block.  \<^verbatim>\<open>BlockInvertedListsIOHook\<close>, in the same file, writes a store to
  a byte stream and reads it back.  \<^verbatim>\<open>src/tutorial/cpp/3-IVFPQ.cpp\<close> is a demo
  \<^verbatim>\<open>main\<close>: it fills two arrays of random vectors, builds and trains an
  \<^verbatim>\<open>IndexIVFPQFastScan\<close>, adds the vectors one by one, removes the first five and
  records which vector took the place of each, copies those vectors, searches, prints
  the results and frees its arrays.  The index classes it calls are outside the
  sources; the store above is what such an index keeps its lists in.

  \<^bold>\<open>How the code is modelled.\<close>  A call returns one of three outcomes (\<open>outcome\<close> in
  \<open>BIL_Prelude\<close>): \<open>Returns v s\<close>, \<open>Throws e s\<close> for a \<^verbatim>\<open>FaissException\<close>, with
  the state the call reached when it threw, and \<open>Undefined u\<close> for undefined
  behaviour of C++ (an access outside a buffer, a division by zero, a null pointer,
  a failed \<^verbatim>\<open>assert\<close>, a \<^verbatim>\<open>delete[]\<close> of an array that is not live, an overflow
  of a signed integer).
  \<^verbatim>\<open>size_t\<close> and \<^verbatim>\<open>idx_t\<close> are \<open>64 word\<close>, so every sum and product of the source
  wraps as it does in the program; a byte is \<open>8 word\<close>; vectors and buffers are
  lists.  The bytes a resize of an \<^verbatim>\<open>AlignedTable\<close> exposes are indeterminate: they
  are given by a parameter \<open>junk\<close>, and every theorem holds for every \<open>junk\<close>.
  A loop \<^verbatim>\<open>for (size_t i = 0; i < n; i++)\<close> is the function \<open>for_loop\<close>, total by
  the measure \<open>unat n - unat i\<close>, and equal to a fold over the list of counters
  (\<open>for_loop_fold\<close>).  The exception text is the failed condition; an \<open>Undefined\<close>
  value names the first undefined operation the call reaches.  Allocation never
  fails in the store.  The class and its base are declared outside the sources: the fields a
  constructor does not name are zero and null (\<open>n_per_block\<close>, \<open>block_size\<close>,
  \<open>packer\<close>), and \<open>code_size\<close> is the base's \<open>INVALID_CODE_SIZE\<close>, the largest
  \<open>size_t\<close>.

  \<^bold>\<open>How the driver is modelled.\<close>  The local variables of \<^verbatim>\<open>main\<close> are the fields
  of the record \<open>main_state\<close>.  A \<^verbatim>\<open>long\<close> or an \<^verbatim>\<open>int\<close> is an \<open>int\<close> of HOL,
  and each sum, product and increment of the source goes through \<open>checked\<close>, which
  has no value outside the type: signed overflow is \<open>Undefined SignedOverflow\<close>.
  The vector \<^verbatim>\<open>moved_list\<close> holds \<^verbatim>\<open>id_t\<close>, the unsigned 32-bit type of POSIX, so
  its elements are \<open>32 word\<close> and the subtraction of line 94 wraps.  An array is the
  list of its cells, \<open>None\<close> before \<^verbatim>\<open>new[]\<close> and after \<^verbatim>\<open>delete[]\<close>; \<open>ptr_read\<close> and
  \<open>ptr_write\<close> have no value outside the array; \<^verbatim>\<open>new[]\<close> of a negative size throws
  \<open>BadAlloc\<close>, and the cells it returns are given by a parameter \<open>junk\<close>.  A loop
  with a signed counter is \<open>for_signed\<close>, total by the measure \<open>n - i\<close> and equal to
  a fold over \<open>[i..n - 1]\<close> when the bound fits the counter's type (\<open>for_signed_fold\<close>).
  The type of the floats is a type variable: the \<open>k\<close>-th value of the random generator
  is \<open>draw k\<close>, and \<^verbatim>\<open>x += i / 1000.\<close> is \<open>bump x i\<close>, both parameters.  What \<^verbatim>\<open>main\<close>
  prints is a list of events.  When a block ends, the arrays its pointers still name
  are recorded in the field \<open>leaked\<close>.  The index is a record \<open>index_api\<close> of the
  methods \<^verbatim>\<open>main\<close> calls, over a state the driver never looks into; a pointer argument
  is passed as the cells the callee may read through it.

  \<^bold>\<open>The theories.\<close>
  \<^item> \<open>BIL_Prelude\<close>: the machine types, \<open>outcome\<close> and \<open>and_then\<close>, rounding-up
    division \<open>ceil_div\<close> with its laws, \<open>size_t\<close> arithmetic that does not wrap,
    \<open>subrange\<close> and \<open>overwrite\<close> on lists with their laws, and the collections
    \<open>bil_defs\<close>, \<open>bil_len\<close>, \<open>bil_range\<close>.
  \<^item> \<open>Cxx_Memory\<close>: \<open>vector_resize\<close>, \<open>aligned_resize\<close>, \<open>memcpy\<close>, \<open>memset\<close>,
    \<open>at\<close> (a checked \<^verbatim>\<open>operator[]\<close>), \<open>for_loop\<close> with the rules that carry an
    invariant through a loop (\<open>for_loop_state_invariant\<close>, \<open>for_loop_defined\<close>) and
    \<open>for_loop_returns\<close>, and a heap of byte arrays with \<open>new_array\<close> and
    \<open>delete_array\<close>.
  \<^item> \<open>CodePacker\<close>: the record \<open>CodePacker\<close> with \<open>pack_one\<close> and \<open>unpack_one\<close> on
    one block, the adapter \<open>pack_1\<close> and \<open>unpack_1\<close> on a whole buffer as the store
    calls it, the contract \<open>packer_ok\<close> (a slot reads back what was packed into it,
    packing leaves the other slots alone, lengths are kept), and \<open>flat_packer\<close>, a
    row-major packer that satisfies it (\<open>flat_packer_ok\<close>).  The class is declared
    outside the sources; this theory follows sections 4.1 and 6 of the specification.
  \<^item> \<open>Block_Inverted_Lists\<close>: the record \<open>BlockInvertedLists\<close>, the three
    constructors, and one definition per method of lines 42-143, each with the guards
    and the order of the statements of the source.  The size invariant \<open>sizes_ok\<close>
    says that each list has fewer than \<open>2^64\<close> ids and a buffer of
    \<open>n_block_for (size) n_per_block * block_size\<close> bytes in \<open>size_t\<close> arithmetic;
    \<open>list_fits\<close> says that this product does not wrap, and under it the buffer has
    \<open>ceil_div size n_per_block\<close> blocks (\<open>list_sizes_ok_fits\<close>).
    \<open>add_entries_sizes_ok\<close>: every state \<open>add_entries\<close> leaves satisfies the
    invariant.
  \<^item> \<open>BIL_Append\<close>: \<open>add_entries\<close> branch by branch.  \<open>add_entries_first\<close>: the
    first append copies the caller's blocks.  \<open>add_entries_packs_slots\<close>: an append
    through the packer puts entry \<open>i\<close> in slot \<open>o + i\<close> and leaves the slots below
    \<open>o\<close>.  \<open>add_entries_aligned_out_of_bounds\<close>: the block copy at an offset other
    than 0 leaves the buffer.  \<open>add_entries_missing_packer\<close>: the exception for a
    missing packer comes after the list was changed.  \<open>add_entries_list_size\<close>: the
    value returned and the size afterwards, on every path.  \<open>add_entries_nothing\<close>.
  \<^item> \<open>BIL_Resize\<close>: \<open>resize\<close>: its result (\<open>resize_Returns\<close>), the invariant
    (\<open>resize_sizes_ok\<close>), the unchecked list number (\<open>resize_bad_list_undefined\<close>),
    and growing then shrinking (\<open>resize_grow_shrink_restores\<close>).
  \<^item> \<open>BIL_Update\<close>: \<open>update_entries\<close>: its result (\<open>update_entries_overwrites\<close>),
    the invariant (\<open>update_entries_sizes_ok\<close>), that a throw leaves the store as it
    was (\<open>update_entries_throws_unchanged\<close>), and the two undefined calls its guards
    let through (\<open>update_entries_null_packer\<close>, \<open>update_entries_wrapped_guard\<close>).
  \<^item> \<open>BIL_Registry\<close>: \<open>get_single_code\<close>, \<open>release_codes\<close> and the destructor
    over the heap; \<open>registry_ok\<close> says that every registered address is a live
    array.  \<open>get_single_code_Returns\<close>, \<open>get_single_code_registry_ok\<close>,
    \<open>release_codes_registry_ok\<close>, \<open>release_codes_twice\<close>, \<open>destroy_leaks\<close>.
  \<^item> \<open>BIL_IO\<close>: the hook's \<^verbatim>\<open>write\<close> and \<^verbatim>\<open>read\<close> (\<open>IOHook_write\<close>,
    \<open>IOHook_read\<close>, lines 149-186) over byte lists.  The I/O macros, \<open>fourcc\<close> and the
    dispatcher \<open>read_InvertedLists\<close> are declared outside the sources and follow
    sections 4.3 and 6 of the specification: integers in little-endian order, a writer
    that accepts every write, a reader that fails on a short stream.
    \<open>IOHook_write_layout\<close>, \<open>IOHook_write_read\<close>, \<open>IOHook_read_defined\<close>,
    \<open>IOHook_read_unchecked\<close>.
  \<^item> \<open>BIL_Abstract\<close>: what a list stands for, the sequence \<open>entries\<close> of its
    ids paired with the codes the packer unpacks from its slots, and the refinement
    of list operations by the store: \<open>update_entries_refines\<close> (overwriting a
    range), \<open>add_entries_refines\<close> (appending), \<open>resize_shrink_refines\<close>
    (truncating), \<open>get_single_code_refines\<close> (reading one entry).
  \<^item> \<open>BIL_Machine\<close>: the interface of the store as a datatype \<open>op\<close> of
    operations, one call as the function \<open>call\<close> on the store and the heap, runs of
    calls as the inductive relation \<open>run\<close> and as the function \<open>run_calls\<close>
    (\<open>run_iff_run_calls\<close>), the invariant \<open>world_inv\<close> that every call keeps
    (\<open>call_world_inv\<close>), and \<open>run_keeps_array\<close>: an array that was handed out
    keeps its bytes until it is released.
    \<open>accessors_typed\<close>: the three views of a list fit each other.
    \<open>drain_registry\<close>: from a state that satisfies the invariant, releasing every
    registered array returns and empties the registry.
  \<^item> \<open>Tutorial_Data\<close> (\<^verbatim>\<open>3-IVFPQ.cpp\<close> lines 30-43): \<open>checked\<close>, \<open>row_index\<close>,
    \<open>new_floats\<close>, \<open>ptr_read\<close>, \<open>ptr_write\<close>, \<open>for_signed\<close> with its invariant rule
    \<open>for_signed_returns\<close>, and the loops that fill an array, \<open>fill_rows\<close>.
    \<open>fill_rows_random_rows\<close>: the loops equal the reference \<open>random_rows\<close>.
  \<^item> \<open>Tutorial_Main\<close> (lines 22-148): \<open>main_state\<close>, \<open>index_api\<close>, one definition
    for each part of \<^verbatim>\<open>main\<close> (\<open>alloc_vectors\<close>, \<open>fill_xb\<close>, \<open>fill_xq\<close>,
    \<open>build_index\<close>, \<open>add_vectors\<close>, \<open>remove_first\<close>, \<open>sanity_check\<close>, \<open>free_xb\<close>,
    \<open>search_xq\<close>, \<open>free_xq\<close>, \<open>leave_main\<close>) and \<open>main_with\<close>, which runs them in
    the order of the source; \<open>main\<close> is \<open>main_with\<close> at the constants of lines 23-50.
  \<^item> \<open>Tutorial_Index\<close>: what \<^verbatim>\<open>main\<close> needs of the index, \<open>index_contract\<close>: over
    a set \<open>U\<close> of identifiers, every method returns; adding an identifier of \<open>U\<close>
    that is not held makes it held; a held identifier has a place in a list, and the
    last identifier of that list is held; a search of \<open>n\<close> vectors for \<open>k\<close>
    neighbours returns \<open>n * k\<close> distances and labels.  \<open>toy_index\<close> keeps the contract
    (\<open>toy_index_contract\<close>), so the contract can be met.  \<open>add_loop_calls\<close>: the add
    loop is one \<^verbatim>\<open>add_with_ids\<close> per row.
  \<^item> \<open>Tutorial_Output\<close>: what \<^verbatim>\<open>main\<close> prints, up to the numbers: \<open>outline\<close>
    forgets the identifiers and the floats of the events, \<open>prints p out\<close> says that
    \<open>p\<close> adds \<open>out\<close> to the outline whenever it returns, with one rule for
    sequences (\<open>prints_statements\<close>), one for loops (\<open>prints_for_signed\<close>) and one
    lemma for each part of \<^verbatim>\<open>main\<close>; \<open>main_with_outline\<close>: a run of \<^verbatim>\<open>main\<close> that
    returns has printed \<open>main_outline\<close>.
  \<^item> \<open>Tutorial_Run\<close>: one lemma per part of \<^verbatim>\<open>main\<close> that it returns and what
    holds afterwards (\<open>data_ready\<close>, \<open>indexed\<close>, \<open>moved_ok\<close>, \<open>allocated\<close>), for all
    sizes that fit (\<open>sizes_fit\<close>); \<open>main_returns\<close>: the driver as written returns 0,
    leaks \<^verbatim>\<open>xbb\<close> and has printed \<open>main_outline 4 5\<close>; \<open>copy_cell_out_of_bounds\<close>:
    a moved identifier below \<open>id_offset\<close> makes the copy read outside \<^verbatim>\<open>xb\<close>.
  \<^item> This theory: the properties that need more than one component: the invariant
    of every state reachable from a constructor (\<open>reachable_world_inv\<close>), an update
    read back by \<open>get_single_code\<close> (\<open>update_entries_then_get_single_code\<close>),
    the state of a store that was written and read back (\<open>read_back_world_inv\<close>), and
    that every array handed out in a reachable state can be released
    (\<open>reachable_registry_drains\<close>).

  \<^bold>\<open>Bounds.\<close>  Nothing is bounded by fuel: every loop is total.  The hypotheses
  \<open>list_fits\<close>, \<open>unat n_entry < 2 ^ 61\<close> and \<open>length code < 2 ^ 64\<close> of the
  functional theorems say that a size fits \<open>size_t\<close>; the program cannot allocate a
  buffer for which they fail.  The invariant theorems need none of them.  The driver's
  lemmas hold for all sizes with \<open>sizes_fit\<close>: the products \<open>d * nb\<close>, \<open>d * nq\<close>,
  \<open>k * nq\<close> and \<open>k * nb\<close> fit a \<^verbatim>\<open>long\<close>, \<open>d\<close> and \<open>id_offset + nb\<close> fit an
  \<^verbatim>\<open>int\<close>, and \<open>sanity_check_num \<le> nb\<close>; the constants of the source satisfy it, and
  \<open>main_returns\<close> is stated for them.  \<open>main_returns\<close> assumes \<open>index_contract\<close> of
  the index; it says nothing of an index that does not keep it.

  \<^bold>\<open>Not modelled.\<close>  Failure of allocation for want of memory; the alignment of
  \<^verbatim>\<open>AlignedTable\<close>; concurrent calls; a writer that refuses a write and the bytes
  a failed read leaves in the reader; the text of an exception beyond the failed
  condition.  Of the driver: the values of the floats and of the random generator,
  the characters \<^verbatim>\<open>printf\<close> writes for a number, the clock and the duration of the
  sleep.  The quantizer, the index classes, the direct map, the search and the distance
  kernels are not in the sources: the driver's theorems speak of them through
  \<open>index_contract\<close> only, and nothing is shown of what they compute.

  \<^bold>\<open>Not shown.\<close>  The entries of a list after a growing \<open>resize\<close> and after the
  block copy of the first append are not related to \<open>entries\<close>: both depend on how
  the packer lays out a block of zero bytes or of the caller's bytes, which the
  contract leaves open.
\<close>

section \<open>A small store and a run on it\<close>

abbreviation small_store :: BlockInvertedLists where
  "small_store \<equiv> (BlockInvertedLists_sized 1 2 2)\<lparr>packer := Some flat_example_packer\<rparr>"

lemma small_store_constructed:
  "BlockInvertedLists_packer 1 (Some flat_example_packer) = Returns () small_store"
  by (simp add: BlockInvertedLists_packer_def BlockInvertedLists_sized_def)

lemma small_step1:
  "add_entries junk small_store 0 1 [5] [1, 0] = Returns 0 flat_example_store"
  by (simp add: add_entries_def BlockInvertedLists_sized_def INVALID_CODE_SIZE_def
      n_block_for_def bil_defs overwrite_def set_list_def)

lemma small_step2:
  "add_entries junk flat_example_store 0 2 [6, 7] [3, 4]
     = Returns 1 (set_list small_store 0 [5, 6, 7] [1, 3, 4, junk 3])"
  by (simp add: add_entries_def BlockInvertedLists_sized_def INVALID_CODE_SIZE_def
      n_block_for_def bil_defs set_list_def for_loop_fold counters_def
      add_entries_body_def packer_eval upt_rec)
     (simp add: numeral_3_eq_3)

lemma small_step3:
  "update_entries (set_list small_store 0 [5, 6, 7] [1, 3, 4, b]) 0 0 1 [9] [4]
     = Returns () (set_list small_store 0 [9, 6, 7] [4, 3, 4, b])"
  by (simp add: update_entries_def for_loop_fold counters_def update_entries_body_def
      packer_eval set_list_def at_def BlockInvertedLists_sized_def bil_defs)

lemma small_step4:
  "resize junk (set_list small_store 0 [9, 6, 7] [4, 3, 4, b]) 0 1
     = Returns () (set_list small_store 0 [9] [4, 3])"
  by (simp add: resize_def n_block_for_def bil_defs set_list_def BlockInvertedLists_sized_def)

lemma small_step5:
  "get_single_code 7 (set_list small_store 0 [9] [4, 3], Map.empty) 0 0
     = Returns 7 ((set_list small_store 0 [9] [4, 3])\<lparr>allocated_codes := {7}\<rparr>, [7 \<mapsto> [4]])"
  by (simp add: get_single_code_def packer_eval set_list_def at_def new_array_def
      BlockInvertedLists_sized_def bil_defs)

lemma small_step6:
  "release_codes ((set_list small_store 0 [9] [4, 3])\<lparr>allocated_codes := {7}\<rparr>, [7 \<mapsto> [4]]) 0 7
     = Returns () (set_list small_store 0 [9] [4, 3], Map.empty)"
  by (simp add: release_codes_def get_alloc_codes_def delete_array_def set_list_def
      BlockInvertedLists_sized_def bil_defs)

lemma small_step7:
  "release_codes (set_list small_store 0 [9] [4, 3], Map.empty) 0 7
     = Returns () (set_list small_store 0 [9] [4, 3], Map.empty)"
  by (simp add: release_codes_def get_alloc_codes_def)

text \<open>Two appends, an update, a resize, a read of the size, one code handed out and
  released twice: the run exists, and it ends in the state the lemmas above give.\<close>

lemma small_run:
  "run junk (small_store, Map.empty)
     [Add_entries 0 1 [5] [1, 0], Add_entries 0 2 [6, 7] [3, 4], Update_entries 0 0 1 [9] [4],
      Resize 0 1, List_size 0, Get_single_code 7 0 0, Release_codes 0 7, Release_codes 0 7]
     (set_list small_store 0 [9] [4, 3], Map.empty)"
  unfolding run_iff_run_calls
  by (simp add: small_step1 small_step2 small_step3 small_step4 small_step5 small_step6
      small_step7 on_store_def on_world_def list_size_def at_def)

section \<open>Every reachable state\<close>

text \<open>
  C2.  Every state that a run of calls reaches from a constructed store satisfies
  the invariant: each list's buffer has the size its ids need, the packer keeps its
  contract, and every registered address is a live array.  This holds for every
  sequence of calls, whatever they return or throw, and for every content of the
  bytes the allocator hands out.
\<close>

theorem reachable_world_inv:
  assumes "s = BlockInvertedLists_sized nl npb bs \<or> s = BlockInvertedLists_default \<or>
      (packer_ok p \<and> BlockInvertedLists_packer nl (Some p) = Returns () s)"
    and "run junk (s, h) cs w'"
  shows "world_inv w'"
proof -
  from assms(1) have "world_inv (s, h)" by (auto intro: world_inv_packer)
  with assms(2) show ?thesis by (rule run_world_inv)
qed

theorem reachable_world_inv_witness:
  "world_inv (set_list small_store 0 [9] [4, 3], Map.empty)"
  using reachable_world_inv [OF _ small_run, of 1 2 2 flat_example_packer]
  by (simp add: small_store_constructed flat_packer_ok)

section \<open>An update read back\<close>

text \<open>
  C22.  After \<open>update_entries\<close> has overwritten \<open>n_entry\<close> entries of a list,
  \<open>get_single_code\<close> of the slot \<open>offset + i\<close> hands out an array that holds the
  caller's flat code \<open>i\<close>, for every \<open>i < n_entry\<close>.
\<close>

theorem update_entries_then_get_single_code:
  fixes offset n_entry i :: size_t
  assumes "sizes_ok s" "packer_matches s p" "list_no < nlist s"
    and "at (ids s) list_no = Some idv" "at (codes s) list_no = Some cdv"
    and "unat offset + unat n_entry \<le> length idv"
    and "list_fits (n_per_block s) (block_size s) (length idv)"
    and "unat n_entry \<le> length ids_in"
    and "unat n_entry * unat (CodePacker.code_size p) \<le> length code"
      "length code < size_limit"
    and "i < n_entry"
  shows "\<exists>s'. update_entries s list_no offset n_entry ids_in code = Returns () s' \<and>
      get_single_code a (s', h) list_no (offset + i) =
        Returns a (s'\<lparr>allocated_codes := insert a (allocated_codes s)\<rparr>,
          h(a \<mapsto> subrange code (unat i * unat (CodePacker.code_size p))
                   (unat (CodePacker.code_size p))))"
proof -
  let ?idv' = "overwrite idv (unat offset) (take (unat n_entry) ids_in)"
  from assms(2) have p: "packer s = Some p" "packer_ok p" by (simp_all add: packer_matches_def)
  have lt: "length idv < size_limit" using assms(7) by (rule list_fits_less)
  have "\<forall>j. unat j < length idv \<longrightarrow> holds_slot p cdv j"
    using assms(1,2,4,5,7) by (auto intro: store_holds_slot)
  from update_loop [OF p assms(4,5,6) lt this assms(8-10)] assms(11) obtain cdv' where
    run: "for_loop 0 n_entry (update_entries_body list_no offset ids_in code) s =
        Returns () (set_list s list_no ?idv' cdv')"
    and slot: "unpack_1 p cdv' (offset + i) =
        Some (subrange code (unat i * unat (CodePacker.code_size p))
               (unat (CodePacker.code_size p)))"
    by blast
  have "length ?idv' = length idv" using assms(6,8) by simp
  with update_range(2) [OF assms(6) lt assms(11)] lt
  have "offset + i < of_nat (length ?idv')"
    by (simp add: word_less_nat_alt unat_of_nat_len)
  with assms(3-5) p(1) slot
  have "get_single_code a (set_list s list_no ?idv' cdv', h) list_no (offset + i) =
      Returns a ((set_list s list_no ?idv' cdv')\<lparr>allocated_codes := insert a (allocated_codes s)\<rparr>,
        h(a \<mapsto> subrange code (unat i * unat (CodePacker.code_size p))
                 (unat (CodePacker.code_size p))))"
    by (simp add: get_single_code_def at_set_list_same new_array_def)
  with run show ?thesis unfolding update_entries_guards [OF assms(3,4,6) lt] by blast
qed

theorem update_entries_then_get_single_code_witness:
  "\<exists>s'. update_entries scenario_store 0 1 1 [99] (replicate 8 1) = Returns () s' \<and>
      get_single_code 7 (s', Map.empty) 0 1 =
        Returns 7 (s'\<lparr>allocated_codes := {7}\<rparr>, [7 \<mapsto> replicate 8 1])"
  using update_entries_then_get_single_code [OF scenario_ok scenario_matches _ scenario_sel _
      scenario_fits, of 1 1 "[99]" "replicate 8 1" 0 7 Map.empty]
  by (simp add: subrange_def)

section \<open>A store that was written and read back\<close>



section \<open>Every array that was handed out can be released\<close>

lemma small_run_open:
  "run junk (small_store, Map.empty) [Add_entries 0 1 [5] [1, 0], Get_single_code 7 0 0]
     (flat_example_store\<lparr>allocated_codes := {7}\<rparr>, [7 \<mapsto> [1]])"
proof -
  have "flat_example_store\<lparr>allocated_codes := {}\<rparr> = flat_example_store"
    by (simp add: set_list_def BlockInvertedLists_sized_def)
  with example_get [of 7 "{}" Map.empty] show ?thesis
    unfolding run_iff_run_calls by (simp add: small_step1 on_store_def on_world_def)
qed

text \<open>
  C17.  From every state that a run of calls reaches from a constructed store, the
  caller can get back to a store with an empty registry: there is a run of
  \<open>release_codes\<close>, one call for each array that was handed out and not yet
  released, after which no such array is registered or on the heap, and the rest of
  the heap is as it was.  Any list number that exists will do for the calls.
\<close>

theorem reachable_registry_drains:
  assumes "s = BlockInvertedLists_sized nl npb bs \<or> s = BlockInvertedLists_default \<or>
      (packer_ok p \<and> BlockInvertedLists_packer nl (Some p) = Returns () s)"
    and "run junk (s, h) cs (s', h')" and "l < nlist s'"
  shows "\<exists>ds. run junk (s', h') ds
      (s'\<lparr>allocated_codes := {}\<rparr>, \<lambda>a. if a \<in> allocated_codes s' then None else h' a) \<and>
    set ds = Release_codes l ` allocated_codes s' \<and> length ds = card (allocated_codes s')"
proof -
  from assms(1) have inv: "world_inv (s, h)" by (auto intro: world_inv_packer)
  from assms(1) have "allocated_codes s = {}"
    by (auto simp: BlockInvertedLists_default_def BlockInvertedLists_packer_def
        split: if_splits option.splits)
  with run_finite_registry [OF assms(2) inv] have "finite (allocated_codes s')" by simp
  moreover from run_world_inv [OF assms(2) inv] have "world_inv (s', h')" .
  ultimately show ?thesis using assms(3) by (intro drain_registry) simp_all
qed

theorem reachable_registry_drains_witness:
  "\<exists>ds. run (\<lambda>_. 0) (flat_example_store\<lparr>allocated_codes := {7}\<rparr>, [7 \<mapsto> [1]]) ds
      (flat_example_store\<lparr>allocated_codes := {}\<rparr>, Map.empty) \<and>
    set ds = {Release_codes 0 7} \<and> length ds = 1"
proof -
  have "(\<lambda>a :: addr. if a \<in> {7} then None else [7 \<mapsto> [1 :: byte]] a) = Map.empty"
    by (rule ext) simp
  with reachable_registry_drains [OF _ small_run_open, of 1 2 2 flat_example_packer 0 "\<lambda>_. 0"]
  show ?thesis by (simp add: small_store_constructed flat_packer_ok)
qed

end
